theory Spec2Isabelle
  imports Complex_Main "HOL-Library.Char_ord" "HOL-Library.List_Lexorder"
begin

section \<open>JavaScript numbers\<close>

text \<open>
  The grid engine of \<^verbatim>\<open>src/core.js\<close> computes with JavaScript numbers. A number is
  modelled as a finite real, one of the two infinities, or NaN. The special values follow
  IEEE 754 (\<open>Infinity - Infinity\<close>, \<open>0 * Infinity\<close> and \<open>0 / 0\<close> are NaN, every
  comparison with NaN is false). A result beyond \<open>Number.MAX_VALUE\<close> is rounded as a
  double is: to \<open>Number.MAX_VALUE\<close> as long as it is nearer to it than to \<open>2^1024\<close>, to
  an infinity from \<open>2^1024 - 2^970\<close> on. Two things are idealised: within the range
  finite results are exact (no rounding to the nearest double, no underflow), so that a
  result of the model and of the code may differ by the rounding error of the operations
  involved, and there is a single zero (no \<open>-0\<close>).
\<close>

datatype jsnum = Fin real | PInf | NInf | NaN

definition MAX_VALUE :: real where
  "MAX_VALUE = 2 ^ 1024 - 2 ^ 971"

definition EPSILON :: real where
  "EPSILON = 1 / 2 ^ 52"

definition fl :: "real \<Rightarrow> jsnum" where
  "fl r =
     (if 2 ^ 1024 - 2 ^ 970 \<le> r then PInf
      else if r \<le> - (2 ^ 1024 - 2 ^ 970) then NInf
      else if MAX_VALUE < r then Fin MAX_VALUE
      else if r < - MAX_VALUE then Fin (- MAX_VALUE)
      else Fin r)"

fun num_neg :: "jsnum \<Rightarrow> jsnum" where
  "num_neg (Fin r) = Fin (- r)"
| "num_neg PInf = NInf"
| "num_neg NInf = PInf"
| "num_neg NaN = NaN"

fun num_add :: "jsnum \<Rightarrow> jsnum \<Rightarrow> jsnum" where
  "num_add (Fin a) (Fin b) = fl (a + b)"
| "num_add (Fin a) PInf = PInf"
| "num_add (Fin a) NInf = NInf"
| "num_add PInf (Fin b) = PInf"
| "num_add PInf PInf = PInf"
| "num_add PInf NInf = NaN"
| "num_add NInf (Fin b) = NInf"
| "num_add NInf PInf = NaN"
| "num_add NInf NInf = NInf"
| "num_add NaN b = NaN"
| "num_add a NaN = NaN"

definition num_sub :: "jsnum \<Rightarrow> jsnum \<Rightarrow> jsnum" where
  "num_sub a b = num_add a (num_neg b)"

text \<open>An infinity times a finite factor: NaN for zero, otherwise the sign decides.\<close>

definition inf_times :: "bool \<Rightarrow> real \<Rightarrow> jsnum" where
  "inf_times positive r =
     (if r = 0 then NaN else if (0 < r) = positive then PInf else NInf)"

fun num_mul :: "jsnum \<Rightarrow> jsnum \<Rightarrow> jsnum" where
  "num_mul (Fin a) (Fin b) = fl (a * b)"
| "num_mul (Fin a) PInf = inf_times True a"
| "num_mul (Fin a) NInf = inf_times False a"
| "num_mul PInf (Fin b) = inf_times True b"
| "num_mul PInf PInf = PInf"
| "num_mul PInf NInf = NInf"
| "num_mul NInf (Fin b) = inf_times False b"
| "num_mul NInf PInf = NInf"
| "num_mul NInf NInf = PInf"
| "num_mul NaN b = NaN"
| "num_mul a NaN = NaN"

fun num_div :: "jsnum \<Rightarrow> jsnum \<Rightarrow> jsnum" where
  "num_div (Fin a) (Fin b) =
     (if b = 0 then (if a = 0 then NaN else if 0 < a then PInf else NInf)
      else fl (a / b))"
| "num_div (Fin a) PInf = Fin 0"
| "num_div (Fin a) NInf = Fin 0"
| "num_div PInf (Fin b) = (if 0 \<le> b then PInf else NInf)"
| "num_div NInf (Fin b) = (if 0 \<le> b then NInf else PInf)"
| "num_div PInf PInf = NaN"
| "num_div PInf NInf = NaN"
| "num_div NInf PInf = NaN"
| "num_div NInf NInf = NaN"
| "num_div NaN b = NaN"
| "num_div a NaN = NaN"

fun num_lt :: "jsnum \<Rightarrow> jsnum \<Rightarrow> bool" where
  "num_lt (Fin a) (Fin b) = (a < b)"
| "num_lt (Fin a) PInf = True"
| "num_lt NInf (Fin b) = True"
| "num_lt NInf PInf = True"
| "num_lt a b = False"

fun num_le :: "jsnum \<Rightarrow> jsnum \<Rightarrow> bool" where
  "num_le NaN b = False"
| "num_le a NaN = False"
| "num_le a b = (a = b \<or> num_lt a b)"

text \<open>\<open>Math.max\<close> and \<open>Math.min\<close> on two numbers: NaN as soon as one argument is NaN.\<close>

definition num_max :: "jsnum \<Rightarrow> jsnum \<Rightarrow> jsnum" where
  "num_max a b = (if a = NaN \<or> b = NaN then NaN else if num_lt a b then b else a)"

definition num_min :: "jsnum \<Rightarrow> jsnum \<Rightarrow> jsnum" where
  "num_min a b = (if a = NaN \<or> b = NaN then NaN else if num_lt b a then b else a)"


section \<open>JavaScript values\<close>

text \<open>
  Function values are identifiers: the getters that \<^verbatim>\<open>core.js\<close> defines itself, and
  \<open>Closure n a\<close> for any function supplied from outside (range functions, tick
  generators, label generators), where \<open>a\<close> is the number of its parameters (its
  \<open>length\<close>). What a closure does is decided by the host's closure table below. The
  engine calls every function it is given with one argument, the state object under
  construction, and the function may write to that object: the table gives, for the
  properties of the state object at the call, the value returned together with the
  properties of the state object after the call (or the error thrown). The writes of a
  function are assignments to properties of the state object it is handed; it is taken
  not to change the objects that the state refers to (the configuration, the viewport,
  the grid, arrays stored in the state).

  An object is the list of its properties in enumeration order. \<open>Host\<close> stands for an
  object of the embedding page that the engine only passes around (the grid instance
  stored in \<open>state.grid\<close>).
\<close>

datatype func =
    X_getCoords | X_getRange | X_getRatio
  | Y_getCoords | Y_getRange | Y_getRatio
  | Default_getCoords | Default_getRatio
  | Closure nat nat

text \<open>The \<open>length\<close> of a function: the number of its parameters.\<close>

fun arity :: "func \<Rightarrow> nat" where
  "arity X_getRange = 1"
| "arity Y_getRange = 1"
| "arity (Closure n a) = a"
| "arity f = 2"

datatype jsval =
    Undefined
  | Null
  | Bool bool
  | Number jsnum
  | Str string
  | Arr "jsval list"
  | Obj "(string \<times> jsval) list"
  | Fun func
  | Host string

type_synonym props = "(string \<times> jsval) list"

datatype error = TypeError | RangeError | Thrown jsval

text \<open>
  Sequencing of computations that may throw: the first error ends the computation.
\<close>

definition thn :: "error + 'a \<Rightarrow> ('a \<Rightarrow> error + 'b) \<Rightarrow> error + 'b" where
  "thn m f = (case m of Inl e \<Rightarrow> Inl e | Inr v \<Rightarrow> f v)"

text \<open>
  Everything \<^verbatim>\<open>core.js\<close> imports. \<open>types\<close> is the preset table of
  \<^verbatim>\<open>./types\<close> (preset name to preset object), a file of the repository that is not
  among the sources, so it is a parameter. \<open>alpha\<close>, \<open>parseUnit\<close> and \<open>toPx\<close> are
  the packages \<^verbatim>\<open>color-alpha\<close>, \<^verbatim>\<open>parse-unit\<close> and \<^verbatim>\<open>to-px\<close>; \<open>isBrowser\<close>
  is \<^verbatim>\<open>is-browser\<close>. The remaining fields are the parts of the JavaScript
  runtime that the model does not spell out: parsing and printing of numbers and the
  string an object converts to.
\<close>

record host =
  closure :: "func \<Rightarrow> props \<Rightarrow> error + jsval \<times> props"
  types :: props
  alpha :: "jsval \<Rightarrow> jsval \<Rightarrow> jsval"
  parseUnit :: "jsval \<Rightarrow> jsval"
  toPx :: "jsval \<Rightarrow> jsval"
  isBrowser :: bool
  parseFloat :: "string \<Rightarrow> jsnum"
  stringToNumber :: "string \<Rightarrow> jsnum"
  numberToString :: "jsnum \<Rightarrow> string"
  objectToString :: "jsval \<Rightarrow> string"

text \<open>
  The fields of a grid instance that the engine reads and writes. \<open>viewport\<close> is
  maintained by the base component. \<open>state_x\<close> and \<open>state_y\<close> are \<open>this.state.x\<close>
  and \<open>this.state.y\<close>; the two \<open>opposite\<close> links between them form a cycle of
  references and are represented by the pair itself.
\<close>

record grid =
  this_x :: props
  this_y :: props
  this_r :: props
  this_a :: props
  viewport :: jsval
  state_x :: jsval
  state_y :: jsval

subsection \<open>Conversions and operators\<close>

fun truthy :: "jsval \<Rightarrow> bool" where
  "truthy Undefined = False"
| "truthy Null = False"
| "truthy (Bool b) = b"
| "truthy (Number n) = (n \<noteq> NaN \<and> n \<noteq> Fin 0)"
| "truthy (Str s) = (s \<noteq> [])"
| "truthy v = True"

text \<open>\<open>v == null\<close>\<close>

fun eq_null :: "jsval \<Rightarrow> bool" where
  "eq_null Undefined = True"
| "eq_null Null = True"
| "eq_null v = False"

text \<open>\<open>a || b\<close>\<close>

definition js_or :: "jsval \<Rightarrow> jsval \<Rightarrow> jsval" where
  "js_or a b = (if truthy a then a else b)"

fun ToPrimitive :: "host \<Rightarrow> jsval \<Rightarrow> jsval" where
  "ToPrimitive h (Arr xs) = Str (objectToString h (Arr xs))"
| "ToPrimitive h (Obj ps) = Str (objectToString h (Obj ps))"
| "ToPrimitive h (Fun f) = Str (objectToString h (Fun f))"
| "ToPrimitive h (Host n) = Str (objectToString h (Host n))"
| "ToPrimitive h v = v"

fun ToNumber :: "host \<Rightarrow> jsval \<Rightarrow> jsnum" where
  "ToNumber h Undefined = NaN"
| "ToNumber h Null = Fin 0"
| "ToNumber h (Bool b) = Fin (if b then 1 else 0)"
| "ToNumber h (Number n) = n"
| "ToNumber h (Str s) = stringToNumber h s"
| "ToNumber h v = stringToNumber h (objectToString h v)"

fun ToString :: "host \<Rightarrow> jsval \<Rightarrow> string" where
  "ToString h Undefined = ''undefined''"
| "ToString h Null = ''null''"
| "ToString h (Bool b) = (if b then ''true'' else ''false'')"
| "ToString h (Number n) = numberToString h n"
| "ToString h (Str s) = s"
| "ToString h v = objectToString h v"

definition js_neg :: "host \<Rightarrow> jsval \<Rightarrow> jsval" where
  "js_neg h a = Number (num_neg (ToNumber h a))"

definition js_sub :: "host \<Rightarrow> jsval \<Rightarrow> jsval \<Rightarrow> jsval" where
  "js_sub h a b = Number (num_sub (ToNumber h a) (ToNumber h b))"

definition js_mul :: "host \<Rightarrow> jsval \<Rightarrow> jsval \<Rightarrow> jsval" where
  "js_mul h a b = Number (num_mul (ToNumber h a) (ToNumber h b))"

definition js_div :: "host \<Rightarrow> jsval \<Rightarrow> jsval \<Rightarrow> jsval" where
  "js_div h a b = Number (num_div (ToNumber h a) (ToNumber h b))"

fun is_Str :: "jsval \<Rightarrow> bool" where
  "is_Str (Str s) = True"
| "is_Str v = False"

text \<open>\<open>a + b\<close>: concatenation as soon as one operand converts to a string.\<close>

definition js_add :: "host \<Rightarrow> jsval \<Rightarrow> jsval \<Rightarrow> jsval" where
  "js_add h a b =
     (if is_Str (ToPrimitive h a) \<or> is_Str (ToPrimitive h b)
      then Str (ToString h a @ ToString h b)
      else Number (num_add (ToNumber h a) (ToNumber h b)))"

text \<open>\<open>a > b\<close>: two strings compare as strings, anything else as numbers.\<close>

definition js_gt :: "host \<Rightarrow> jsval \<Rightarrow> jsval \<Rightarrow> bool" where
  "js_gt h a b =
     (if is_Str (ToPrimitive h a) \<and> is_Str (ToPrimitive h b)
      then ToString h b < ToString h a
      else num_lt (ToNumber h b) (ToNumber h a))"

definition Math_max :: "host \<Rightarrow> jsval \<Rightarrow> jsval \<Rightarrow> jsval" where
  "Math_max h a b = Number (num_max (ToNumber h a) (ToNumber h b))"

definition Math_min :: "host \<Rightarrow> jsval \<Rightarrow> jsval \<Rightarrow> jsval" where
  "Math_min h a b = Number (num_min (ToNumber h a) (ToNumber h b))"

text \<open>
  \<open>a === b\<close>. NaN is not equal to itself. Arrays and objects are compared by
  identity in JavaScript; the model has no identities and compares their contents.
\<close>

fun strict_eq :: "jsval \<Rightarrow> jsval \<Rightarrow> bool" where
  "strict_eq (Number a) (Number b) = (a \<noteq> NaN \<and> a = b)"
| "strict_eq a b = (a = b)"

subsection \<open>Properties\<close>

definition lookup :: "props \<Rightarrow> string \<Rightarrow> jsval" where
  "lookup ps k = (case map_of ps k of None \<Rightarrow> Undefined | Some v \<Rightarrow> v)"

text \<open>\<open>obj[k] = v\<close>: an existing property keeps its place, a new one goes last.\<close>

fun put :: "props \<Rightarrow> string \<Rightarrow> jsval \<Rightarrow> props" where
  "put [] k v = [(k, v)]"
| "put ((k', v') # ps) k v = (if k' = k then (k, v) # ps else (k', v') # put ps k v)"

text \<open>
  \<open>v.k\<close> on a value that is not known to be an object: reading a property of
  \<open>undefined\<close> or \<open>null\<close> throws, \<open>length\<close> is defined on arrays, strings and
  functions, and a primitive has no other property of interest here.
\<close>

fun get :: "jsval \<Rightarrow> string \<Rightarrow> error + jsval" where
  "get Undefined k = Inl TypeError"
| "get Null k = Inl TypeError"
| "get (Obj ps) k = Inr (lookup ps k)"
| "get (Arr xs) k = Inr (if k = ''length'' then Number (Fin (real (length xs))) else Undefined)"
| "get (Str s) k = Inr (if k = ''length'' then Number (Fin (real (length s))) else Undefined)"
| "get (Fun f) k = Inr (if k = ''length'' then Number (Fin (real (arity f))) else Undefined)"
| "get v k = Inr Undefined"

fun digit :: "nat \<Rightarrow> char" where
  "digit n = (''0123456789'' ! (n mod 10))"

fun show_nat :: "nat \<Rightarrow> string" where
  "show_nat n = (if n < 10 then [digit n] else show_nat (n div 10) @ [digit n])"

text \<open>\<open>v[i]\<close> for an index \<open>i\<close>.\<close>

fun get_index :: "jsval \<Rightarrow> nat \<Rightarrow> error + jsval" where
  "get_index Undefined i = Inl TypeError"
| "get_index Null i = Inl TypeError"
| "get_index (Arr xs) i = Inr (if i < length xs then xs ! i else Undefined)"
| "get_index (Str s) i = Inr (if i < length s then Str [s ! i] else Undefined)"
| "get_index (Obj ps) i = Inr (lookup ps (show_nat i))"
| "get_index v i = Inr Undefined"

text \<open>The enumerable own properties that \<open>for (key in v)\<close> visits.\<close>

fun own_props :: "jsval \<Rightarrow> props" where
  "own_props (Obj ps) = ps"
| "own_props (Arr xs) = zip (map show_nat [0..<length xs]) xs"
| "own_props (Str s) = zip (map show_nat [0..<length s]) (map (\<lambda>c. Str [c]) s)"
| "own_props v = []"

fun is_number :: "jsval \<Rightarrow> bool" where
  "is_number (Number n) = True"
| "is_number v = False"

fun is_function :: "jsval \<Rightarrow> bool" where
  "is_function (Fun f) = True"
| "is_function v = False"

fun is_array :: "jsval \<Rightarrow> bool" where
  "is_array (Arr xs) = True"
| "is_array v = False"

fun isObj :: "jsval \<Rightarrow> bool" where
  "isObj (Obj ps) = True"
| "isObj v = False"

section \<open>Imported helpers\<close>

text \<open>
  \<^verbatim>\<open>mumath/clamp\<close>, a dependency of the repository. Its definition is
  \<^verbatim>\<open>max > min ? Math.max(Math.min(a,max),min) : Math.max(Math.min(a,min),max)\<close>:
  the two limits may come in either order.
\<close>

definition clamp :: "host \<Rightarrow> jsval \<Rightarrow> jsval \<Rightarrow> jsval \<Rightarrow> jsval" where
  "clamp h a mn mx =
     (if js_gt h mx mn then Math_max h (Math_min h a mx) mn
      else Math_max h (Math_min h a mn) mx)"

text \<open>
  \<^verbatim>\<open>just-extend\<close>, shallow: every enumerable property of every source, in order, is
  assigned to the target, so a later source wins over an earlier one and over the target.
\<close>

definition assign :: "props \<Rightarrow> jsval \<Rightarrow> props" where
  "assign target source = foldl (\<lambda>t (k, v). put t k v) target (own_props source)"

definition extend :: "props \<Rightarrow> jsval list \<Rightarrow> props" where
  "extend target sources = foldl assign target sources"

text \<open>\<open>Array(len).fill(null)\<close>: a single argument that is not a number becomes the
  only element; a number must be a valid array length.\<close>

fun Array_fill_null :: "jsval \<Rightarrow> error + jsval" where
  "Array_fill_null (Number (Fin r)) =
     (if 0 \<le> r \<and> r < 2 ^ 32 \<and> real_of_int \<lfloor>r\<rfloor> = r
      then Inr (Arr (replicate (nat \<lfloor>r\<rfloor>) Null)) else Inl RangeError)"
| "Array_fill_null (Number n) = Inl RangeError"
| "Array_fill_null v = Inr (Arr [Null])"

section \<open>Axis defaults and the four prototypes\<close>

text \<open>The object literal that \<open>Grid.prototype.defaults\<close> starts from.\<close>

definition defaults_literal :: props where
  "defaults_literal =
     [(''type'', Str ''linear''),
      (''name'', Str ''''),
      (''units'', Str ''''),
      (''min'', Number NInf),
      (''max'', Number PInf),
      (''offset'', Number (Fin 0)),
      (''origin'', Number (Fin (1 / 2))),
      (''scale'', Number (Fin 1)),
      (''minScale'', js_or (Number (Fin EPSILON)) (Number (Fin (119209290 / 10 ^ 15)))),
      (''maxScale'', js_or (Number (Fin MAX_VALUE)) (Number (Fin (10 ^ 100)))),
      (''zoom'', Bool True),
      (''pan'', Bool True),
      (''labels'', Bool True),
      (''fontSize'', Str ''10pt''),
      (''fontFamily'', Str ''sans-serif''),
      (''padding'', Number (Fin 0)),
      (''color'', Str ''rgb(0,0,0,1)''),
      (''lines'', Bool True),
      (''sublines'', Bool True),
      (''tick'', Number (Fin 8)),
      (''subtick'', Number (Fin 0)),
      (''tickAlign'', Number (Fin (1 / 2))),
      (''lineWidth'', Number (Fin 1)),
      (''distance'', Number (Fin 120)),
      (''style'', Str ''lines''),
      (''lineColor'', Number (Fin (4 / 10))),
      (''sublineColor'', Number (Fin (1 / 10))),
      (''axis'', Bool True),
      (''axisOrigin'', Number (Fin 0)),
      (''axisWidth'', Number (Fin 2)),
      (''axisColor'', Number (Fin 1)),
      (''getCoords'', Fun Default_getCoords),
      (''getRatio'', Fun Default_getRatio)]"

text \<open>\<open>Grid.prototype.defaults = extend({...}, types.linear)\<close>\<close>

definition defaults :: "host \<Rightarrow> props" where
  "defaults h = extend defaults_literal [lookup (types h) ''linear'']"

definition Grid_prototype_x :: "host \<Rightarrow> props" where
  "Grid_prototype_x h = extend [] [Obj (defaults h),
     Obj [(''orientation'', Str ''x''),
          (''getCoords'', Fun X_getCoords),
          (''getRange'', Fun X_getRange),
          (''getRatio'', Fun X_getRatio)]]"

definition Grid_prototype_y :: "host \<Rightarrow> props" where
  "Grid_prototype_y h = extend [] [Obj (defaults h),
     Obj [(''orientation'', Str ''y''),
          (''getCoords'', Fun Y_getCoords),
          (''getRange'', Fun Y_getRange),
          (''getRatio'', Fun Y_getRatio)]]"

definition Grid_prototype_r :: "host \<Rightarrow> props" where
  "Grid_prototype_r h = extend [] [Obj (defaults h), Obj [(''orientation'', Str ''r'')]]"

definition Grid_prototype_a :: "host \<Rightarrow> props" where
  "Grid_prototype_a h = extend [] [Obj (defaults h), Obj [(''orientation'', Str ''a'')]]"

subsection \<open>The getters of the x and y prototypes\<close>

text \<open>\<open>state => state.viewport[i] * state.lines.scale\<close>, with \<open>i = 2\<close> for x and
  \<open>i = 3\<close> for y.\<close>

definition getRange :: "host \<Rightarrow> nat \<Rightarrow> jsval \<Rightarrow> error + jsval" where
  "getRange h i state =
     thn (get state ''viewport'') (\<lambda>vp.
     thn (get_index vp i) (\<lambda>extent.
     thn (get state ''lines'') (\<lambda>lines.
     thn (get lines ''scale'') (\<lambda>scale.
     Inr (js_mul h extent scale)))))"

text \<open>\<open>(value, state) => (value - state.offset) / state.range\<close>\<close>

definition x_getRatio :: "host \<Rightarrow> jsval \<Rightarrow> jsval \<Rightarrow> error + jsval" where
  "x_getRatio h v state =
     thn (get state ''offset'') (\<lambda>offset.
     thn (get state ''range'') (\<lambda>range.
     Inr (js_div h (js_sub h v offset) range)))"

text \<open>\<open>(value, state) => 1 - (value - state.offset) / state.range\<close>\<close>

definition y_getRatio :: "host \<Rightarrow> jsval \<Rightarrow> jsval \<Rightarrow> error + jsval" where
  "y_getRatio h v state =
     thn (x_getRatio h v state) (\<lambda>t. Inr (js_sub h (Number (Fin 1)) t))"

definition arg :: "jsval list \<Rightarrow> nat \<Rightarrow> jsval" where
  "arg args i = (if i < length args then args ! i else Undefined)"

text \<open>
  A call \<open>f(state)\<close> with the state object as the only argument: the value returned
  and the properties of the state object after the call. Calling something that is not
  a function throws. The getters of \<^verbatim>\<open>core.js\<close> only read the state; a \<open>getRatio\<close>
  called this way finds its second parameter undefined. The \<open>getCoords\<close> functions of
  the x and y prototypes are only ever called by a renderer, so their application is left
  to the closure table like that of any outside function.
\<close>

fun call :: "host \<Rightarrow> jsval \<Rightarrow> props \<Rightarrow> error + jsval \<times> props" where
  "call h (Fun X_getRange) st = thn (getRange h 2 (Obj st)) (\<lambda>r. Inr (r, st))"
| "call h (Fun Y_getRange) st = thn (getRange h 3 (Obj st)) (\<lambda>r. Inr (r, st))"
| "call h (Fun X_getRatio) st = thn (x_getRatio h (Obj st) Undefined) (\<lambda>r. Inr (r, st))"
| "call h (Fun Y_getRatio) st = thn (y_getRatio h (Obj st) Undefined) (\<lambda>r. Inr (r, st))"
| "call h (Fun Default_getRatio) st = Inr (Number (Fin 0), st)"
| "call h (Fun Default_getCoords) st = Inr (Arr (replicate 4 (Number (Fin 0))), st)"
| "call h (Fun f) st = closure h f st"
| "call h v st = Inl TypeError"

text \<open>
  A function that leaves the state object as it found it, whenever it returns: what the
  statements below call a pure function. Everything that is not a function counts, as
  calling it never returns.
\<close>

definition leaves_state :: "host \<Rightarrow> jsval \<Rightarrow> bool" where
  "leaves_state h f = (\<forall>st r st'. call h f st = Inr (r, st') \<longrightarrow> st' = st)"

text \<open>An axis configuration all of whose functions are pure: \<open>getRange\<close>, \<open>padding\<close>,
  \<open>lines\<close>, \<open>sublines\<close> and \<open>labels\<close> are the five properties that calcLines calls.\<close>

definition pure_axis :: "host \<Rightarrow> props \<Rightarrow> bool" where
  "pure_axis h lines =
     (leaves_state h (lookup lines ''getRange'') \<and> leaves_state h (lookup lines ''padding'')
      \<and> leaves_state h (lookup lines ''lines'') \<and> leaves_state h (lookup lines ''sublines'')
      \<and> leaves_state h (lookup lines ''labels''))"

section \<open>calcLines: the state of one axis\<close>

text \<open>
  \<open>Grid.prototype.calcLines(lines, vp)\<close> builds the state object step by step; each
  step below is one commented block of the source, taking the state built so far.
  \<open>lines\<close> is the axis configuration (\<open>this.x\<close> or \<open>this.y\<close>).
\<close>

text \<open>The new state and \<open>//calculate real offset/range\<close>.\<close>

definition calc_offset :: "host \<Rightarrow> props \<Rightarrow> jsval \<Rightarrow> error + props" where
  "calc_offset h lines vp =
     (let state = [(''lines'', Obj lines), (''viewport'', vp), (''grid'', Host ''grid'')] in
      thn (call h (lookup lines ''getRange'') state) (\<lambda>(range, state).
      let state = put state ''range'' range in
      Inr (put state ''offset''
        (clamp h
          (js_sub h (lookup lines ''offset'')
             (js_mul h (lookup state ''range'')
                (clamp h (lookup lines ''origin'') (Number (Fin 0)) (Number (Fin 1)))))
          (Math_max h (lookup lines ''min'') (Number (fl (- MAX_VALUE + 1))))
          (js_sub h (Math_min h (lookup lines ''max'') (Number (Fin MAX_VALUE)))
             (lookup state ''range''))))))"

text \<open>\<open>typeof c === 'number' ? alpha(lines.color, c) : c || lines.color\<close>\<close>

definition blend :: "host \<Rightarrow> props \<Rightarrow> jsval \<Rightarrow> jsval" where
  "blend h lines c =
     (if is_number c then alpha h (lookup lines ''color'') c
      else js_or c (lookup lines ''color''))"

text \<open>\<open>//calc style\<close>\<close>

definition calc_style :: "host \<Rightarrow> props \<Rightarrow> props \<Rightarrow> props" where
  "calc_style h lines state =
     (let state = put state ''axisColor'' (blend h lines (lookup lines ''axisColor''));
          state = put state ''axisWidth''
                    (js_or (lookup lines ''axisWidth'') (lookup lines ''lineWidth''));
          state = put state ''lineWidth'' (lookup lines ''lineWidth'');
          state = put state ''tickAlign'' (lookup lines ''tickAlign'');
          state = put state ''labelColor'' (lookup state ''color'');
          state = put state ''lineColor'' (blend h lines (lookup lines ''lineColor''));
          state = put state ''sublineColor'' (blend h lines (lookup lines ''sublineColor''));
          state = put state ''tick'' (lookup lines ''tick'')
      in put state ''subtick'' (lookup lines ''subtick''))"

text \<open>\<open>//get padding\<close>\<close>

definition calc_padding :: "host \<Rightarrow> props \<Rightarrow> props \<Rightarrow> error + props" where
  "calc_padding h lines state =
     (if is_number (lookup lines ''padding'')
      then Inr (put state ''padding'' (Arr (replicate 4 (lookup lines ''padding''))))
      else if is_function (lookup lines ''padding'')
      then thn (call h (lookup lines ''padding'') state) (\<lambda>(p, state).
           Inr (put state ''padding'' p))
      else Inr (put state ''padding'' (lookup lines ''padding'')))"

text \<open>\<open>//calc font\<close>\<close>

definition calc_font :: "host \<Rightarrow> props \<Rightarrow> props \<Rightarrow> error + props" where
  "calc_font h lines state =
     thn (if is_number (lookup lines ''fontSize'')
          then Inr (put state ''fontSize'' (lookup lines ''fontSize''))
          else (let units = parseUnit h (lookup lines ''fontSize'') in
                thn (get_index units 0) (\<lambda>magnitude.
                thn (get_index units 1) (\<lambda>unit.
                Inr (put state ''fontSize'' (js_mul h magnitude (toPx h unit)))))))
       (\<lambda>state.
     Inr (put state ''fontFamily'' (js_or (lookup lines ''fontFamily'') (Str ''sans-serif''))))"

text \<open>\<open>//get lines stops\<close>. The local variable \<open>values\<close> is returned with the state: the
  later steps read the variable, not \<open>state.values\<close>, which a function called in between
  may have replaced.\<close>

definition calc_values :: "host \<Rightarrow> props \<Rightarrow> props \<Rightarrow> error + jsval \<times> props" where
  "calc_values h lines state =
     thn (if is_function (lookup lines ''lines'')
          then call h (lookup lines ''lines'') state
          else Inr (js_or (lookup lines ''lines'') (Arr []), state))
       (\<lambda>(values, state).
     Inr (values, put state ''values'' values))"

text \<open>
  \<open>values.indexOf(v) >= 0\<close>. An array searches with \<open>===\<close>, a string searches for
  the text of \<open>v\<close>; nothing else has an \<open>indexOf\<close> method to call.
\<close>

fun indexOf_found :: "host \<Rightarrow> jsval \<Rightarrow> jsval \<Rightarrow> error + bool" where
  "indexOf_found h (Arr xs) v = Inr (list_ex (\<lambda>x. strict_eq x v) xs)"
| "indexOf_found h (Str s) v =
     Inr (list_ex (\<lambda>i. take (length (ToString h v)) (drop i s) = ToString h v) [0..<Suc (length s)])"
| "indexOf_found h values v = Inl TypeError"

text \<open>\<open>xs.filter(v => values.indexOf(v) >= 0)\<close> on the elements of an array.\<close>

fun filter_found :: "host \<Rightarrow> jsval \<Rightarrow> jsval list \<Rightarrow> error + jsval list" where
  "filter_found h values [] = Inr []"
| "filter_found h values (v # vs) =
     thn (indexOf_found h values v) (\<lambda>keep.
     thn (filter_found h values vs) (\<lambda>rest.
     Inr (if keep then v # rest else rest)))"

text \<open>\<open>.filter\<close> exists on arrays only.\<close>

fun array_filter_found :: "host \<Rightarrow> jsval \<Rightarrow> jsval \<Rightarrow> error + jsval" where
  "array_filter_found h values (Arr xs) =
     thn (filter_found h values xs) (\<lambda>kept. Inr (Arr kept))"
| "array_filter_found h values v = Inl TypeError"

text \<open>
  The subvalues. In the middle branch \<open>state.scale\<close> is read (the engine itself never
  sets it), divided by three for the second call of the generator, and written back
  after the call. The filter looks the elements up in the local variable \<open>values\<close>.
\<close>

definition calc_subvalues :: "host \<Rightarrow> props \<Rightarrow> jsval \<Rightarrow> props \<Rightarrow> error + props" where
  "calc_subvalues h lines values state =
     (if is_function (lookup lines ''sublines'')
      then thn (call h (lookup lines ''sublines'') state) (\<lambda>(subvalues, state).
           Inr (put state ''subvalues'' subvalues))
      else if (strict_eq (lookup lines ''sublines'') (Bool True)
               \<or> strict_eq (lookup lines ''sublines'') Undefined)
              \<and> is_function (lookup lines ''lines'')
      then (let scale = lookup state ''scale'';
                state = put state ''scale'' (js_div h scale (Number (Fin 3))) in
            thn (call h (lookup lines ''lines'') state) (\<lambda>(finer, state).
            thn (array_filter_found h values finer) (\<lambda>subvalues.
            let state = put state ''scale'' scale in
            Inr (put state ''subvalues'' subvalues))))
      else Inr (put state ''subvalues'' (lookup lines ''sublines'')))"

text \<open>\<open>//calc labels\<close>. The local variable \<open>labels\<close> is returned with the state.\<close>

definition calc_labels :: "host \<Rightarrow> props \<Rightarrow> jsval \<Rightarrow> props \<Rightarrow> error + jsval \<times> props" where
  "calc_labels h lines values state =
     thn (if strict_eq (lookup lines ''labels'') (Bool True)
          then Inr (values, state)
          else if is_function (lookup lines ''labels'')
          then call h (lookup lines ''labels'') state
          else if is_array (lookup lines ''labels'')
          then Inr (lookup lines ''labels'', state)
          else thn (get values ''length'') (\<lambda>n.
               thn (Array_fill_null n) (\<lambda>nulls. Inr (nulls, state))))
       (\<lambda>(labels, state).
     Inr (labels, put state ''labels'' labels))"

text \<open>
  \<open>//convert hashmap ticks/labels to values + colors\<close>. The loop pushes onto
  \<open>state.labels\<close> and \<open>state.values\<close>; only an array has \<open>push\<close>. As long as no
  function has replaced it, the array in \<open>state.values\<close> is the very array of
  \<open>lines.lines\<close> when that is a literal array, and \<open>state.lines\<close> is the
  configuration itself, so the configuration sees the pushed values too: the
  configuration is returned with the state. Without identities, "has not been replaced"
  is read as "has the same content".
\<close>

definition convert_hashmap ::
  "host \<Rightarrow> props \<Rightarrow> jsval \<Rightarrow> jsval \<Rightarrow> props \<Rightarrow> error + props \<times> props" where
  "convert_hashmap h lines values labels state =
     (if isObj labels
      then (let entries = own_props labels in
            thn (get values ''length'') (\<lambda>n.
            thn (Array_fill_null n) (\<lambda>nulls.
            if entries = [] then Inr (lines, put state ''labels'' nulls)
            else (case (nulls, lookup state ''values'') of
              (Arr ns, Arr vs) \<Rightarrow>
                (let pushed = Arr (vs @ map (\<lambda>(k, l). Number (parseFloat h k)) entries);
                     lines' = (if is_array (lookup lines ''lines'')
                                  \<and> lookup state ''values'' = lookup lines ''lines''
                               then put lines ''lines'' pushed else lines);
                     state = (if lookup state ''lines'' = Obj lines
                              then put state ''lines'' (Obj lines') else state);
                     state = put state ''labels''
                               (Arr (ns @ map (\<lambda>(k, l). lookup entries k) entries))
                 in Inr (lines', put state ''values'' pushed))
            | _ \<Rightarrow> Inl TypeError))))
      else Inr (lines, state))"

definition calcLines :: "host \<Rightarrow> props \<Rightarrow> jsval \<Rightarrow> error + props \<times> props" where
  "calcLines h lines vp =
     thn (calc_offset h lines vp) (\<lambda>state.
     thn (calc_padding h lines (calc_style h lines state)) (\<lambda>state.
     thn (calc_font h lines state) (\<lambda>state.
     thn (calc_values h lines state) (\<lambda>(values, state).
     thn (calc_subvalues h lines values state) (\<lambda>state.
     thn (calc_labels h lines values state) (\<lambda>(labels, state).
     convert_hashmap h lines values labels state))))))"

section \<open>The grid: update, construction, interaction\<close>

text \<open>
  \<open>if (o && o.type) extend(o, Grid.types[o.type])\<close> for one per-axis fragment \<open>o\<close> of
  the options. Only an object carries a \<open>type\<close> property.
\<close>

fun take_type :: "host \<Rightarrow> jsval \<Rightarrow> jsval" where
  "take_type h (Obj ps) =
     (if truthy (lookup ps ''type'')
      then Obj (extend ps [lookup (types h) (ToString h (lookup ps ''type''))])
      else Obj ps)"
| "take_type h v = v"

text \<open>\<open>if (o) extend(axis, o)\<close>\<close>

definition extend_props :: "props \<Rightarrow> jsval \<Rightarrow> props" where
  "extend_props axis v = (if truthy v then extend axis [v] else axis)"

text \<open>\<open>opts.k\<close> where \<open>opts\<close> is known to be truthy.\<close>

definition fragment :: "jsval \<Rightarrow> string \<Rightarrow> jsval" where
  "fragment opts k = (case get opts k of Inl e \<Rightarrow> Undefined | Inr v \<Rightarrow> v)"

text \<open>The merge of the options into the four configurations (the block under
  \<open>if (opts)\<close>).\<close>

definition merge_opts :: "host \<Rightarrow> grid \<Rightarrow> jsval \<Rightarrow> grid" where
  "merge_opts h g opts =
     (if truthy opts
      then g\<lparr>this_x := extend_props (this_x g) (take_type h (fragment opts ''x'')),
             this_y := extend_props (this_y g) (take_type h (fragment opts ''y'')),
             this_r := extend_props (this_r g) (take_type h (fragment opts ''r'')),
             this_a := extend_props (this_a g) (take_type h (fragment opts ''a''))\<rparr>
      else g)"

text \<open>\<open>//normalize, make sure range/offset are not off the limits\<close>, for one axis. The
  object handed to \<open>getRange\<close> is made for the call and dropped after it.\<close>

definition normalize :: "host \<Rightarrow> jsval \<Rightarrow> props \<Rightarrow> error + props" where
  "normalize h vp axis =
     (if \<not> truthy (lookup axis ''disabled'')
      then thn (call h (lookup axis ''getRange'')
                  [(''viewport'', vp), (''lines'', Obj axis)]) (\<lambda>(range, written).
           Inr (put axis ''offset''
             (clamp h (lookup axis ''offset'') (lookup axis ''min'')
                (Math_max h (js_sub h (lookup axis ''max'') range) (lookup axis ''min'')))))
      else Inr axis)"

text \<open>
  \<open>Grid.prototype.update(opts)\<close>. The notification and the render request that end it
  are addressed to the outside and leave the grid as it is.
\<close>

definition update :: "host \<Rightarrow> grid \<Rightarrow> jsval \<Rightarrow> error + grid" where
  "update h g opts =
     (let g = merge_opts h g opts in
      thn (normalize h (viewport g) (this_x g)) (\<lambda>x.
      thn (normalize h (viewport g) (this_y g)) (\<lambda>y.
      thn (calcLines h x (viewport g)) (\<lambda>(x, sx).
      thn (calcLines h y (viewport g)) (\<lambda>(y, sy).
      Inr (g\<lparr>this_x := x, this_y := y, state_x := Obj sx, state_y := Obj sy\<rparr>))))))"

text \<open>
  One axis of the constructor:
  \<open>this.k = extend({disabled: true}, Grid.prototype.k, opts.k)\<close>, then
  \<open>if (opts.k !== undefined) this.k.disabled = !opts.k\<close>.
\<close>

definition create_axis :: "props \<Rightarrow> jsval \<Rightarrow> props" where
  "create_axis proto v =
     (let axis = extend [(''disabled'', Bool True)] [Obj proto, v] in
      if v \<noteq> Undefined then put axis ''disabled'' (Bool (\<not> truthy v)) else axis)"

text \<open>\<open>//set default coords as xy\<close>\<close>

definition default_coords :: "props \<Rightarrow> props" where
  "default_coords opts =
     (if eq_null (lookup opts ''r'') \<and> eq_null (lookup opts ''a'')
         \<and> eq_null (lookup opts ''y'') \<and> eq_null (lookup opts ''x'')
      then put (put opts ''x'' (Bool True)) ''y'' (Bool True)
      else opts)"

text \<open>
  The constructor \<open>Grid(opts)\<close> for an options object \<open>opts\<close>; \<open>vp\<close> is the
  viewport that the base component has set up. Outside a browser the constructor
  returns at once, and the instance shows the prototypes' axes.
\<close>

definition Grid :: "host \<Rightarrow> jsval \<Rightarrow> props \<Rightarrow> error + grid" where
  "Grid h vp opts =
     (if \<not> isBrowser h
      then Inr \<lparr>this_x = Grid_prototype_x h, this_y = Grid_prototype_y h,
                 this_r = Grid_prototype_r h, this_a = Grid_prototype_a h,
                 viewport = vp, state_x = Undefined, state_y = Undefined\<rparr>
      else (let opts = default_coords opts in
            update h
              \<lparr>this_x = create_axis (Grid_prototype_x h) (lookup opts ''x''),
               this_y = create_axis (Grid_prototype_y h) (lookup opts ''y''),
               this_r = create_axis (Grid_prototype_r h) (lookup opts ''r''),
               this_a = create_axis (Grid_prototype_a h) (lookup opts ''a''),
               viewport = vp, state_x = Undefined, state_y = Undefined\<rparr>
              (Obj opts)))"

subsection \<open>The pan and zoom handler\<close>

text \<open>\<open>let [left, top, width, height] = this.viewport\<close>: only arrays and strings can
  be destructured this way.\<close>

fun destructure4 :: "jsval \<Rightarrow> error + jsval \<times> jsval \<times> jsval \<times> jsval" where
  "destructure4 (Arr xs) =
     Inr (arg xs 0, arg xs 1, arg xs 2, arg xs 3)"
| "destructure4 (Str s) =
     (let cs = map (\<lambda>c. Str [c]) s in Inr (arg cs 0, arg cs 1, arg cs 2, arg cs 3))"
| "destructure4 v = Inl TypeError"

text \<open>\<open>clamp(-e.dz, -height*.75, height*.75)/height\<close>\<close>

definition zoom_of :: "host \<Rightarrow> props \<Rightarrow> jsval \<Rightarrow> jsval" where
  "zoom_of h e height =
     js_div h
       (clamp h (js_neg h (lookup e ''dz''))
          (js_mul h (js_neg h height) (Number (Fin (3 / 4))))
          (js_mul h height (Number (Fin (3 / 4)))))
       height"

text \<open>
  The zoom step shared by both axes, on the fragment \<open>{offset, scale}\<close>: \<open>t\<close> is the
  focal fraction (\<open>tx\<close> or \<open>ty\<close>) and \<open>extent\<close> the viewport's width or height.
\<close>

definition zoom_axis :: "host \<Rightarrow> props \<Rightarrow> jsval \<Rightarrow> jsval \<Rightarrow> jsval \<Rightarrow> props \<Rightarrow> props" where
  "zoom_axis h axis zoom extent t frag =
     (let prevScale = lookup frag ''scale'';
          frag = put frag ''scale'' (js_mul h (lookup frag ''scale'')
                                       (js_sub h (Number (Fin 1)) zoom));
          frag = put frag ''scale'' (clamp h (lookup frag ''scale'')
                                       (lookup axis ''minScale'') (lookup axis ''maxScale''))
      in put frag ''offset''
           (js_sub h (lookup frag ''offset'')
              (js_mul h (js_mul h extent (js_sub h (lookup frag ''scale'') prevScale)) t)))"

text \<open>The x branch (\<open>if (!this.x.disabled) ...\<close>).\<close>

definition interact_x :: "host \<Rightarrow> props \<Rightarrow> props \<Rightarrow> jsval \<Rightarrow> jsval \<Rightarrow> jsval \<Rightarrow> props" where
  "interact_x h axis e zoom left width =
     (let x = [(''offset'', lookup axis ''offset''), (''scale'', lookup axis ''scale'')] in
      if \<not> truthy (lookup axis ''disabled'')
      then (let oX = js_or (lookup axis ''origin'') (Number (Fin 0));
                x = (if truthy (lookup axis ''pan'')
                     then put x ''offset''
                            (js_sub h (lookup x ''offset'')
                               (js_mul h (lookup axis ''scale'') (lookup e ''dx'')))
                     else x)
            in if \<not> strict_eq (lookup axis ''zoom'') (Bool False)
               then zoom_axis h axis zoom width
                      (js_sub h (js_div h (js_sub h (lookup e ''x'') left) width) oX) x
               else x)
      else x)"

text \<open>The y branch (\<open>if (!this.y.disabled) ...\<close>).\<close>

definition interact_y :: "host \<Rightarrow> props \<Rightarrow> props \<Rightarrow> jsval \<Rightarrow> jsval \<Rightarrow> jsval \<Rightarrow> props" where
  "interact_y h axis e zoom top' height =
     (let y = [(''offset'', lookup axis ''offset''), (''scale'', lookup axis ''scale'')] in
      if \<not> truthy (lookup axis ''disabled'')
      then (let oY = js_or (lookup axis ''origin'') (Number (Fin 0));
                y = (if truthy (lookup axis ''pan'')
                     then put y ''offset''
                            (js_add h (lookup y ''offset'')
                               (js_mul h (lookup y ''scale'') (lookup e ''dy'')))
                     else y)
            in if \<not> strict_eq (lookup axis ''zoom'') (Bool False)
               then zoom_axis h axis zoom height
                      (js_sub h oY (js_div h (js_sub h (lookup e ''y'') top') height)) y
               else y)
      else y)"

text \<open>
  The fragments \<open>{x, y}\<close> that the handler computes from an event \<open>e\<close> (an object with
  \<open>dx\<close>, \<open>dy\<close>, \<open>dz\<close>, \<open>x\<close>, \<open>y\<close>), and the handler itself, which hands them to
  \<open>update\<close>.
\<close>

definition interaction :: "host \<Rightarrow> grid \<Rightarrow> props \<Rightarrow> error + props" where
  "interaction h g e =
     thn (destructure4 (viewport g)) (\<lambda>(left, top', width, height).
     let zoom = zoom_of h e height in
     Inr [(''x'', Obj (interact_x h (this_x g) e zoom left width)),
          (''y'', Obj (interact_y h (this_y g) e zoom top' height))])"

definition panzoom :: "host \<Rightarrow> grid \<Rightarrow> props \<Rightarrow> error + grid" where
  "panzoom h g e = thn (interaction h g e) (\<lambda>opts. update h g (Obj opts))"

section \<open>A sample host and sample axes\<close>

text \<open>
  A host for concrete runs: the \<open>linear\<close> preset supplies a tick generator (closure
  0, returning the ticks 0, 1, 2 at the ordinary scale and 0, 1/2, 1 when \<open>state.scale\<close>
  has been set), \<open>alpha\<close> leaves the colour alone, \<open>10pt\<close> parses to ten units of
  4/3 pixels, and \<open>parseFloat\<close> reads the keys \<open>1\<close> and \<open>2\<close>. Closure 0 leaves the
  state alone. Three more closures are there for runs with functions of other kinds:

    \<^item> closure 1, a range function that writes to the state:
      \<^verbatim>\<open>state => { state.color = 'red'; return 4 }\<close>;
    \<^item> closure 2, a tick generator that replaces \<open>state.values\<close> on its second call:
      \<^verbatim>\<open>state => { if (state.scale === undefined) return [0, 1, 2];
      state.values = [9]; return [0, 1, 5] }\<close>;
    \<^item> closure 3, a label generator that returns a mapping:
      \<^verbatim>\<open>state => ({1: 'a', 2: 'b'})\<close>.
\<close>

definition sample_ticks :: "props \<Rightarrow> error + jsval \<times> props" where
  "sample_ticks st =
     (case lookup st ''scale'' of
        Undefined \<Rightarrow> Inr (Arr [Number (Fin 0), Number (Fin 1), Number (Fin 2)], st)
      | v \<Rightarrow> Inr (Arr [Number (Fin 0), Number (Fin (1 / 2)), Number (Fin 1)], st))"

definition colouring_range :: "props \<Rightarrow> error + jsval \<times> props" where
  "colouring_range st = Inr (Number (Fin 4), put st ''color'' (Str ''red''))"

definition writing_ticks :: "props \<Rightarrow> error + jsval \<times> props" where
  "writing_ticks st =
     (case lookup st ''scale'' of
        Undefined \<Rightarrow> Inr (Arr [Number (Fin 0), Number (Fin 1), Number (Fin 2)], st)
      | v \<Rightarrow> Inr (Arr [Number (Fin 0), Number (Fin 1), Number (Fin 5)],
                  put st ''values'' (Arr [Number (Fin 9)])))"

definition mapping_labels :: "props \<Rightarrow> error + jsval \<times> props" where
  "mapping_labels st = Inr (Obj [(''1'', Str ''a''), (''2'', Str ''b'')], st)"

definition sample_host :: host where
  "sample_host =
     \<lparr>closure = (\<lambda>f st. if f = Closure 0 1 then sample_ticks st
                       else if f = Closure 1 1 then colouring_range st
                       else if f = Closure 2 1 then writing_ticks st
                       else if f = Closure 3 1 then mapping_labels st
                       else Inr (Undefined, st)),
      types = [(''linear'', Obj [(''lines'', Fun (Closure 0 1))])],
      alpha = (\<lambda>c a. c),
      parseUnit = (\<lambda>v. Arr [Number (Fin 10), Str ''pt'']),
      toPx = (\<lambda>u. Number (Fin (4 / 3))),
      isBrowser = True,
      parseFloat = (\<lambda>s. if s = ''1'' then Fin 1 else if s = ''2'' then Fin 2 else NaN),
      stringToNumber = (\<lambda>s. NaN),
      numberToString = (\<lambda>n. ''''),
      objectToString = (\<lambda>v. ''[object Object]'')\<rparr>"

definition sample_viewport :: jsval where
  "sample_viewport = Arr [Number (Fin 0), Number (Fin 0), Number (Fin 4), Number (Fin 4)]"

definition sample_x :: props where
  "sample_x = create_axis (Grid_prototype_x sample_host) (Bool True)"

definition sample_y :: props where
  "sample_y = create_axis (Grid_prototype_y sample_host) (Bool True)"

section \<open>Configurations on which calcLines returns\<close>

text \<open>
  A tick generator: a function that returns an array (of a length an array can have)
  for every state it is called with.
\<close>

definition tick_generator :: "host \<Rightarrow> jsval \<Rightarrow> bool" where
  "tick_generator h f =
     (is_function f
      \<and> (\<forall>st. \<exists>vs st'. call h f st = Inr (Arr vs, st') \<and> length vs < 2 ^ 32))"

text \<open>A range function: a function that returns for every state it is called with.\<close>

definition range_function :: "host \<Rightarrow> jsval \<Rightarrow> bool" where
  "range_function h f = (is_function f \<and> (\<forall>st. \<exists>r st'. call h f st = Inr (r, st')))"

text \<open>
  A plain axis: the range comes from one of the two built-in \<open>getRange\<close> functions
  (which read \<open>vp[2]\<close> or \<open>vp[3]\<close>) or from a range function, the ticks from a
  generator or an explicit array, and padding, sublines and labels are given as values,
  not as functions.
\<close>

definition plain_axis :: "host \<Rightarrow> jsval \<Rightarrow> props \<Rightarrow> bool" where
  "plain_axis h vp lines =
     (vp \<noteq> Undefined \<and> vp \<noteq> Null
      \<and> (lookup lines ''getRange'' = Fun X_getRange \<or> lookup lines ''getRange'' = Fun Y_getRange
           \<or> range_function h (lookup lines ''getRange''))
      \<and> \<not> is_function (lookup lines ''padding'')
      \<and> (is_number (lookup lines ''fontSize'')
           \<or> is_array (parseUnit h (lookup lines ''fontSize'')))
      \<and> (tick_generator h (lookup lines ''lines'')
           \<or> (\<exists>vs. lookup lines ''lines'' = Arr vs \<and> length vs < 2 ^ 32))
      \<and> \<not> is_function (lookup lines ''sublines'')
      \<and> \<not> is_function (lookup lines ''labels''))"

text \<open>The x axis once \<open>{lines: [1, 2], labels: ['a']}\<close> has been merged into it.\<close>

definition sample_labelled_x :: props where
  "sample_labelled_x =
     extend sample_x [Obj [(''lines'', Arr [Number (Fin 1), Number (Fin 2)]),
                           (''labels'', Arr [Str ''a''])]]"

text \<open>The grid that \<open>new Grid({})\<close> constructs on the sample host.\<close>

definition sample_grid :: grid where
  "sample_grid = projr (Grid sample_host sample_viewport [])"

text \<open>Constructor options with a disabled x axis that has explicit ticks:
  \<open>{x: {disabled: true, lines: [1, 2]}}\<close>.\<close>

definition disabled_x_opts :: props where
  "disabled_x_opts =
     [(''x'', Obj [(''disabled'', Bool True),
                   (''lines'', Arr [Number (Fin 1), Number (Fin 2)])])]"

text \<open>The configuration of the axis with the given name (x, y, r or a).\<close>

definition axis_of :: "grid \<Rightarrow> string \<Rightarrow> props" where
  "axis_of g name =
     (if name = ''x'' then this_x g else if name = ''y'' then this_y g
      else if name = ''r'' then this_r g else this_a g)"

text \<open>Update options that name the \<open>linear\<close> preset and give explicit ticks as well:
  \<open>{x: {type: 'linear', lines: [5]}}\<close>.\<close>

definition preset_opts :: jsval where
  "preset_opts =
     Obj [(''x'', Obj [(''type'', Str ''linear''), (''lines'', Arr [Number (Fin 5)])])]"

section \<open>Ranges of numbers used in the statements\<close>

text \<open>
  A moderate number: finite and small enough that the sums, products and quotients
  formed by the interaction handler stay far from overflow.
\<close>

definition moderate :: "real \<Rightarrow> bool" where
  "moderate r = (\<bar>r\<bar> \<le> 2 ^ 255)"

text \<open>
  An axis that takes part in panning: enabled, with \<open>pan\<close> switched on, a moderate
  offset \<open>off\<close> and scale \<open>s\<close>, the scale within its limits, and the origin in
  \<open>[0, 1]\<close>.
\<close>

definition pan_axis :: "props \<Rightarrow> real \<Rightarrow> real \<Rightarrow> bool" where
  "pan_axis axis off s =
     (\<not> truthy (lookup axis ''disabled'') \<and> truthy (lookup axis ''pan'')
      \<and> lookup axis ''offset'' = Number (Fin off) \<and> lookup axis ''scale'' = Number (Fin s)
      \<and> moderate off \<and> moderate s
      \<and> (\<exists>mn mx. lookup axis ''minScale'' = Number mn \<and> lookup axis ''maxScale'' = Number mx
                  \<and> num_le mn (Fin s) \<and> num_le (Fin s) mx)
      \<and> (\<exists>og. lookup axis ''origin'' = Number (Fin og) \<and> 0 \<le> og \<and> og \<le> 1))"

text \<open>A pointer drag by \<open>(dx, dy)\<close>: no wheel movement, moderate coordinates.\<close>

definition drag_event :: "props \<Rightarrow> real \<Rightarrow> real \<Rightarrow> bool" where
  "drag_event e dx dy =
     (lookup e ''dx'' = Number (Fin dx) \<and> lookup e ''dy'' = Number (Fin dy)
      \<and> lookup e ''dz'' = Number (Fin 0) \<and> moderate dx \<and> moderate dy
      \<and> (\<exists>px py. lookup e ''x'' = Number (Fin px) \<and> lookup e ''y'' = Number (Fin py)
                  \<and> moderate px \<and> moderate py))"

text \<open>A viewport \<open>[left, top, width, height]\<close> of moderate numbers, at least one pixel
  wide and high.\<close>

definition pixel_viewport :: "jsval \<Rightarrow> bool" where
  "pixel_viewport vp =
     (\<exists>l t w hh. vp = Arr [Number (Fin l), Number (Fin t), Number (Fin w), Number (Fin hh)]
        \<and> moderate l \<and> moderate t \<and> moderate w \<and> moderate hh \<and> 1 \<le> w \<and> 1 \<le> hh)"

text \<open>A drag of the sample grid by one pixel in each direction, at the pointer
  position (2, 2).\<close>

definition sample_drag :: props where
  "sample_drag =
     [(''dx'', Number (Fin 1)), (''dy'', Number (Fin 1)), (''dz'', Number (Fin 0)),
      (''x'', Number (Fin 2)), (''y'', Number (Fin 2))]"

section \<open>Limits of scale and offset\<close>

text \<open>A number that is not NaN; a finite number in the range of a double; two numbers in
  order; a number between two others. None of these holds when NaN or a value that is
  not a number is involved.\<close>

fun proper_number :: "jsval \<Rightarrow> bool" where
  "proper_number (Number n) = (n \<noteq> NaN)"
| "proper_number v = False"

fun finite_number :: "jsval \<Rightarrow> bool" where
  "finite_number (Number (Fin r)) = (\<bar>r\<bar> \<le> MAX_VALUE)"
| "finite_number v = False"

fun ordered_numbers :: "jsval \<Rightarrow> jsval \<Rightarrow> bool" where
  "ordered_numbers (Number a) (Number b) = num_le a b"
| "ordered_numbers a b = False"

fun number_between :: "jsval \<Rightarrow> jsval \<Rightarrow> jsval \<Rightarrow> bool" where
  "number_between (Number lo) (Number v) (Number hi) = (num_le lo v \<and> num_le v hi)"
| "number_between lo v hi = False"

text \<open>An axis that the handler zooms: enabled, \<open>zoom\<close> not \<open>false\<close>, its scale a number and
  its scale limits in order.\<close>

definition zoomable :: "props \<Rightarrow> bool" where
  "zoomable axis =
     (\<not> truthy (lookup axis ''disabled'') \<and> \<not> strict_eq (lookup axis ''zoom'') (Bool False)
      \<and> proper_number (lookup axis ''scale'')
      \<and> ordered_numbers (lookup axis ''minScale'') (lookup axis ''maxScale''))"

text \<open>\<open>minScale \<le> scale \<le> maxScale\<close> for a configuration, and
  \<open>min \<le> state.offset \<le> max - state.range\<close> for a configuration and its state.\<close>

definition scale_in_limits :: "props \<Rightarrow> bool" where
  "scale_in_limits axis =
     number_between (lookup axis ''minScale'') (lookup axis ''scale'') (lookup axis ''maxScale'')"

definition offset_in_limits :: "host \<Rightarrow> props \<Rightarrow> props \<Rightarrow> bool" where
  "offset_in_limits h lines state =
     number_between (lookup lines ''min'') (lookup state ''offset'')
       (js_sub h (lookup lines ''max'') (lookup state ''range''))"

text \<open>
  The window that calcLines clamps the offset to is not empty: the range is finite, the
  configured offset, origin, \<open>min\<close> and \<open>max\<close> are numbers, and the two limits handed
  to \<open>clamp\<close> are in order.
\<close>

definition open_window :: "host \<Rightarrow> props \<Rightarrow> props \<Rightarrow> bool" where
  "open_window h lines state =
     (finite_number (lookup state ''range'')
      \<and> proper_number (lookup lines ''offset'') \<and> proper_number (lookup lines ''origin'')
      \<and> is_number (lookup lines ''min'') \<and> is_number (lookup lines ''max'')
      \<and> ordered_numbers
           (Math_max h (lookup lines ''min'') (Number (fl (- MAX_VALUE + 1))))
           (js_sub h (Math_min h (lookup lines ''max'') (Number (Fin MAX_VALUE)))
              (lookup state ''range'')))"

text \<open>A wheel event over the sample viewport: one notch (\<open>dz = -1\<close>) at the pointer
  position (2, 1), a quarter of the height below the top.\<close>

definition sample_wheel :: props where
  "sample_wheel =
     [(''dx'', Number (Fin 0)), (''dy'', Number (Fin 0)), (''dz'', Number (Fin (- 1))),
      (''x'', Number (Fin 2)), (''y'', Number (Fin 1))]"

text \<open>Update options with a scale below \<open>minScale\<close>, \<open>{x: {scale: 0}}\<close>, and with the
  largest scale that \<open>maxScale\<close> admits, \<open>{x: {scale: Number.MAX_VALUE}}\<close>.\<close>

definition zero_scale_opts :: jsval where
  "zero_scale_opts = Obj [(''x'', Obj [(''scale'', Number (Fin 0))])]"

definition max_scale_opts :: jsval where
  "max_scale_opts = Obj [(''x'', Obj [(''scale'', Number (Fin MAX_VALUE))])]"

text \<open>The grid that \<open>new Grid({x: true, y: {origin: 0}})\<close> constructs on the sample host:
  the y axis has its origin at the lower edge.\<close>

definition low_origin_opts :: props where
  "low_origin_opts = [(''x'', Bool True), (''y'', Obj [(''origin'', Number (Fin 0))])]"

definition low_origin_grid :: grid where
  "low_origin_grid = projr (Grid sample_host sample_viewport low_origin_opts)"

section \<open>Sample axes with functions of other kinds\<close>

text \<open>The x axis once \<open>{getRange: f}\<close> has been merged into it, \<open>f\<close> being closure 1, the
  range function that writes \<open>state.color\<close>.\<close>

definition colouring_x :: props where
  "colouring_x = extend sample_x [Obj [(''getRange'', Fun (Closure 1 1))]]"

text \<open>The x axis once \<open>{lines: f}\<close> has been merged into it, \<open>f\<close> being closure 2, the tick
  generator that replaces \<open>state.values\<close> on its second call.\<close>

definition writing_x :: props where
  "writing_x = extend sample_x [Obj [(''lines'', Fun (Closure 2 1))]]"

text \<open>The x axis once \<open>{lines: [5], labels: f}\<close> has been merged into it, \<open>f\<close> being
  closure 3, the label generator that returns the mapping \<open>{1: 'a', 2: 'b'}\<close>.\<close>

definition mapped_x :: props where
  "mapped_x = extend sample_x [Obj [(''lines'', Arr [Number (Fin 5)]),
                                    (''labels'', Fun (Closure 3 1))]]"

text \<open>A function that returns a mapping (a plain object) whenever it returns.\<close>

definition mapping_function :: "host \<Rightarrow> jsval \<Rightarrow> bool" where
  "mapping_function h f = (\<forall>st r st'. call h f st = Inr (r, st') \<longrightarrow> isObj r)"

section \<open>Properties of objects\<close>

lemma thn_Inr: "thn (Inr v) f = f v"
  by (simp add: thn_def)

lemma thn_Inl: "thn (Inl e) f = Inl e"
  by (simp add: thn_def)

lemma thn_eq_Inr: "thn m f = Inr r \<longleftrightarrow> (\<exists>v. m = Inr v \<and> f v = Inr r)"
  by (cases m) (simp_all add: thn_def)

lemma map_of_put: "map_of (put ps k v) = (map_of ps)(k \<mapsto> v)"
  by (induction ps) (auto simp: fun_eq_iff)

lemma lookup_put: "lookup (put ps k v) k' = (if k' = k then v else lookup ps k')"
  by (simp add: lookup_def map_of_put)

lemma lookup_Nil: "lookup [] k = Undefined"
  by (simp add: lookup_def)

lemma lookup_Cons: "lookup ((k', v) # ps) k = (if k = k' then v else lookup ps k)"
  by (simp add: lookup_def)

lemma keys_put: "fst ` set (put ps k v) = insert k (fst ` set ps)"
proof (induction ps)
  case Nil
  then show ?case by simp
next
  case (Cons p ps)
  obtain k' v' where p: "p = (k', v')" by (cases p)
  show ?case
  proof (cases "k' = k")
    case True
    then show ?thesis by (simp add: p)
  next
    case False
    then show ?thesis by (simp add: p Cons.IH insert_commute)
  qed
qed

lemma distinct_put: "distinct (map fst ps) \<Longrightarrow> distinct (map fst (put ps k v))"
proof (induction ps)
  case Nil
  then show ?case by simp
next
  case (Cons p ps)
  have "fst ` set (put ps k v) = insert k (fst ` set ps)"
    by (rule keys_put)
  with Cons show ?case by (cases p) auto
qed

lemma map_of_foldl_put:
  "map_of (foldl (\<lambda>t (k, v). put t k v) t ps) = map_of t ++ map_of (rev ps)"
proof (induction ps arbitrary: t)
  case Nil
  then show ?case by simp
next
  case (Cons p ps)
  obtain k v where p: "p = (k, v)" by (cases p)
  show ?case
    by (simp add: Cons.IH p map_of_put fun_eq_iff map_add_def split: option.splits)
qed

lemma distinct_foldl_put:
  "distinct (map fst t) \<Longrightarrow> distinct (map fst (foldl (\<lambda>t (k, v). put t k v) t ps))"
  by (induction ps arbitrary: t) (auto simp: distinct_put)

lemma distinct_assign: "distinct (map fst t) \<Longrightarrow> distinct (map fst (assign t s))"
  by (simp add: assign_def distinct_foldl_put)

lemma distinct_extend: "distinct (map fst t) \<Longrightarrow> distinct (map fst (extend t ss))"
  by (induction ss arbitrary: t) (auto simp: extend_def distinct_assign)

lemma map_of_rev_distinct: "distinct (map fst ps) \<Longrightarrow> map_of (rev ps) = map_of ps"
proof -
  assume d: "distinct (map fst ps)"
  then have "distinct (map fst (rev ps))"
    by (simp add: rev_map[symmetric])
  moreover have "set (rev ps) = set ps"
    by simp
  ultimately show ?thesis
    using d by (simp add: map_of_inject_set)
qed

text \<open>What \<open>assign\<close> stores: the source's value for a key of the source, the target's otherwise.\<close>

lemma lookup_assign:
  "lookup (assign t s) k =
     (case map_of (rev (own_props s)) k of Some v \<Rightarrow> v | None \<Rightarrow> lookup t k)"
  by (simp add: lookup_def assign_def map_of_foldl_put map_add_def split: option.splits)

lemma lookup_assign_Obj:
  "distinct (map fst ps) \<Longrightarrow>
   lookup (assign t (Obj ps)) k =
     (case map_of ps k of Some v \<Rightarrow> v | None \<Rightarrow> lookup t k)"
  by (simp add: lookup_assign map_of_rev_distinct)

lemma extend_Nil: "extend t [] = t"
  by (simp add: extend_def)

lemma extend_Cons: "extend t (s # ss) = extend (assign t s) ss"
  by (simp add: extend_def)

section \<open>The prototypes and the constructed axes\<close>

lemma distinct_defaults_literal: "distinct (map fst defaults_literal)"
  by (simp add: defaults_literal_def)

lemma distinct_defaults: "distinct (map fst (defaults h))"
  by (simp add: defaults_def distinct_extend distinct_defaults_literal)

lemma lookup_defaults:
  "lookup (defaults h) k =
     (case map_of (rev (own_props (lookup (types h) ''linear''))) k of
        Some v \<Rightarrow> v | None \<Rightarrow> lookup defaults_literal k)"
  by (simp add: defaults_def extend_Cons extend_Nil lookup_assign)

lemma lookup_lit_None: "map_of ps k = None \<Longrightarrow> lookup ps k = Undefined"
  by (simp add: lookup_def)

lemma lookup_case: "(case map_of ps k of Some v \<Rightarrow> v | None \<Rightarrow> Undefined) = lookup ps k"
  by (simp add: lookup_def split: option.splits)

lemma lookup_extend_empty:
  assumes "distinct (map fst a)" and "distinct (map fst b)"
  shows "lookup (extend [] [Obj a, Obj b]) k =
           (case map_of b k of Some v \<Rightarrow> v | None \<Rightarrow> lookup a k)"
proof -
  have "lookup (assign [] (Obj a)) k = lookup a k"
    using assms(1) by (subst lookup_assign_Obj) (simp_all add: lookup_def split: option.splits)
  then show ?thesis
    using assms(2) by (simp add: extend_Cons extend_Nil lookup_assign_Obj split: option.splits)
qed

lemma lookup_proto_x:
  "lookup (Grid_prototype_x h) k =
     (if k = ''orientation'' then Str ''x''
      else if k = ''getCoords'' then Fun X_getCoords
      else if k = ''getRange'' then Fun X_getRange
      else if k = ''getRatio'' then Fun X_getRatio
      else lookup (defaults h) k)"
  by (simp add: Grid_prototype_x_def lookup_extend_empty distinct_defaults)

lemma lookup_proto_y:
  "lookup (Grid_prototype_y h) k =
     (if k = ''orientation'' then Str ''y''
      else if k = ''getCoords'' then Fun Y_getCoords
      else if k = ''getRange'' then Fun Y_getRange
      else if k = ''getRatio'' then Fun Y_getRatio
      else lookup (defaults h) k)"
  by (simp add: Grid_prototype_y_def lookup_extend_empty distinct_defaults)

lemma lookup_proto_r:
  "lookup (Grid_prototype_r h) k =
     (if k = ''orientation'' then Str ''r'' else lookup (defaults h) k)"
  by (simp add: Grid_prototype_r_def lookup_extend_empty distinct_defaults)

lemma lookup_proto_a:
  "lookup (Grid_prototype_a h) k =
     (if k = ''orientation'' then Str ''a'' else lookup (defaults h) k)"
  by (simp add: Grid_prototype_a_def lookup_extend_empty distinct_defaults)

lemma distinct_protos:
  "distinct (map fst (Grid_prototype_x h))" "distinct (map fst (Grid_prototype_y h))"
  "distinct (map fst (Grid_prototype_r h))" "distinct (map fst (Grid_prototype_a h))"
  by (simp_all add: Grid_prototype_x_def Grid_prototype_y_def Grid_prototype_r_def
        Grid_prototype_a_def distinct_extend)

text \<open>What the constructor stores for one axis.\<close>

lemma lookup_create_axis:
  assumes "distinct (map fst proto)"
  shows "lookup (create_axis proto v) k =
     (if k = ''disabled''
      then (if v \<noteq> Undefined then Bool (\<not> truthy v)
            else case map_of proto ''disabled'' of Some x \<Rightarrow> x | None \<Rightarrow> Bool True)
      else case map_of (rev (own_props v)) k of
             Some x \<Rightarrow> x
           | None \<Rightarrow> lookup proto k)"
proof -
  have *: "lookup (extend [(''disabled'', Bool True)] [Obj proto, v]) k =
          (case map_of (rev (own_props v)) k of
             Some x \<Rightarrow> x
           | None \<Rightarrow> (case map_of proto k of
                        Some x \<Rightarrow> x
                      | None \<Rightarrow> if k = ''disabled'' then Bool True else Undefined))"
    unfolding extend_Cons extend_Nil
    by (subst lookup_assign, subst lookup_assign_Obj[OF assms])
       (simp add: lookup_def split: option.splits)
  show ?thesis
  proof (cases "v \<noteq> Undefined \<and> k = ''disabled''")
    case True
    then show ?thesis by (simp add: create_axis_def Let_def lookup_put)
  next
    case False
    then have "lookup (create_axis proto v) k =
                 lookup (extend [(''disabled'', Bool True)] [Obj proto, v]) k"
      by (auto simp: create_axis_def Let_def lookup_put)
    with * False show ?thesis
      by (auto simp: lookup_def split: option.splits)
  qed
qed

lemma map_of_assign: "map_of (assign t s) = map_of t ++ map_of (rev (own_props s))"
  by (simp add: assign_def map_of_foldl_put)

lemma map_of_defaults_disabled:
  "map_of (defaults h) ''disabled'' =
     map_of (rev (own_props (lookup (types h) ''linear''))) ''disabled''"
  by (simp add: defaults_def extend_Cons extend_Nil map_of_assign map_add_def
        defaults_literal_def split: option.splits)

lemma map_of_proto_disabled:
  "map_of (Grid_prototype_x h) ''disabled'' = map_of (defaults h) ''disabled''"
  "map_of (Grid_prototype_y h) ''disabled'' = map_of (defaults h) ''disabled''"
  "map_of (Grid_prototype_r h) ''disabled'' = map_of (defaults h) ''disabled''"
  "map_of (Grid_prototype_a h) ''disabled'' = map_of (defaults h) ''disabled''"
  by (simp_all add: Grid_prototype_x_def Grid_prototype_y_def Grid_prototype_r_def
        Grid_prototype_a_def extend_Cons extend_Nil map_of_assign map_add_def
        map_of_rev_distinct distinct_defaults split: option.splits)

section \<open>What each step of calcLines writes\<close>

lemma leaves_stateD:
  assumes "leaves_state h f" and "call h f st = Inr (r, st')"
  shows "st' = st"
  using assms unfolding leaves_state_def by blast

lemma leaves_state_value: "\<not> is_function f \<Longrightarrow> leaves_state h f"
  by (cases f) (simp_all add: leaves_state_def)

lemma leaves_state_getRange:
  "leaves_state h (Fun X_getRange)" "leaves_state h (Fun Y_getRange)"
  by (auto simp: leaves_state_def thn_eq_Inr)

lemma calc_offset_lookup:
  assumes "calc_offset h lines vp = Inr st"
  shows "\<exists>range st0. call h (lookup lines ''getRange'')
             [(''lines'', Obj lines), (''viewport'', vp), (''grid'', Host ''grid'')] = Inr (range, st0)
         \<and> (\<forall>k. lookup st k =
           (if k = ''offset'' then
              clamp h
                (js_sub h (lookup lines ''offset'')
                   (js_mul h range (clamp h (lookup lines ''origin'') (Number (Fin 0)) (Number (Fin 1)))))
                (Math_max h (lookup lines ''min'') (Number (fl (- MAX_VALUE + 1))))
                (js_sub h (Math_min h (lookup lines ''max'') (Number (Fin MAX_VALUE))) range)
            else if k = ''range'' then range
            else lookup st0 k))"
  using assms
  by (auto simp: calc_offset_def Let_def thn_eq_Inr lookup_put)

lemma lookup_initial_state:
  "lookup [(''lines'', Obj lines), (''viewport'', vp), (''grid'', Host ''grid'')] k =
     (if k = ''lines'' then Obj lines else if k = ''viewport'' then vp
      else if k = ''grid'' then Host ''grid'' else Undefined)"
  by (simp add: lookup_Cons lookup_Nil)

lemma calc_style_lookup:
  "lookup (calc_style h lines st) k =
     (if k = ''subtick'' then lookup lines ''subtick''
      else if k = ''tick'' then lookup lines ''tick''
      else if k = ''sublineColor'' then blend h lines (lookup lines ''sublineColor'')
      else if k = ''lineColor'' then blend h lines (lookup lines ''lineColor'')
      else if k = ''labelColor'' then lookup st ''color''
      else if k = ''tickAlign'' then lookup lines ''tickAlign''
      else if k = ''lineWidth'' then lookup lines ''lineWidth''
      else if k = ''axisWidth'' then js_or (lookup lines ''axisWidth'') (lookup lines ''lineWidth'')
      else if k = ''axisColor'' then blend h lines (lookup lines ''axisColor'')
      else lookup st k)"
  by (simp add: calc_style_def Let_def lookup_put)

text \<open>Each of the following steps hands the state to at most one function; \<open>st0\<close> is
  the state as that function left it.\<close>

lemma is_number_not_function: "is_number v \<Longrightarrow> \<not> is_function v"
  by (cases v) simp_all

lemma calc_padding_cases:
  assumes "calc_padding h lines st = Inr st'"
  obtains p st0 where "st' = put st0 ''padding'' p"
    "if is_function (lookup lines ''padding'')
     then call h (lookup lines ''padding'') st = Inr (p, st0)
     else st0 = st"
proof (cases "is_function (lookup lines ''padding'')")
  case True
  then have "\<not> is_number (lookup lines ''padding'')"
    using is_number_not_function by blast
  with True assms obtain p st0 where
    "call h (lookup lines ''padding'') st = Inr (p, st0)" "st' = put st0 ''padding'' p"
    by (auto simp: calc_padding_def thn_eq_Inr)
  with True show ?thesis by (intro that[of st0 p]) simp_all
next
  case False
  with assms have "\<exists>p. st' = put st ''padding'' p"
    by (auto simp: calc_padding_def split: if_splits)
  then obtain p where "st' = put st ''padding'' p" by blast
  with False show ?thesis by (intro that[of st p]) simp_all
qed

lemma calc_padding_lookup:
  assumes "calc_padding h lines st = Inr st'" and "k \<noteq> ''padding''"
    and "leaves_state h (lookup lines ''padding'')"
  shows "lookup st' k = lookup st k"
proof -
  from assms(1) obtain p st0 where
    a: "st' = put st0 ''padding'' p" and
    b: "if is_function (lookup lines ''padding'')
        then call h (lookup lines ''padding'') st = Inr (p, st0)
        else st0 = st"
    by (rule calc_padding_cases)
  from b leaves_stateD[OF assms(3)] have "st0 = st"
    by (auto split: if_splits)
  with a assms(2) show ?thesis by (simp add: lookup_put)
qed

lemma calc_font_lookup:
  assumes "calc_font h lines st = Inr st'" and "k \<noteq> ''fontSize''" and "k \<noteq> ''fontFamily''"
  shows "lookup st' k = lookup st k"
  using assms
  by (auto simp: calc_font_def Let_def thn_eq_Inr lookup_put split: if_splits)

lemma calc_values_cases:
  assumes "calc_values h lines st = Inr (values, st')"
  obtains st0 where "st' = put st0 ''values'' values"
    "if is_function (lookup lines ''lines'')
     then call h (lookup lines ''lines'') st = Inr (values, st0)
     else values = js_or (lookup lines ''lines'') (Arr []) \<and> st0 = st"
proof (cases "is_function (lookup lines ''lines'')")
  case True
  with assms obtain st0 where
    "call h (lookup lines ''lines'') st = Inr (values, st0)" "st' = put st0 ''values'' values"
    by (auto simp: calc_values_def thn_eq_Inr)
  with True show ?thesis by (intro that[of st0]) simp_all
next
  case False
  with assms have "values = js_or (lookup lines ''lines'') (Arr [])" "st' = put st ''values'' values"
    by (auto simp: calc_values_def thn_Inr)
  with False show ?thesis by (intro that[of st]) simp_all
qed

lemma array_filter_found_Inr:
  assumes "array_filter_found h values finer = Inr subvalues"
  obtains fs kept where "finer = Arr fs" "filter_found h values fs = Inr kept"
    "subvalues = Arr kept"
  using assms by (cases finer) (auto simp: thn_eq_Inr)

lemma calc_subvalues_cases:
  assumes "calc_subvalues h lines values st = Inr st'"
  obtains subvalues st0 where "st' = put st0 ''subvalues'' subvalues"
    "if is_function (lookup lines ''sublines'')
     then call h (lookup lines ''sublines'') st = Inr (subvalues, st0)
     else if (strict_eq (lookup lines ''sublines'') (Bool True)
              \<or> strict_eq (lookup lines ''sublines'') Undefined)
             \<and> is_function (lookup lines ''lines'')
     then (\<exists>fs kept st1.
             call h (lookup lines ''lines'')
               (put st ''scale'' (js_div h (lookup st ''scale'') (Number (Fin 3))))
               = Inr (Arr fs, st1)
             \<and> filter_found h values fs = Inr kept \<and> subvalues = Arr kept
             \<and> st0 = put st1 ''scale'' (lookup st ''scale''))
     else subvalues = lookup lines ''sublines'' \<and> st0 = st"
proof (cases "is_function (lookup lines ''sublines'')")
  case True
  with assms that show ?thesis
    by (auto simp: calc_subvalues_def thn_eq_Inr)
next
  case nf: False
  show ?thesis
  proof (cases "(strict_eq (lookup lines ''sublines'') (Bool True)
              \<or> strict_eq (lookup lines ''sublines'') Undefined)
             \<and> is_function (lookup lines ''lines'')")
    case True
    with nf assms obtain finer st1 subvalues where
      c: "call h (lookup lines ''lines'')
            (put st ''scale'' (js_div h (lookup st ''scale'') (Number (Fin 3)))) = Inr (finer, st1)"
      and f: "array_filter_found h values finer = Inr subvalues"
      and r: "st' = put (put st1 ''scale'' (lookup st ''scale'')) ''subvalues'' subvalues"
      by (auto simp: calc_subvalues_def Let_def thn_eq_Inr)
    from f obtain fs kept where "finer = Arr fs" "filter_found h values fs = Inr kept"
      "subvalues = Arr kept"
      by (rule array_filter_found_Inr)
    with c r nf True show ?thesis
      by (intro that[of "put st1 ''scale'' (lookup st ''scale'')" subvalues]) auto
  next
    case False
    with nf assms show ?thesis
      by (intro that[of st "lookup lines ''sublines''"]) (auto simp: calc_subvalues_def)
  qed
qed

lemma calc_labels_cases:
  assumes "calc_labels h lines values st = Inr (labels, st')"
  obtains st0 where "st' = put st0 ''labels'' labels"
    "if strict_eq (lookup lines ''labels'') (Bool True) then labels = values \<and> st0 = st
     else if is_function (lookup lines ''labels'')
     then call h (lookup lines ''labels'') st = Inr (labels, st0)
     else if is_array (lookup lines ''labels'') then labels = lookup lines ''labels'' \<and> st0 = st
     else thn (get values ''length'') Array_fill_null = Inr labels \<and> st0 = st"
proof -
  consider (same) "strict_eq (lookup lines ''labels'') (Bool True)"
    | (func) "\<not> strict_eq (lookup lines ''labels'') (Bool True)"
        "is_function (lookup lines ''labels'')"
    | (array) "\<not> strict_eq (lookup lines ''labels'') (Bool True)"
        "\<not> is_function (lookup lines ''labels'')" "is_array (lookup lines ''labels'')"
    | (other) "\<not> strict_eq (lookup lines ''labels'') (Bool True)"
        "\<not> is_function (lookup lines ''labels'')" "\<not> is_array (lookup lines ''labels'')"
    by blast
  then show ?thesis
  proof cases
    case same
    with assms have "labels = values" "st' = put st ''labels'' labels"
      by (auto simp: calc_labels_def thn_Inr)
    with same show ?thesis by (intro that[of st]) simp_all
  next
    case func
    with assms obtain st0 where
      "call h (lookup lines ''labels'') st = Inr (labels, st0)" "st' = put st0 ''labels'' labels"
      by (auto simp: calc_labels_def thn_eq_Inr)
    with func show ?thesis by (intro that[of st0]) simp_all
  next
    case array
    with assms have "labels = lookup lines ''labels''" "st' = put st ''labels'' labels"
      by (auto simp: calc_labels_def thn_Inr)
    with array show ?thesis by (intro that[of st]) simp_all
  next
    case other
    with assms have
      "thn (thn (get values ''length'') (\<lambda>n. thn (Array_fill_null n) (\<lambda>nulls. Inr (nulls, st))))
         (\<lambda>(labels, state). Inr (labels, put state ''labels'' labels)) = Inr (labels, st')"
      by (simp add: calc_labels_def)
    then have "thn (get values ''length'') Array_fill_null = Inr labels"
      "st' = put st ''labels'' labels"
      by (auto simp: thn_eq_Inr)
    with other show ?thesis by (intro that[of st]) simp_all
  qed
qed

text \<open>The steps of a run of calcLines that returns.\<close>

lemma calcLines_steps:
  assumes "calcLines h lines vp = Inr (lines', state)"
  obtains s1 s2 s3 s4 s5 s6 V L where
    "calc_offset h lines vp = Inr s1"
    "calc_padding h lines (calc_style h lines s1) = Inr s2"
    "calc_font h lines s2 = Inr s3"
    "calc_values h lines s3 = Inr (V, s4)"
    "calc_subvalues h lines V s4 = Inr s5"
    "calc_labels h lines V s5 = Inr (L, s6)"
    "convert_hashmap h lines V L s6 = Inr (lines', state)"
proof -
  from assms obtain s1 where
    a1: "calc_offset h lines vp = Inr s1" and
    r1: "thn (calc_padding h lines (calc_style h lines s1)) (\<lambda>state.
         thn (calc_font h lines state) (\<lambda>state.
         thn (calc_values h lines state) (\<lambda>(values, state).
         thn (calc_subvalues h lines values state) (\<lambda>state.
         thn (calc_labels h lines values state) (\<lambda>(labels, state).
         convert_hashmap h lines values labels state))))) = Inr (lines', state)"
    unfolding calcLines_def thn_eq_Inr by blast
  from r1 obtain s2 where
    a2: "calc_padding h lines (calc_style h lines s1) = Inr s2" and
    r2: "thn (calc_font h lines s2) (\<lambda>state.
         thn (calc_values h lines state) (\<lambda>(values, state).
         thn (calc_subvalues h lines values state) (\<lambda>state.
         thn (calc_labels h lines values state) (\<lambda>(labels, state).
         convert_hashmap h lines values labels state)))) = Inr (lines', state)"
    unfolding thn_eq_Inr by blast
  from r2 obtain s3 where
    a3: "calc_font h lines s2 = Inr s3" and
    r3: "thn (calc_values h lines s3) (\<lambda>(values, state).
         thn (calc_subvalues h lines values state) (\<lambda>state.
         thn (calc_labels h lines values state) (\<lambda>(labels, state).
         convert_hashmap h lines values labels state))) = Inr (lines', state)"
    unfolding thn_eq_Inr by blast
  from r3 obtain V s4 where
    a4: "calc_values h lines s3 = Inr (V, s4)" and
    r4: "thn (calc_subvalues h lines V s4) (\<lambda>state.
         thn (calc_labels h lines V state) (\<lambda>(labels, state).
         convert_hashmap h lines V labels state)) = Inr (lines', state)"
    unfolding thn_eq_Inr[of "calc_values h lines s3"] by auto
  from r4 obtain s5 where
    a5: "calc_subvalues h lines V s4 = Inr s5" and
    r5: "thn (calc_labels h lines V s5) (\<lambda>(labels, state).
         convert_hashmap h lines V labels state) = Inr (lines', state)"
    unfolding thn_eq_Inr[of "calc_subvalues h lines V s4"] by blast
  from r5 obtain L s6 where
    a6: "calc_labels h lines V s5 = Inr (L, s6)" and
    a7: "convert_hashmap h lines V L s6 = Inr (lines', state)"
    unfolding thn_eq_Inr[of "calc_labels h lines V s5"] by auto
  show thesis by (rule that[OF a1 a2 a3 a4 a5 a6 a7])
qed

section \<open>calcLines returns on a plain axis\<close>

lemma filter_found_Arr:
  "filter_found h (Arr xs) vs = Inr (filter (\<lambda>v. list_ex (\<lambda>x. strict_eq x v) xs) vs)"
  by (induction vs) (simp_all add: thn_Inr)

lemma Array_fill_null_length:
  "n < 2 ^ 32 \<Longrightarrow> Array_fill_null (Number (Fin (real n))) = Inr (Arr (replicate n Null))"
proof -
  assume "n < 2 ^ 32"
  then have "real n < 2 ^ 32"
    by (metis of_nat_less_iff of_nat_numeral of_nat_power)
  then show ?thesis by simp
qed

lemma getRange_total:
  assumes "vp \<noteq> Undefined" "vp \<noteq> Null"
  shows "\<exists>extent. get_index vp i = Inr extent \<and>
           getRange h i (Obj [(''lines'', Obj lines), (''viewport'', vp), (''grid'', g)])
             = Inr (js_mul h extent (lookup lines ''scale''))"
  using assms by (cases vp) (simp_all add: getRange_def thn_Inr lookup_Cons)

lemma calc_offset_total:
  assumes "plain_axis h vp lines"
  shows "\<exists>st. calc_offset h lines vp = Inr st"
proof -
  from assms have vp: "vp \<noteq> Undefined" "vp \<noteq> Null"
    and gr: "lookup lines ''getRange'' = Fun X_getRange \<or> lookup lines ''getRange'' = Fun Y_getRange
             \<or> range_function h (lookup lines ''getRange'')"
    by (simp_all add: plain_axis_def)
  from gr consider (x) "lookup lines ''getRange'' = Fun X_getRange"
    | (y) "lookup lines ''getRange'' = Fun Y_getRange"
    | (f) "range_function h (lookup lines ''getRange'')"
    by blast
  then show ?thesis
  proof cases
    case x
    from getRange_total[OF vp, of 2 h lines "Host ''grid''"] x show ?thesis
      by (auto simp: calc_offset_def Let_def thn_Inr)
  next
    case y
    from getRange_total[OF vp, of 3 h lines "Host ''grid''"] y show ?thesis
      by (auto simp: calc_offset_def Let_def thn_Inr)
  next
    case f
    then obtain r st' where
      "call h (lookup lines ''getRange'')
         [(''lines'', Obj lines), (''viewport'', vp), (''grid'', Host ''grid'')] = Inr (r, st')"
      unfolding range_function_def by blast
    then show ?thesis
      by (simp add: calc_offset_def Let_def thn_Inr)
  qed
qed

lemma calc_padding_total:
  assumes "\<not> is_function (lookup lines ''padding'')"
  shows "\<exists>st'. calc_padding h lines st = Inr st'"
  using assms by (simp add: calc_padding_def)

lemma calc_font_total:
  assumes "is_number (lookup lines ''fontSize'') \<or> is_array (parseUnit h (lookup lines ''fontSize''))"
  shows "\<exists>st'. calc_font h lines st = Inr st'"
proof (cases "is_number (lookup lines ''fontSize'')")
  case True
  then show ?thesis by (simp add: calc_font_def thn_Inr)
next
  case False
  with assms obtain us where "parseUnit h (lookup lines ''fontSize'') = Arr us"
    by (cases "parseUnit h (lookup lines ''fontSize'')") auto
  with False show ?thesis by (simp add: calc_font_def Let_def thn_Inr)
qed

text \<open>The tick values of a plain axis are an array.\<close>

lemma calc_values_total:
  assumes "tick_generator h (lookup lines ''lines'')
           \<or> (\<exists>vs. lookup lines ''lines'' = Arr vs \<and> length vs < 2 ^ 32)"
  shows "\<exists>vs st'. calc_values h lines st = Inr (Arr vs, st') \<and> length vs < 2 ^ 32"
  using assms
proof
  assume "tick_generator h (lookup lines ''lines'')"
  then have f: "is_function (lookup lines ''lines'')"
    and "\<exists>vs st'. call h (lookup lines ''lines'') st = Inr (Arr vs, st') \<and> length vs < 2 ^ 32"
    by (simp_all add: tick_generator_def)
  then obtain vs st' where "call h (lookup lines ''lines'') st = Inr (Arr vs, st')"
    "length vs < 2 ^ 32"
    by blast
  with f show ?thesis by (simp add: calc_values_def thn_Inr)
next
  assume "\<exists>vs. lookup lines ''lines'' = Arr vs \<and> length vs < 2 ^ 32"
  then show ?thesis by (auto simp: calc_values_def thn_Inr js_or_def)
qed

lemma calc_subvalues_total:
  assumes "\<not> is_function (lookup lines ''sublines'')"
    and "is_function (lookup lines ''lines'') \<longrightarrow> tick_generator h (lookup lines ''lines'')"
  shows "\<exists>st'. calc_subvalues h lines (Arr vs) st = Inr st'"
proof (cases "is_function (lookup lines ''lines'')")
  case True
  with assms(2) have "\<forall>s. \<exists>fs s'. call h (lookup lines ''lines'') s = Inr (Arr fs, s')"
    unfolding tick_generator_def by blast
  then obtain fs s' where
    "call h (lookup lines ''lines'')
       (put st ''scale'' (js_div h (lookup st ''scale'') (Number (Fin 3)))) = Inr (Arr fs, s')"
    by blast
  with assms(1) show ?thesis
    by (simp add: calc_subvalues_def Let_def thn_Inr filter_found_Arr)
next
  case False
  with assms(1) show ?thesis by (simp add: calc_subvalues_def)
qed

lemma calc_labels_total:
  assumes "\<not> is_function (lookup lines ''labels'')" and "length vs < 2 ^ 32"
  shows "\<exists>ls. calc_labels h lines (Arr vs) st = Inr (Arr ls, put st ''labels'' (Arr ls))"
proof -
  have "thn (get (Arr vs) ''length'') (\<lambda>n. thn (Array_fill_null n) (\<lambda>nulls. Inr (nulls, st)))
          = Inr (Arr (replicate (length vs) Null), st)"
    using assms(2) by (simp add: thn_Inr Array_fill_null_length)
  with assms(1) show ?thesis
    by (cases "lookup lines ''labels''") (auto simp: calc_labels_def thn_Inr)
qed

text \<open>On a plain axis calcLines returns, and hands the configuration back as it is.\<close>

theorem calcLines_total:
  assumes "plain_axis h vp lines"
  shows "\<exists>state. calcLines h lines vp = Inr (lines, state)"
proof -
  from calc_offset_total[OF assms] obtain s1 where s1: "calc_offset h lines vp = Inr s1"
    by blast
  from assms calc_padding_total obtain s2 where
    s2: "calc_padding h lines (calc_style h lines s1) = Inr s2"
    unfolding plain_axis_def by blast
  from assms calc_font_total obtain s3 where s3: "calc_font h lines s2 = Inr s3"
    unfolding plain_axis_def by blast
  from assms calc_values_total obtain vs s4 where
    s4: "calc_values h lines s3 = Inr (Arr vs, s4)" and n: "length vs < 2 ^ 32"
    unfolding plain_axis_def by blast
  have gen: "is_function (lookup lines ''lines'') \<longrightarrow> tick_generator h (lookup lines ''lines'')"
    using assms by (auto simp: plain_axis_def)
  from assms have nf: "\<not> is_function (lookup lines ''sublines'')"
    "\<not> is_function (lookup lines ''labels'')"
    by (simp_all add: plain_axis_def)
  from calc_subvalues_total[OF nf(1) gen] obtain s5 where
    s5: "calc_subvalues h lines (Arr vs) s4 = Inr s5"
    by blast
  from calc_labels_total[OF nf(2) n] obtain ls where
    s6: "calc_labels h lines (Arr vs) s5 = Inr (Arr ls, put s5 ''labels'' (Arr ls))"
    by blast
  have "convert_hashmap h lines (Arr vs) (Arr ls) (put s5 ''labels'' (Arr ls))
          = Inr (lines, put s5 ''labels'' (Arr ls))"
    by (simp add: convert_hashmap_def)
  then show ?thesis
    using s1 s2 s3 s4 s5 s6 by (simp add: calcLines_def thn_Inr)
qed

section \<open>What calcLines returns\<close>

text \<open>The hashmap conversion: nothing happens unless the labels are a mapping; an empty
  mapping gives one \<open>null\<close> per value; otherwise one label and one value are pushed
  per entry.\<close>

lemma convert_hashmap_cases:
  assumes "convert_hashmap h lines V L st = Inr (lines', st')"
  obtains (plain) "\<not> isObj L" "lines' = lines" "st' = st"
  | (empty) ns where "isObj L" "own_props L = []" "lines' = lines"
      "thn (get V ''length'') Array_fill_null = Inr (Arr ns)" "st' = put st ''labels'' (Arr ns)"
  | (pushed) ns vs where "isObj L" "own_props L \<noteq> []"
      "thn (get V ''length'') Array_fill_null = Inr (Arr ns)"
      "lookup st ''values'' = Arr vs"
      "lookup st' ''values'' = Arr (vs @ map (\<lambda>(k, l). Number (parseFloat h k)) (own_props L))"
      "lookup st' ''labels'' = Arr (ns @ map (\<lambda>(k, l). lookup (own_props L) k) (own_props L))"
      "\<And>k. k \<noteq> ''values'' \<Longrightarrow> k \<noteq> ''labels'' \<Longrightarrow> k \<noteq> ''lines''
            \<Longrightarrow> lookup st' k = lookup st k"
      "lines' = (if is_array (lookup lines ''lines'') \<and> lookup st ''values'' = lookup lines ''lines''
                 then put lines ''lines''
                        (Arr (vs @ map (\<lambda>(k, l). Number (parseFloat h k)) (own_props L)))
                 else lines)"
proof (cases "isObj L")
  case False
  with assms have "lines' = lines" "st' = st" by (simp_all add: convert_hashmap_def)
  with False show ?thesis by (rule plain)
next
  case True
  from assms True obtain n nulls where
    n: "get V ''length'' = Inr n" and
    nulls: "Array_fill_null n = Inr nulls" and
    rest: "(if own_props L = [] then Inr (lines, put st ''labels'' nulls)
            else (case (nulls, lookup st ''values'') of
              (Arr ns, Arr vs) \<Rightarrow>
                (let pushed = Arr (vs @ map (\<lambda>(k, l). Number (parseFloat h k)) (own_props L));
                     lines' = (if is_array (lookup lines ''lines'')
                                  \<and> lookup st ''values'' = lookup lines ''lines''
                               then put lines ''lines'' pushed else lines);
                     state = (if lookup st ''lines'' = Obj lines
                              then put st ''lines'' (Obj lines') else st);
                     state = put state ''labels''
                               (Arr (ns @ map (\<lambda>(k, l). lookup (own_props L) k) (own_props L)))
                 in Inr (lines', put state ''values'' pushed))
            | _ \<Rightarrow> Inl TypeError)) = Inr (lines', st')"
    by (auto simp: convert_hashmap_def Let_def thn_eq_Inr)
  have "\<exists>ns. nulls = Arr ns"
    using nulls by (cases n rule: Array_fill_null.cases) (auto split: if_splits)
  then obtain ns where ns: "nulls = Arr ns" by blast
  have len: "thn (get V ''length'') Array_fill_null = Inr (Arr ns)"
    using n nulls ns by (simp add: thn_Inr)
  show ?thesis
  proof (cases "own_props L = []")
    case e: True
    with rest ns have "lines' = lines" "st' = put st ''labels'' (Arr ns)" by simp_all
    with True e len show ?thesis by (intro empty[of ns]) simp_all
  next
    case ne: False
    from rest ne ns obtain vs where vs: "lookup st ''values'' = Arr vs"
      by (cases "lookup st ''values''") auto
    let ?pushed = "Arr (vs @ map (\<lambda>(k, l). Number (parseFloat h k)) (own_props L))"
    let ?lines = "if is_array (lookup lines ''lines'') \<and> lookup st ''values'' = lookup lines ''lines''
                  then put lines ''lines'' ?pushed else lines"
    let ?s1 = "if lookup st ''lines'' = Obj lines then put st ''lines'' (Obj ?lines) else st"
    from rest ne ns vs have
      l: "lines' = ?lines" and
      s: "st' = put (put ?s1 ''labels''
                   (Arr (ns @ map (\<lambda>(k, l). lookup (own_props L) k) (own_props L))))
                 ''values'' ?pushed"
      by (auto simp: Let_def)
    have v': "lookup st' ''values'' = ?pushed"
      by (simp add: s lookup_put)
    have l': "lookup st' ''labels'' = Arr (ns @ map (\<lambda>(k, l). lookup (own_props L) k) (own_props L))"
      by (simp add: s lookup_put)
    have k': "lookup st' k = lookup st k"
      if "k \<noteq> ''values''" "k \<noteq> ''labels''" "k \<noteq> ''lines''" for k
      using that by (simp add: s lookup_put)
    show ?thesis
      by (rule pushed[OF True ne len vs v' l' k' l])
  qed
qed

text \<open>The configuration comes back as it went in, up to its \<open>lines\<close> array.\<close>

lemma calcLines_config:
  assumes "calcLines h lines vp = Inr (lines', state)" and "k \<noteq> ''lines''"
  shows "lookup lines' k = lookup lines k"
proof -
  from assms(1) obtain s6 V L where "convert_hashmap h lines V L s6 = Inr (lines', state)"
    by (rule calcLines_steps)
  then show ?thesis
    using assms(2) by (cases rule: convert_hashmap_cases) (simp_all add: lookup_put)
qed

lemma calcLines_config_same:
  assumes "calcLines h lines vp = Inr (lines', state)" and "\<not> is_array (lookup lines ''lines'')"
  shows "lines' = lines"
proof -
  from assms(1) obtain s6 V L where "convert_hashmap h lines V L s6 = Inr (lines', state)"
    by (rule calcLines_steps)
  then show ?thesis
    using assms(2) by (cases rule: convert_hashmap_cases) simp_all
qed

text \<open>
  The local variables \<open>values\<close>, \<open>subvalues\<close> and \<open>labels\<close>, each described by the
  branch of the source that produced it, and the state as it stands before the hashmap
  conversion. When the tick generator, the \<open>sublines\<close> and the \<open>labels\<close> function are
  pure, the state holds the three variables.
\<close>

lemma calcLines_final:
  assumes "calcLines h lines vp = Inr (lines', state)"
    and "leaves_state h (lookup lines ''lines'')"
    and "leaves_state h (lookup lines ''sublines'')"
    and "leaves_state h (lookup lines ''labels'')"
  obtains s6 V SV L where
    "convert_hashmap h lines V L s6 = Inr (lines', state)"
    "lookup s6 ''values'' = V" "lookup s6 ''subvalues'' = SV" "lookup s6 ''labels'' = L"
    "if is_function (lookup lines ''lines'')
     then (\<exists>st. call h (lookup lines ''lines'') st = Inr (V, st))
     else V = js_or (lookup lines ''lines'') (Arr [])"
    "if is_function (lookup lines ''sublines'')
     then (\<exists>st. call h (lookup lines ''sublines'') st = Inr (SV, st))
     else if (strict_eq (lookup lines ''sublines'') (Bool True)
              \<or> strict_eq (lookup lines ''sublines'') Undefined)
             \<and> is_function (lookup lines ''lines'')
     then (\<exists>st fs kept. call h (lookup lines ''lines'') st = Inr (Arr fs, st)
             \<and> filter_found h V fs = Inr kept \<and> SV = Arr kept)
     else SV = lookup lines ''sublines''"
    "if strict_eq (lookup lines ''labels'') (Bool True) then L = V
     else if is_function (lookup lines ''labels'')
     then (\<exists>st. call h (lookup lines ''labels'') st = Inr (L, st))
     else if is_array (lookup lines ''labels'') then L = lookup lines ''labels''
     else thn (get V ''length'') Array_fill_null = Inr L"
proof -
  from assms(1) obtain s1 s2 s3 s4 s5 s6 V L where
    s4: "calc_values h lines s3 = Inr (V, s4)" and
    s5: "calc_subvalues h lines V s4 = Inr s5" and
    s6: "calc_labels h lines V s5 = Inr (L, s6)" and
    s7: "convert_hashmap h lines V L s6 = Inr (lines', state)"
    by (rule calcLines_steps)
  from s4 obtain t4 where
    e4: "s4 = put t4 ''values'' V" and
    b4: "if is_function (lookup lines ''lines'')
         then call h (lookup lines ''lines'') s3 = Inr (V, t4)
         else V = js_or (lookup lines ''lines'') (Arr []) \<and> t4 = s3"
    by (rule calc_values_cases)
  have vals: "if is_function (lookup lines ''lines'')
     then (\<exists>st. call h (lookup lines ''lines'') st = Inr (V, st))
     else V = js_or (lookup lines ''lines'') (Arr [])"
  proof (cases "is_function (lookup lines ''lines'')")
    case True
    with b4 have c: "call h (lookup lines ''lines'') s3 = Inr (V, t4)" by simp
    from leaves_stateD[OF assms(2) c] c True show ?thesis by auto
  next
    case False
    with b4 show ?thesis by simp
  qed
  have v4: "lookup s4 ''values'' = V" by (simp add: e4 lookup_put)
  from s5 obtain SV t5 where
    e5: "s5 = put t5 ''subvalues'' SV" and
    b5: "if is_function (lookup lines ''sublines'')
     then call h (lookup lines ''sublines'') s4 = Inr (SV, t5)
     else if (strict_eq (lookup lines ''sublines'') (Bool True)
              \<or> strict_eq (lookup lines ''sublines'') Undefined)
             \<and> is_function (lookup lines ''lines'')
     then (\<exists>fs kept st1.
             call h (lookup lines ''lines'')
               (put s4 ''scale'' (js_div h (lookup s4 ''scale'') (Number (Fin 3))))
               = Inr (Arr fs, st1)
             \<and> filter_found h V fs = Inr kept \<and> SV = Arr kept
             \<and> t5 = put st1 ''scale'' (lookup s4 ''scale''))
     else SV = lookup lines ''sublines'' \<and> t5 = s4"
    by (rule calc_subvalues_cases)
  have subs: "(if is_function (lookup lines ''sublines'')
     then (\<exists>st. call h (lookup lines ''sublines'') st = Inr (SV, st))
     else if (strict_eq (lookup lines ''sublines'') (Bool True)
              \<or> strict_eq (lookup lines ''sublines'') Undefined)
             \<and> is_function (lookup lines ''lines'')
     then (\<exists>st fs kept. call h (lookup lines ''lines'') st = Inr (Arr fs, st)
             \<and> filter_found h V fs = Inr kept \<and> SV = Arr kept)
     else SV = lookup lines ''sublines'') \<and> lookup t5 ''values'' = V"
  proof (cases "is_function (lookup lines ''sublines'')")
    case True
    with b5 have c: "call h (lookup lines ''sublines'') s4 = Inr (SV, t5)" by simp
    from leaves_stateD[OF assms(3) c] c True v4 show ?thesis
      by (auto simp del: strict_eq.simps)
  next
    case nf: False
    show ?thesis
    proof (cases "(strict_eq (lookup lines ''sublines'') (Bool True)
              \<or> strict_eq (lookup lines ''sublines'') Undefined)
             \<and> is_function (lookup lines ''lines'')")
      case True
      with nf b5 obtain fs kept st1 where
        c: "call h (lookup lines ''lines'')
               (put s4 ''scale'' (js_div h (lookup s4 ''scale'') (Number (Fin 3))))
               = Inr (Arr fs, st1)" and
        f: "filter_found h V fs = Inr kept" "SV = Arr kept" and
        t: "t5 = put st1 ''scale'' (lookup s4 ''scale'')"
        by auto
      from leaves_stateD[OF assms(2) c] have
        st1: "st1 = put s4 ''scale'' (js_div h (lookup s4 ''scale'') (Number (Fin 3)))" .
      have "lookup t5 ''values'' = V"
        by (simp add: t st1 lookup_put v4)
      moreover have "\<exists>st fs kept. call h (lookup lines ''lines'') st = Inr (Arr fs, st)
             \<and> filter_found h V fs = Inr kept \<and> SV = Arr kept"
        using c f st1 by blast
      ultimately show ?thesis using nf True by (simp del: strict_eq.simps)
    next
      case False
      with nf b5 v4 show ?thesis by (auto simp del: strict_eq.simps)
    qed
  qed
  have v5: "lookup s5 ''values'' = V" "lookup s5 ''subvalues'' = SV"
    using subs by (simp_all add: e5 lookup_put)
  from s6 obtain t6 where
    e6: "s6 = put t6 ''labels'' L" and
    b6: "if strict_eq (lookup lines ''labels'') (Bool True) then L = V \<and> t6 = s5
     else if is_function (lookup lines ''labels'')
     then call h (lookup lines ''labels'') s5 = Inr (L, t6)
     else if is_array (lookup lines ''labels'') then L = lookup lines ''labels'' \<and> t6 = s5
     else thn (get V ''length'') Array_fill_null = Inr L \<and> t6 = s5"
    by (rule calc_labels_cases)
  have labs: "(if strict_eq (lookup lines ''labels'') (Bool True) then L = V
     else if is_function (lookup lines ''labels'')
     then (\<exists>st. call h (lookup lines ''labels'') st = Inr (L, st))
     else if is_array (lookup lines ''labels'') then L = lookup lines ''labels''
     else thn (get V ''length'') Array_fill_null = Inr L) \<and> t6 = s5"
  proof (cases "\<not> strict_eq (lookup lines ''labels'') (Bool True)
                \<and> is_function (lookup lines ''labels'')")
    case True
    with b6 have c: "call h (lookup lines ''labels'') s5 = Inr (L, t6)" by simp
    from leaves_stateD[OF assms(4) c] c True show ?thesis
      by (auto simp del: strict_eq.simps)
  next
    case False
    with b6 show ?thesis by (auto simp del: strict_eq.simps split: if_splits)
  qed
  have v6: "lookup s6 ''values'' = V" "lookup s6 ''subvalues'' = SV" "lookup s6 ''labels'' = L"
    using labs v5 by (simp_all add: e6 lookup_put)
  from subs have subs': "if is_function (lookup lines ''sublines'')
     then (\<exists>st. call h (lookup lines ''sublines'') st = Inr (SV, st))
     else if (strict_eq (lookup lines ''sublines'') (Bool True)
              \<or> strict_eq (lookup lines ''sublines'') Undefined)
             \<and> is_function (lookup lines ''lines'')
     then (\<exists>st fs kept. call h (lookup lines ''lines'') st = Inr (Arr fs, st)
             \<and> filter_found h V fs = Inr kept \<and> SV = Arr kept)
     else SV = lookup lines ''sublines''"
    by (rule conjunct1)
  from labs have labs': "if strict_eq (lookup lines ''labels'') (Bool True) then L = V
     else if is_function (lookup lines ''labels'')
     then (\<exists>st. call h (lookup lines ''labels'') st = Inr (L, st))
     else if is_array (lookup lines ''labels'') then L = lookup lines ''labels''
     else thn (get V ''length'') Array_fill_null = Inr L"
    by (rule conjunct1)
  show thesis
    by (rule that[OF s7 v6 vals subs' labs'])
qed

lemma strict_eq_imp_eq: "strict_eq a b \<Longrightarrow> a = b"
  by (cases a; cases b) auto

lemma filter_found_sound:
  assumes "filter_found h values fs = Inr kept" and "v \<in> set kept"
  shows "indexOf_found h values v = Inr True \<and> v \<in> set fs"
  using assms
proof (induction fs arbitrary: kept)
  case Nil
  then show ?case by simp
next
  case (Cons f fs)
  from Cons.prems(1) obtain keep rest where
    k: "indexOf_found h values f = Inr keep" and
    r: "filter_found h values fs = Inr rest" and
    e: "kept = (if keep then f # rest else rest)"
    by (auto simp: thn_eq_Inr)
  show ?case
  proof (cases "keep \<and> v = f")
    case True
    with k show ?thesis by simp
  next
    case False
    with e Cons.prems(2) have "v \<in> set rest" by (auto split: if_splits)
    with Cons.IH[OF r] show ?thesis by simp
  qed
qed

lemma indexOf_found_append:
  "indexOf_found h (Arr vs) v = Inr True \<Longrightarrow> indexOf_found h (Arr (vs @ extra)) v = Inr True"
  by simp

lemma indexOf_found_member:
  "indexOf_found h (Arr vs) v = Inr True \<Longrightarrow> v \<in> set vs"
  by (auto simp: list_ex_iff dest: strict_eq_imp_eq)

lemma Array_fill_null_Arr:
  assumes "Array_fill_null n = Inr L"
  obtains ns where "L = Arr ns"
  using assms by (cases n rule: Array_fill_null.cases) (auto split: if_splits)

text \<open>Explicit arrays in the configuration reach the state as they are, as long as the
  functions called after them are pure.\<close>

lemma calcLines_values_literal:
  assumes "calcLines h lines vp = Inr (lines', state)" and "lookup lines' ''lines'' = Arr vs"
    and "leaves_state h (lookup lines ''sublines'')"
    and "leaves_state h (lookup lines ''labels'')"
  shows "lookup state ''values'' = Arr vs"
proof -
  have nf: "\<not> is_function (lookup lines ''lines'')"
  proof
    assume f: "is_function (lookup lines ''lines'')"
    then have "\<not> is_array (lookup lines ''lines'')"
      by (cases "lookup lines ''lines''") simp_all
    from calcLines_config_same[OF assms(1) this] assms(2) f show False by simp
  qed
  from assms(1) leaves_state_value[OF nf] assms(3,4) obtain s6 V SV L where
    c: "convert_hashmap h lines V L s6 = Inr (lines', state)" and
    v: "lookup s6 ''values'' = V" and
    vals: "if is_function (lookup lines ''lines'')
           then (\<exists>st. call h (lookup lines ''lines'') st = Inr (V, st))
           else V = js_or (lookup lines ''lines'') (Arr [])"
    by (rule calcLines_final)
  from vals nf have V: "V = js_or (lookup lines ''lines'') (Arr [])" by simp
  from c show ?thesis
  proof (cases rule: convert_hashmap_cases)
    case plain
    with assms(2) V v show ?thesis by (simp add: js_or_def)
  next
    case (empty ns)
    with assms(2) V v show ?thesis by (simp add: js_or_def lookup_put)
  next
    case (pushed ns vs0)
    show ?thesis
    proof (cases "is_array (lookup lines ''lines'') \<and> lookup s6 ''values'' = lookup lines ''lines''")
      case True
      with pushed(5,8) assms(2) show ?thesis by (simp add: lookup_put)
    next
      case False
      with pushed(8) have "lines' = lines" by simp
      with assms(2) have "lookup lines ''lines'' = Arr vs" by simp
      with V v have "is_array (lookup lines ''lines'') \<and> lookup s6 ''values'' = lookup lines ''lines''"
        by (simp add: js_or_def)
      with False show ?thesis by simp
    qed
  qed
qed

lemma calcLines_subvalues_literal:
  assumes "calcLines h lines vp = Inr (lines', state)" and "lookup lines ''sublines'' = Arr svs"
    and "leaves_state h (lookup lines ''lines'')"
    and "leaves_state h (lookup lines ''labels'')"
  shows "lookup state ''subvalues'' = Arr svs"
proof -
  have ls: "leaves_state h (lookup lines ''sublines'')"
    by (rule leaves_state_value) (simp add: assms(2))
  from assms(1) assms(3) ls assms(4) obtain s6 V SV L where
    c: "convert_hashmap h lines V L s6 = Inr (lines', state)" and
    sv: "lookup s6 ''subvalues'' = SV" and
    subs: "if is_function (lookup lines ''sublines'')
     then (\<exists>st. call h (lookup lines ''sublines'') st = Inr (SV, st))
     else if (strict_eq (lookup lines ''sublines'') (Bool True)
              \<or> strict_eq (lookup lines ''sublines'') Undefined)
             \<and> is_function (lookup lines ''lines'')
     then (\<exists>st fs kept. call h (lookup lines ''lines'') st = Inr (Arr fs, st)
             \<and> filter_found h V fs = Inr kept \<and> SV = Arr kept)
     else SV = lookup lines ''sublines''"
    by (rule calcLines_final)
  from subs assms(2) have svs: "SV = Arr svs" by simp
  from c sv svs show ?thesis
    by (cases rule: convert_hashmap_cases) (simp_all add: lookup_put)
qed

lemma calcLines_labels_literal:
  assumes "calcLines h lines vp = Inr (lines', state)" and "lookup lines ''labels'' = Arr ls"
    and "leaves_state h (lookup lines ''lines'')"
    and "leaves_state h (lookup lines ''sublines'')"
  shows "lookup state ''labels'' = Arr ls \<and> lines' = lines"
proof -
  have "leaves_state h (lookup lines ''labels'')"
    by (rule leaves_state_value) (simp add: assms(2))
  with assms(1,3,4) obtain s6 V SV L where
    c: "convert_hashmap h lines V L s6 = Inr (lines', state)" and
    l: "lookup s6 ''labels'' = L" and
    labs: "if strict_eq (lookup lines ''labels'') (Bool True) then L = V
     else if is_function (lookup lines ''labels'')
     then (\<exists>st. call h (lookup lines ''labels'') st = Inr (L, st))
     else if is_array (lookup lines ''labels'') then L = lookup lines ''labels''
     else thn (get V ''length'') Array_fill_null = Inr L"
    by (rule calcLines_final)
  from labs assms(2) have "L = Arr ls" by simp
  with l c show ?thesis by (simp add: convert_hashmap_def)
qed

section \<open>What update returns\<close>

lemma normalize_cases:
  assumes "normalize h vp axis = Inr axis'"
  obtains (skipped) "truthy (lookup axis ''disabled'')" "axis' = axis"
  | (clamped) rng written where "\<not> truthy (lookup axis ''disabled'')"
      "call h (lookup axis ''getRange'') [(''viewport'', vp), (''lines'', Obj axis)]
         = Inr (rng, written)"
      "axis' = put axis ''offset''
                 (clamp h (lookup axis ''offset'') (lookup axis ''min'')
                    (Math_max h (js_sub h (lookup axis ''max'') rng) (lookup axis ''min'')))"
proof (cases "truthy (lookup axis ''disabled'')")
  case True
  with assms have "axis' = axis" by (simp add: normalize_def)
  with True show ?thesis by (rule skipped)
next
  case False
  with assms obtain rw where
    c: "call h (lookup axis ''getRange'') [(''viewport'', vp), (''lines'', Obj axis)] = Inr rw"
    and r: "(case rw of (rng, written) \<Rightarrow>
              Inr (put axis ''offset''
                (clamp h (lookup axis ''offset'') (lookup axis ''min'')
                   (Math_max h (js_sub h (lookup axis ''max'') rng) (lookup axis ''min'')))))
            = Inr axis'"
    by (auto simp: normalize_def thn_eq_Inr)
  obtain rng written where rw: "rw = (rng, written)" by (cases rw)
  from r rw have "axis' = put axis ''offset''
                 (clamp h (lookup axis ''offset'') (lookup axis ''min'')
                    (Math_max h (js_sub h (lookup axis ''max'') rng) (lookup axis ''min'')))"
    by simp
  with False c rw show ?thesis by (intro clamped[of rng written]) simp_all
qed

lemma normalize_lookup:
  assumes "normalize h vp axis = Inr axis'" and "k \<noteq> ''offset''"
  shows "lookup axis' k = lookup axis k"
  using assms(1)
  by (cases rule: normalize_cases) (simp_all add: lookup_put assms(2))

lemma normalize_disabled:
  "truthy (lookup axis ''disabled'') \<Longrightarrow> normalize h vp axis = Inr axis"
  by (simp add: normalize_def)

lemma getRange_short:
  assumes "vp \<noteq> Undefined" "vp \<noteq> Null"
  shows "\<exists>extent. get_index vp i = Inr extent \<and>
           getRange h i (Obj [(''viewport'', vp), (''lines'', Obj lines)])
             = Inr (js_mul h extent (lookup lines ''scale''))"
  using assms by (cases vp) (simp_all add: getRange_def thn_Inr lookup_Cons)

lemma plain_axis_cong:
  assumes "\<And>k. k \<noteq> ''offset'' \<Longrightarrow> lookup b k = lookup a k"
  shows "plain_axis h vp b = plain_axis h vp a"
  by (simp add: plain_axis_def assms)

lemma normalize_plain:
  assumes "plain_axis h vp axis"
  shows "\<exists>axis'. normalize h vp axis = Inr axis' \<and> plain_axis h vp axis'"
proof -
  have "\<exists>axis'. normalize h vp axis = Inr axis'"
  proof (cases "truthy (lookup axis ''disabled'')")
    case True
    then show ?thesis by (simp add: normalize_disabled)
  next
    case False
    from assms have vp: "vp \<noteq> Undefined" "vp \<noteq> Null"
      and gr: "lookup axis ''getRange'' = Fun X_getRange \<or> lookup axis ''getRange'' = Fun Y_getRange
               \<or> range_function h (lookup axis ''getRange'')"
      by (simp_all add: plain_axis_def)
    from gr consider (x) "lookup axis ''getRange'' = Fun X_getRange"
      | (y) "lookup axis ''getRange'' = Fun Y_getRange"
      | (f) "range_function h (lookup axis ''getRange'')"
      by blast
    then show ?thesis
    proof cases
      case x
      with getRange_short[OF vp, of 2 h axis] False show ?thesis
        by (auto simp: normalize_def thn_Inr)
    next
      case y
      with getRange_short[OF vp, of 3 h axis] False show ?thesis
        by (auto simp: normalize_def thn_Inr)
    next
      case f
      then obtain r st' where
        "call h (lookup axis ''getRange'') [(''viewport'', vp), (''lines'', Obj axis)] = Inr (r, st')"
        unfolding range_function_def by blast
      with False show ?thesis by (simp add: normalize_def thn_Inr)
    qed
  qed
  then obtain axis' where n: "normalize h vp axis = Inr axis'" by blast
  have "plain_axis h vp axis' = plain_axis h vp axis"
    by (rule plain_axis_cong) (rule normalize_lookup[OF n])
  with n assms show ?thesis by simp
qed

lemma viewport_merge_opts: "viewport (merge_opts h g opts) = viewport g"
  by (simp add: merge_opts_def)

text \<open>The steps of a run of update that returns.\<close>

lemma update_steps:
  assumes "update h g opts = Inr g'"
  obtains x y lx sx ly sy where
    "normalize h (viewport g) (this_x (merge_opts h g opts)) = Inr x"
    "normalize h (viewport g) (this_y (merge_opts h g opts)) = Inr y"
    "calcLines h x (viewport g) = Inr (lx, sx)"
    "calcLines h y (viewport g) = Inr (ly, sy)"
    "g' = (merge_opts h g opts)\<lparr>this_x := lx, this_y := ly, state_x := Obj sx, state_y := Obj sy\<rparr>"
proof -
  let ?g = "merge_opts h g opts"
  from assms obtain x where
    nx: "normalize h (viewport g) (this_x ?g) = Inr x" and
    r1: "thn (normalize h (viewport g) (this_y ?g)) (\<lambda>y.
         thn (calcLines h x (viewport g)) (\<lambda>(x, sx).
         thn (calcLines h y (viewport g)) (\<lambda>(y, sy).
         Inr (?g\<lparr>this_x := x, this_y := y, state_x := Obj sx, state_y := Obj sy\<rparr>)))) = Inr g'"
    unfolding update_def Let_def viewport_merge_opts
      thn_eq_Inr[of "normalize h (viewport g) (this_x (merge_opts h g opts))"]
    by blast
  from r1 obtain y where
    ny: "normalize h (viewport g) (this_y ?g) = Inr y" and
    r2: "thn (calcLines h x (viewport g)) (\<lambda>(x, sx).
         thn (calcLines h y (viewport g)) (\<lambda>(y, sy).
         Inr (?g\<lparr>this_x := x, this_y := y, state_x := Obj sx, state_y := Obj sy\<rparr>))) = Inr g'"
    unfolding thn_eq_Inr[of "normalize h (viewport g) (this_y (merge_opts h g opts))"]
    by blast
  from r2 obtain lx sx where
    cx: "calcLines h x (viewport g) = Inr (lx, sx)" and
    r3: "thn (calcLines h y (viewport g)) (\<lambda>(y, sy).
         Inr (?g\<lparr>this_x := lx, this_y := y, state_x := Obj sx, state_y := Obj sy\<rparr>)) = Inr g'"
    unfolding thn_eq_Inr[of "calcLines h x (viewport g)"] by auto
  from r3 obtain ly sy where
    cy: "calcLines h y (viewport g) = Inr (ly, sy)" and
    g': "g' = ?g\<lparr>this_x := lx, this_y := ly, state_x := Obj sx, state_y := Obj sy\<rparr>"
    unfolding thn_eq_Inr[of "calcLines h y (viewport g)"] by auto
  show thesis by (rule that[OF nx ny cx cy g'])
qed

text \<open>update returns when both merged axes are plain, and then leaves them as merged
  and normalized.\<close>

lemma update_plain:
  assumes "plain_axis h (viewport g) (this_x (merge_opts h g opts))"
    and "plain_axis h (viewport g) (this_y (merge_opts h g opts))"
  shows "\<exists>x y sx sy.
           normalize h (viewport g) (this_x (merge_opts h g opts)) = Inr x
         \<and> normalize h (viewport g) (this_y (merge_opts h g opts)) = Inr y
         \<and> calcLines h x (viewport g) = Inr (x, sx)
         \<and> calcLines h y (viewport g) = Inr (y, sy)
         \<and> update h g opts =
             Inr ((merge_opts h g opts)\<lparr>this_x := x, this_y := y,
                                          state_x := Obj sx, state_y := Obj sy\<rparr>)"
proof -
  from normalize_plain[OF assms(1)] obtain x where
    x: "normalize h (viewport g) (this_x (merge_opts h g opts)) = Inr x" and
    px: "plain_axis h (viewport g) x"
    by blast
  from normalize_plain[OF assms(2)] obtain y where
    y: "normalize h (viewport g) (this_y (merge_opts h g opts)) = Inr y" and
    py: "plain_axis h (viewport g) y"
    by blast
  from calcLines_total[OF px] obtain sx where sx: "calcLines h x (viewport g) = Inr (x, sx)"
    by blast
  from calcLines_total[OF py] obtain sy where sy: "calcLines h y (viewport g) = Inr (y, sy)"
    by blast
  from x y sx sy have "update h g opts =
             Inr ((merge_opts h g opts)\<lparr>this_x := x, this_y := y,
                                          state_x := Obj sx, state_y := Obj sy\<rparr>)"
    by (simp add: update_def Let_def thn_Inr viewport_merge_opts)
  with x y sx sy show ?thesis by blast
qed

text \<open>What update stores in the x and y configurations, key by key.\<close>

lemma update_lookup_x:
  assumes "update h g opts = Inr g'" and "k \<noteq> ''offset''" and "k \<noteq> ''lines''"
  shows "lookup (this_x g') k = lookup (this_x (merge_opts h g opts)) k"
proof -
  from assms(1) obtain x lx sx where
    n: "normalize h (viewport g) (this_x (merge_opts h g opts)) = Inr x" and
    c: "calcLines h x (viewport g) = Inr (lx, sx)" and
    g': "this_x g' = lx"
    by (rule update_steps) simp
  from calcLines_config[OF c assms(3)] normalize_lookup[OF n assms(2)] g' show ?thesis
    by simp
qed

lemma update_lookup_y:
  assumes "update h g opts = Inr g'" and "k \<noteq> ''offset''" and "k \<noteq> ''lines''"
  shows "lookup (this_y g') k = lookup (this_y (merge_opts h g opts)) k"
proof -
  from assms(1) obtain y ly sy where
    n: "normalize h (viewport g) (this_y (merge_opts h g opts)) = Inr y" and
    c: "calcLines h y (viewport g) = Inr (ly, sy)" and
    g': "this_y g' = ly"
    by (rule update_steps) simp
  from calcLines_config[OF c assms(3)] normalize_lookup[OF n assms(2)] g' show ?thesis
    by simp
qed

lemma update_r_a:
  assumes "update h g opts = Inr g'"
  shows "this_r g' = this_r (merge_opts h g opts)" "this_a g' = this_a (merge_opts h g opts)"
  using assms by (auto elim!: update_steps)

lemma lookup_extend_props:
  "lookup (extend_props axis v) k =
     (if truthy v
      then (case map_of (rev (own_props v)) k of Some x \<Rightarrow> x | None \<Rightarrow> lookup axis k)
      else lookup axis k)"
  by (simp add: extend_props_def extend_Cons extend_Nil lookup_assign)

lemma normalize_enabled:
  assumes "\<not> truthy (lookup axis ''disabled'')"
  shows "lookup axis ''getRange'' = Fun X_getRange \<Longrightarrow>
         normalize h (Arr ws) axis =
           Inr (put axis ''offset''
                  (clamp h (lookup axis ''offset'') (lookup axis ''min'')
                     (Math_max h (js_sub h (lookup axis ''max'')
                                    (js_mul h (arg ws 2) (lookup axis ''scale'')))
                        (lookup axis ''min''))))"
    and "lookup axis ''getRange'' = Fun Y_getRange \<Longrightarrow>
         normalize h (Arr ws) axis =
           Inr (put axis ''offset''
                  (clamp h (lookup axis ''offset'') (lookup axis ''min'')
                     (Math_max h (js_sub h (lookup axis ''max'')
                                    (js_mul h (arg ws 3) (lookup axis ''scale'')))
                        (lookup axis ''min''))))"
  using assms
  by (simp_all add: normalize_def getRange_def arg_def thn_Inr lookup_Cons)

text \<open>A run of update on plain axes, seen from outside.\<close>

lemma update_plain_result:
  assumes "plain_axis h (viewport g) (this_x (merge_opts h g opts))"
    and "plain_axis h (viewport g) (this_y (merge_opts h g opts))"
  obtains g' sx sy where
    "update h g opts = Inr g'"
    "normalize h (viewport g) (this_x (merge_opts h g opts)) = Inr (this_x g')"
    "normalize h (viewport g) (this_y (merge_opts h g opts)) = Inr (this_y g')"
    "calcLines h (this_x g') (viewport g) = Inr (this_x g', sx)"
    "calcLines h (this_y g') (viewport g) = Inr (this_y g', sy)"
    "state_x g' = Obj sx" "state_y g' = Obj sy"
    "viewport g' = viewport g"
    "this_r g' = this_r (merge_opts h g opts)" "this_a g' = this_a (merge_opts h g opts)"
proof -
  from update_plain[OF assms] obtain x y sx sy where
    x: "normalize h (viewport g) (this_x (merge_opts h g opts)) = Inr x" and
    y: "normalize h (viewport g) (this_y (merge_opts h g opts)) = Inr y" and
    sx: "calcLines h x (viewport g) = Inr (x, sx)" and
    sy: "calcLines h y (viewport g) = Inr (y, sy)" and
    u: "update h g opts =
          Inr ((merge_opts h g opts)\<lparr>this_x := x, this_y := y,
                                       state_x := Obj sx, state_y := Obj sy\<rparr>)"
    by blast
  show thesis
    by (rule that[OF u]) (simp_all add: x y sx sy viewport_merge_opts)
qed

text \<open>A disabled axis: the normalization is skipped, so the configuration is stored as
  merged, and the state is what calcLines returns for it.\<close>

lemma update_disabled_x:
  assumes "update h g opts = Inr g'"
    and "truthy (lookup (this_x (merge_opts h g opts)) ''disabled'')"
  shows "\<exists>sx. calcLines h (this_x (merge_opts h g opts)) (viewport g) = Inr (this_x g', sx)
              \<and> state_x g' = Obj sx"
proof -
  from assms(1) obtain x y lx sx ly sy where
    n: "normalize h (viewport g) (this_x (merge_opts h g opts)) = Inr x" and
    c: "calcLines h x (viewport g) = Inr (lx, sx)" and
    g': "g' = (merge_opts h g opts)\<lparr>this_x := lx, this_y := ly, state_x := Obj sx, state_y := Obj sy\<rparr>"
    by (rule update_steps)
  from n normalize_disabled[OF assms(2), of h "viewport g"] have "x = this_x (merge_opts h g opts)"
    by simp
  with c g' show ?thesis by simp
qed

lemma update_disabled_y:
  assumes "update h g opts = Inr g'"
    and "truthy (lookup (this_y (merge_opts h g opts)) ''disabled'')"
  shows "\<exists>sy. calcLines h (this_y (merge_opts h g opts)) (viewport g) = Inr (this_y g', sy)
              \<and> state_y g' = Obj sy"
proof -
  from assms(1) obtain x y lx sx ly sy where
    n: "normalize h (viewport g) (this_y (merge_opts h g opts)) = Inr y" and
    c: "calcLines h y (viewport g) = Inr (ly, sy)" and
    g': "g' = (merge_opts h g opts)\<lparr>this_x := lx, this_y := ly, state_x := Obj sx, state_y := Obj sy\<rparr>"
    by (rule update_steps)
  from n normalize_disabled[OF assms(2), of h "viewport g"] have "y = this_y (merge_opts h g opts)"
    by simp
  with c g' show ?thesis by simp
qed

text \<open>
  The merge of a fragment that names a preset: the preset is assigned onto the fragment
  first, so for a key of the preset the preset's value reaches the configuration, and the
  fragment's own value only for the other keys.
\<close>

lemma lookup_preset_merge:
  assumes "truthy (lookup frag ''type'')"
    and "lookup (types h) (ToString h (lookup frag ''type'')) = Obj preset"
    and "distinct (map fst preset)" and "distinct (map fst frag)"
  shows "lookup (extend_props axis (take_type h (Obj frag))) k =
           (case map_of preset k of
              Some v \<Rightarrow> v
            | None \<Rightarrow> (case map_of frag k of Some v \<Rightarrow> v | None \<Rightarrow> lookup axis k))"
proof -
  let ?m = "extend frag [Obj preset]"
  have d: "distinct (map fst ?m)"
    using assms(4) by (rule distinct_extend)
  have mm: "map_of ?m = map_of frag ++ map_of preset"
    using assms(3) by (simp add: extend_Cons extend_Nil map_of_assign map_of_rev_distinct)
  have "take_type h (Obj frag) = Obj ?m"
    using assms(1,2) by simp
  then have "lookup (extend_props axis (take_type h (Obj frag))) k = lookup (extend axis [Obj ?m]) k"
    by (simp add: extend_props_def)
  also have "\<dots> = (case map_of ?m k of Some v \<Rightarrow> v | None \<Rightarrow> lookup axis k)"
    using d by (simp add: extend_Cons extend_Nil lookup_assign_Obj)
  finally show ?thesis
    by (simp add: mm map_add_def split: option.splits)
qed

lemma update_merge_lookup:
  assumes "update h g opts = Inr g'"
    and "name = ''x'' \<or> name = ''y'' \<or> name = ''r'' \<or> name = ''a''"
    and "k \<noteq> ''offset''"
    and "k = ''lines'' \<longrightarrow> \<not> is_array (lookup (axis_of (merge_opts h g opts) name) ''lines'')"
  shows "lookup (axis_of g' name) k = lookup (axis_of (merge_opts h g opts) name) k"
proof -
  from assms(1) obtain x y lx sx ly sy where
    nx: "normalize h (viewport g) (this_x (merge_opts h g opts)) = Inr x" and
    ny: "normalize h (viewport g) (this_y (merge_opts h g opts)) = Inr y" and
    cx: "calcLines h x (viewport g) = Inr (lx, sx)" and
    cy: "calcLines h y (viewport g) = Inr (ly, sy)" and
    g': "g' = (merge_opts h g opts)\<lparr>this_x := lx, this_y := ly, state_x := Obj sx, state_y := Obj sy\<rparr>"
    by (rule update_steps)
  have x: "lookup lx k = lookup (this_x (merge_opts h g opts)) k" if "name = ''x''"
  proof (cases "k = ''lines''")
    case True
    with assms(4) that have "\<not> is_array (lookup x ''lines'')"
      using normalize_lookup[OF nx, of "''lines''"] by (simp add: axis_of_def)
    from calcLines_config_same[OF cx this] normalize_lookup[OF nx assms(3)] show ?thesis
      by simp
  next
    case False
    from calcLines_config[OF cx False] normalize_lookup[OF nx assms(3)] show ?thesis
      by simp
  qed
  have y: "lookup ly k = lookup (this_y (merge_opts h g opts)) k" if "name = ''y''"
  proof (cases "k = ''lines''")
    case True
    with assms(4) that have "\<not> is_array (lookup y ''lines'')"
      using normalize_lookup[OF ny, of "''lines''"] by (simp add: axis_of_def)
    from calcLines_config_same[OF cy this] normalize_lookup[OF ny assms(3)] show ?thesis
      by simp
  next
    case False
    from calcLines_config[OF cy False] normalize_lookup[OF ny assms(3)] show ?thesis
      by simp
  qed
  from assms(2) x y show ?thesis
    by (auto simp: axis_of_def g')
qed

lemma axis_of_merge_opts:
  assumes "truthy opts" and "name = ''x'' \<or> name = ''y'' \<or> name = ''r'' \<or> name = ''a''"
  shows "axis_of (merge_opts h g opts) name =
           extend_props (axis_of g name) (take_type h (fragment opts name))"
  using assms by (auto simp: axis_of_def merge_opts_def)

lemma map_of_lookup: "k \<in> fst ` set ps \<Longrightarrow> map_of ps k = Some (lookup ps k)"
  by (cases "map_of ps k") (auto simp: lookup_def map_of_eq_None_iff)

lemma update_preset:
  assumes "update h g opts = Inr g'" and "truthy opts"
    and "name = ''x'' \<or> name = ''y'' \<or> name = ''r'' \<or> name = ''a''"
    and "fragment opts name = Obj frag"
    and "truthy (lookup frag ''type'')"
    and "lookup (types h) (ToString h (lookup frag ''type'')) = Obj preset"
    and "distinct (map fst preset)" and "distinct (map fst frag)"
    and "k \<noteq> ''offset''"
    and "k = ''lines'' \<longrightarrow> is_function (lookup preset ''lines'')"
  shows "(k \<in> fst ` set preset \<longrightarrow> lookup (axis_of g' name) k = lookup preset k)
       \<and> (k \<notin> fst ` set preset \<longrightarrow> k \<in> fst ` set frag
            \<longrightarrow> lookup (axis_of g' name) k = lookup frag k)"
proof -
  have m: "lookup (axis_of (merge_opts h g opts) name) j =
           (case map_of preset j of
              Some v \<Rightarrow> v
            | None \<Rightarrow> (case map_of frag j of Some v \<Rightarrow> v | None \<Rightarrow> lookup (axis_of g name) j))"
    for j
  proof -
    have "axis_of (merge_opts h g opts) name =
            extend_props (axis_of g name) (take_type h (Obj frag))"
      using axis_of_merge_opts[OF assms(2,3), of h g] assms(4) by (simp del: take_type.simps)
    then show ?thesis
      by (simp only: lookup_preset_merge[OF assms(5,6,7,8)])
  qed
  have nl: "k = ''lines'' \<longrightarrow> \<not> is_array (lookup (axis_of (merge_opts h g opts) name) ''lines'')"
  proof
    assume "k = ''lines''"
    with assms(10) have f: "is_function (lookup preset ''lines'')" by simp
    then have "map_of preset ''lines'' = Some (lookup preset ''lines'')"
      by (cases "map_of preset ''lines''") (auto simp: lookup_def)
    with f show "\<not> is_array (lookup (axis_of (merge_opts h g opts) name) ''lines'')"
      by (cases "lookup preset ''lines''") (simp_all add: m)
  qed
  have "lookup (axis_of g' name) k = lookup (axis_of (merge_opts h g opts) name) k"
    by (rule update_merge_lookup[OF assms(1,3,9) nl])
  then have e: "lookup (axis_of g' name) k =
           (case map_of preset k of
              Some v \<Rightarrow> v
            | None \<Rightarrow> (case map_of frag k of Some v \<Rightarrow> v | None \<Rightarrow> lookup (axis_of g name) k))"
    by (simp only: m)
  have "lookup (axis_of g' name) k = lookup preset k" if "k \<in> fst ` set preset"
    using e map_of_lookup[OF that] by simp
  moreover have "lookup (axis_of g' name) k = lookup frag k"
    if "k \<notin> fst ` set preset" "k \<in> fst ` set frag"
    using e map_of_lookup[OF that(2)] that(1) by (simp add: map_of_eq_None_iff[symmetric])
  ultimately show ?thesis by blast
qed

section \<open>What pure functions leave in place\<close>

lemma calc_values_lookup:
  assumes "calc_values h lines st = Inr (V, st')" and "k \<noteq> ''values''"
    and "leaves_state h (lookup lines ''lines'')"
  shows "lookup st' k = lookup st k"
proof -
  from assms(1) obtain st0 where
    e: "st' = put st0 ''values'' V" and
    b: "if is_function (lookup lines ''lines'')
        then call h (lookup lines ''lines'') st = Inr (V, st0)
        else V = js_or (lookup lines ''lines'') (Arr []) \<and> st0 = st"
    by (rule calc_values_cases)
  from b leaves_stateD[OF assms(3)] have "st0 = st"
    by (auto split: if_splits)
  with e assms(2) show ?thesis by (simp add: lookup_put)
qed

lemma calc_subvalues_lookup:
  assumes "calc_subvalues h lines V st = Inr st'"
    and "k \<noteq> ''subvalues''" and "k \<noteq> ''scale''"
    and "leaves_state h (lookup lines ''lines'')"
    and "leaves_state h (lookup lines ''sublines'')"
  shows "lookup st' k = lookup st k"
proof -
  from assms(1) obtain SV st0 where
    e: "st' = put st0 ''subvalues'' SV" and
    b: "if is_function (lookup lines ''sublines'')
     then call h (lookup lines ''sublines'') st = Inr (SV, st0)
     else if (strict_eq (lookup lines ''sublines'') (Bool True)
              \<or> strict_eq (lookup lines ''sublines'') Undefined)
             \<and> is_function (lookup lines ''lines'')
     then (\<exists>fs kept st1.
             call h (lookup lines ''lines'')
               (put st ''scale'' (js_div h (lookup st ''scale'') (Number (Fin 3))))
               = Inr (Arr fs, st1)
             \<and> filter_found h V fs = Inr kept \<and> SV = Arr kept
             \<and> st0 = put st1 ''scale'' (lookup st ''scale''))
     else SV = lookup lines ''sublines'' \<and> st0 = st"
    by (rule calc_subvalues_cases)
  have "lookup st0 k = lookup st k"
  proof (cases "is_function (lookup lines ''sublines'')")
    case True
    with b have "call h (lookup lines ''sublines'') st = Inr (SV, st0)" by simp
    from leaves_stateD[OF assms(5) this] show ?thesis by simp
  next
    case nf: False
    show ?thesis
    proof (cases "(strict_eq (lookup lines ''sublines'') (Bool True)
              \<or> strict_eq (lookup lines ''sublines'') Undefined)
             \<and> is_function (lookup lines ''lines'')")
      case True
      with nf b obtain fs st1 where
        c: "call h (lookup lines ''lines'')
               (put st ''scale'' (js_div h (lookup st ''scale'') (Number (Fin 3))))
               = Inr (Arr fs, st1)" and
        t: "st0 = put st1 ''scale'' (lookup st ''scale'')"
        by auto
      from leaves_stateD[OF assms(4) c] t assms(3) show ?thesis
        by (simp add: lookup_put)
    next
      case False
      with nf b show ?thesis by (auto simp del: strict_eq.simps)
    qed
  qed
  with e assms(2) show ?thesis by (simp add: lookup_put)
qed

lemma calc_labels_lookup:
  assumes "calc_labels h lines V st = Inr (L, st')" and "k \<noteq> ''labels''"
    and "leaves_state h (lookup lines ''labels'')"
  shows "lookup st' k = lookup st k"
proof -
  from assms(1) obtain st0 where
    e: "st' = put st0 ''labels'' L" and
    b: "if strict_eq (lookup lines ''labels'') (Bool True) then L = V \<and> st0 = st
     else if is_function (lookup lines ''labels'')
     then call h (lookup lines ''labels'') st = Inr (L, st0)
     else if is_array (lookup lines ''labels'') then L = lookup lines ''labels'' \<and> st0 = st
     else thn (get V ''length'') Array_fill_null = Inr L \<and> st0 = st"
    by (rule calc_labels_cases)
  from b leaves_stateD[OF assms(3)] have "st0 = st"
    by (auto simp del: strict_eq.simps split: if_splits)
  with e assms(2) show ?thesis by (simp add: lookup_put)
qed

lemma convert_hashmap_lookup:
  assumes "convert_hashmap h lines V L st = Inr (lines', st')"
    and "k \<noteq> ''labels''" and "k \<noteq> ''values''" and "k \<noteq> ''lines''"
  shows "lookup st' k = lookup st k"
  using assms(1)
  by (cases rule: convert_hashmap_cases) (simp_all add: lookup_put assms(2,3,4))

text \<open>
  The range, the offset and the label colour in the state that calcLines returns, when
  the functions called after \<open>getRange\<close> are pure: the range is what \<open>getRange\<close>
  returned, the offset is clamped into its window, and the label colour is whatever
  \<open>getRange\<close> left in \<open>state.color\<close>.
\<close>

lemma calcLines_frame:
  assumes "calcLines h lines vp = Inr (lines', state)"
    and "leaves_state h (lookup lines ''padding'')"
    and "leaves_state h (lookup lines ''lines'')"
    and "leaves_state h (lookup lines ''sublines'')"
    and "leaves_state h (lookup lines ''labels'')"
  obtains rng st0 where
    "call h (lookup lines ''getRange'')
       [(''lines'', Obj lines), (''viewport'', vp), (''grid'', Host ''grid'')] = Inr (rng, st0)"
    "lookup state ''range'' = rng"
    "lookup state ''offset'' =
       clamp h
         (js_sub h (lookup lines ''offset'')
            (js_mul h rng (clamp h (lookup lines ''origin'') (Number (Fin 0)) (Number (Fin 1)))))
         (Math_max h (lookup lines ''min'') (Number (fl (- MAX_VALUE + 1))))
         (js_sub h (Math_min h (lookup lines ''max'') (Number (Fin MAX_VALUE))) rng)"
    "lookup state ''labelColor'' = lookup st0 ''color''"
proof -
  from assms(1) obtain s1 s2 s3 s4 s5 s6 V L where
    s1: "calc_offset h lines vp = Inr s1" and
    s2: "calc_padding h lines (calc_style h lines s1) = Inr s2" and
    s3: "calc_font h lines s2 = Inr s3" and
    s4: "calc_values h lines s3 = Inr (V, s4)" and
    s5: "calc_subvalues h lines V s4 = Inr s5" and
    s6: "calc_labels h lines V s5 = Inr (L, s6)" and
    s7: "convert_hashmap h lines V L s6 = Inr (lines', state)"
    by (rule calcLines_steps)
  have keep: "lookup state k = lookup (calc_style h lines s1) k"
    if "k = ''offset'' \<or> k = ''range'' \<or> k = ''labelColor''" for k
  proof -
    have "lookup s2 k = lookup (calc_style h lines s1) k"
      by (rule calc_padding_lookup[OF s2 _ assms(2)]) (use that in auto)
    moreover have "lookup s3 k = lookup s2 k"
      by (rule calc_font_lookup[OF s3]) (use that in auto)
    moreover have "lookup s4 k = lookup s3 k"
      by (rule calc_values_lookup[OF s4 _ assms(3)]) (use that in auto)
    moreover have "lookup s5 k = lookup s4 k"
      by (rule calc_subvalues_lookup[OF s5 _ _ assms(3,4)]) (use that in auto)
    moreover have "lookup s6 k = lookup s5 k"
      by (rule calc_labels_lookup[OF s6 _ assms(5)]) (use that in auto)
    moreover have "lookup state k = lookup s6 k"
      by (rule convert_hashmap_lookup[OF s7]) (use that in auto)
    ultimately show ?thesis by simp
  qed
  from calc_offset_lookup[OF s1] obtain rng st0 where
    c: "call h (lookup lines ''getRange'')
          [(''lines'', Obj lines), (''viewport'', vp), (''grid'', Host ''grid'')] = Inr (rng, st0)"
    and l: "\<And>k. lookup s1 k =
           (if k = ''offset'' then
              clamp h
                (js_sub h (lookup lines ''offset'')
                   (js_mul h rng (clamp h (lookup lines ''origin'') (Number (Fin 0)) (Number (Fin 1)))))
                (Math_max h (lookup lines ''min'') (Number (fl (- MAX_VALUE + 1))))
                (js_sub h (Math_min h (lookup lines ''max'') (Number (Fin MAX_VALUE))) rng)
            else if k = ''range'' then rng
            else lookup st0 k)"
    by blast
  have r: "lookup state ''range'' = rng"
    using keep[of "''range''"] l[of "''range''"] by (simp add: calc_style_lookup)
  have o: "lookup state ''offset'' =
       clamp h
         (js_sub h (lookup lines ''offset'')
            (js_mul h rng (clamp h (lookup lines ''origin'') (Number (Fin 0)) (Number (Fin 1)))))
         (Math_max h (lookup lines ''min'') (Number (fl (- MAX_VALUE + 1))))
         (js_sub h (Math_min h (lookup lines ''max'') (Number (Fin MAX_VALUE))) rng)"
    using keep[of "''offset''"] l[of "''offset''"] by (simp add: calc_style_lookup)
  have lc: "lookup state ''labelColor'' = lookup st0 ''color''"
    using keep[of "''labelColor''"] l[of "''color''"] by (simp add: calc_style_lookup)
  show thesis by (rule that[OF c r o lc])
qed

section \<open>The sample host and its axes\<close>

lemma EPSILON_pos: "0 < EPSILON"
  by (simp add: EPSILON_def)

lemma MAX_VALUE_big: "2 ^ 1023 < MAX_VALUE"
  by (simp add: MAX_VALUE_def)

lemma lookup_defaults_literal:
  "lookup defaults_literal k =
     (if k = ''type'' then Str ''linear''
      else if k = ''name'' then Str ''''
      else if k = ''units'' then Str ''''
      else if k = ''min'' then Number NInf
      else if k = ''max'' then Number PInf
      else if k = ''offset'' then Number (Fin 0)
      else if k = ''origin'' then Number (Fin (1 / 2))
      else if k = ''scale'' then Number (Fin 1)
      else if k = ''minScale'' then Number (Fin EPSILON)
      else if k = ''maxScale'' then Number (Fin MAX_VALUE)
      else if k = ''zoom'' then Bool True
      else if k = ''pan'' then Bool True
      else if k = ''labels'' then Bool True
      else if k = ''fontSize'' then Str ''10pt''
      else if k = ''fontFamily'' then Str ''sans-serif''
      else if k = ''padding'' then Number (Fin 0)
      else if k = ''color'' then Str ''rgb(0,0,0,1)''
      else if k = ''lines'' then Bool True
      else if k = ''sublines'' then Bool True
      else if k = ''tick'' then Number (Fin 8)
      else if k = ''subtick'' then Number (Fin 0)
      else if k = ''tickAlign'' then Number (Fin (1 / 2))
      else if k = ''lineWidth'' then Number (Fin 1)
      else if k = ''distance'' then Number (Fin 120)
      else if k = ''style'' then Str ''lines''
      else if k = ''lineColor'' then Number (Fin (4 / 10))
      else if k = ''sublineColor'' then Number (Fin (1 / 10))
      else if k = ''axis'' then Bool True
      else if k = ''axisOrigin'' then Number (Fin 0)
      else if k = ''axisWidth'' then Number (Fin 2)
      else if k = ''axisColor'' then Number (Fin 1)
      else if k = ''getCoords'' then Fun Default_getCoords
      else if k = ''getRatio'' then Fun Default_getRatio
      else Undefined)"
  using EPSILON_pos MAX_VALUE_big
  by (simp add: defaults_literal_def lookup_Cons lookup_Nil js_or_def)

lemma sample_host_sel:
  "closure sample_host f st =
     (if f = Closure 0 1 then sample_ticks st
      else if f = Closure 1 1 then colouring_range st
      else if f = Closure 2 1 then writing_ticks st
      else if f = Closure 3 1 then mapping_labels st
      else Inr (Undefined, st))"
  "types sample_host = [(''linear'', Obj [(''lines'', Fun (Closure 0 1))])]"
  "alpha sample_host c a = c"
  "parseUnit sample_host v = Arr [Number (Fin 10), Str ''pt'']"
  "toPx sample_host u = Number (Fin (4 / 3))"
  "isBrowser sample_host = True"
  "parseFloat sample_host s = (if s = ''1'' then Fin 1 else if s = ''2'' then Fin 2 else NaN)"
  "stringToNumber sample_host s = NaN"
  "objectToString sample_host v = ''[object Object]''"
  by (simp_all add: sample_host_def)

lemma lookup_defaults_sample:
  "lookup (defaults sample_host) k =
     (if k = ''lines'' then Fun (Closure 0 1) else lookup defaults_literal k)"
  by (simp add: lookup_defaults sample_host_sel lookup_Cons)

lemma map_of_defaults_sample_disabled: "map_of (defaults sample_host) ''disabled'' = None"
  by (simp add: map_of_defaults_disabled sample_host_sel lookup_Cons)

lemma lookup_sample_x:
  "lookup sample_x k =
     (if k = ''disabled'' then Bool False else lookup (Grid_prototype_x sample_host) k)"
  by (simp add: sample_x_def lookup_create_axis[OF distinct_protos(1)])

lemma lookup_sample_y:
  "lookup sample_y k =
     (if k = ''disabled'' then Bool False else lookup (Grid_prototype_y sample_host) k)"
  by (simp add: sample_y_def lookup_create_axis[OF distinct_protos(2)])

lemma sample_ticks_generator: "tick_generator sample_host (Fun (Closure 0 1))"
proof -
  have "\<exists>vs st'. sample_ticks st = Inr (Arr vs, st') \<and> length vs < 2 ^ 32" for st
    by (cases "lookup st ''scale''") (simp_all add: sample_ticks_def)
  then show ?thesis
    by (simp add: tick_generator_def sample_host_sel)
qed

lemma sample_ticks_pure: "leaves_state sample_host (Fun (Closure 0 1))"
proof -
  have "st' = st" if "sample_ticks st = Inr (r, st')" for st r st'
    using that by (cases "lookup st ''scale''") (simp_all add: sample_ticks_def)
  then show ?thesis
    by (simp add: leaves_state_def sample_host_sel)
qed

lemma plain_sample_x: "plain_axis sample_host sample_viewport sample_x"
  using sample_ticks_generator
  by (simp add: plain_axis_def sample_viewport_def lookup_sample_x lookup_proto_x
        lookup_defaults_sample lookup_defaults_literal sample_host_sel)

lemma plain_sample_y: "plain_axis sample_host sample_viewport sample_y"
  using sample_ticks_generator
  by (simp add: plain_axis_def sample_viewport_def lookup_sample_y lookup_proto_y
        lookup_defaults_sample lookup_defaults_literal sample_host_sel)

lemma lookup_extend_Obj:
  "distinct (map fst ps) \<Longrightarrow>
   lookup (extend t [Obj ps]) k = (case map_of ps k of Some v \<Rightarrow> v | None \<Rightarrow> lookup t k)"
  by (simp add: extend_Cons extend_Nil lookup_assign_Obj)

lemma lookup_sample_labelled_x:
  "lookup sample_labelled_x k =
     (if k = ''lines'' then Arr [Number (Fin 1), Number (Fin 2)]
      else if k = ''labels'' then Arr [Str ''a'']
      else lookup sample_x k)"
  by (simp add: sample_labelled_x_def lookup_extend_Obj)

lemma plain_sample_labelled_x: "plain_axis sample_host sample_viewport sample_labelled_x"
  by (simp add: plain_axis_def sample_viewport_def lookup_sample_labelled_x lookup_sample_x
        lookup_proto_x lookup_defaults_sample lookup_defaults_literal sample_host_sel)

section \<open>What the constructor returns\<close>

lemma fragment_Obj: "fragment (Obj ps) k = lookup ps k"
  by (simp add: fragment_def)

lemma Grid_browser:
  assumes "isBrowser h"
  shows "Grid h vp opts =
     update h
       \<lparr>this_x = create_axis (Grid_prototype_x h) (lookup (default_coords opts) ''x''),
        this_y = create_axis (Grid_prototype_y h) (lookup (default_coords opts) ''y''),
        this_r = create_axis (Grid_prototype_r h) (lookup (default_coords opts) ''r''),
        this_a = create_axis (Grid_prototype_a h) (lookup (default_coords opts) ''a''),
        viewport = vp, state_x = Undefined, state_y = Undefined\<rparr>
       (Obj (default_coords opts))"
  using assms by (simp add: Grid_def Let_def)

text \<open>The \<open>disabled\<close> flag of an axis after the merge that update starts with: the
  constructor's value, unless the options fragment is an object that sets the key.\<close>

lemma disabled_constructed:
  assumes "map_of (defaults h) ''disabled'' = None"
  shows "lookup (extend_props (create_axis (Grid_prototype_x h) Undefined) Undefined)
           ''disabled'' = Bool True"
    "lookup (extend_props (create_axis (Grid_prototype_y h) Undefined) Undefined)
           ''disabled'' = Bool True"
    "lookup (extend_props (create_axis (Grid_prototype_r h) Undefined) Undefined)
           ''disabled'' = Bool True"
    "lookup (extend_props (create_axis (Grid_prototype_a h) Undefined) Undefined)
           ''disabled'' = Bool True"
  using assms
  by (simp_all add: lookup_extend_props lookup_create_axis distinct_protos map_of_proto_disabled)

lemma disabled_constructed_Null:
  "lookup (extend_props (create_axis proto Null) Null) ''disabled'' = Bool True"
  by (simp add: lookup_extend_props create_axis_def Let_def lookup_put)

lemma disabled_constructed_True:
  "lookup (extend_props (create_axis proto (Bool True)) (Bool True)) ''disabled''
     = Bool False"
  by (simp add: lookup_extend_props create_axis_def Let_def lookup_put)

lemma eq_null_cases: "eq_null v \<longleftrightarrow> v = Undefined \<or> v = Null"
  by (cases v) simp_all

text \<open>
  The \<open>disabled\<close> flags after construction. If all four axis keys are missing (or
  \<open>null\<close>), x and y are switched on and r and a stay off; otherwise every axis whose
  key is missing is off. The \<open>linear\<close> preset is assumed not to set \<open>disabled\<close>
  itself.
\<close>

lemma Grid_disabled:
  assumes "Grid h vp opts = Inr g" and "isBrowser h"
    and "''disabled'' \<notin> fst ` set (own_props (lookup (types h) ''linear''))"
  shows "if eq_null (lookup opts ''r'') \<and> eq_null (lookup opts ''a'')
            \<and> eq_null (lookup opts ''y'') \<and> eq_null (lookup opts ''x'')
         then lookup (this_x g) ''disabled'' = Bool False
            \<and> lookup (this_y g) ''disabled'' = Bool False
            \<and> lookup (this_r g) ''disabled'' = Bool True
            \<and> lookup (this_a g) ''disabled'' = Bool True
         else (lookup opts ''x'' = Undefined \<longrightarrow> lookup (this_x g) ''disabled'' = Bool True)
            \<and> (lookup opts ''y'' = Undefined \<longrightarrow> lookup (this_y g) ''disabled'' = Bool True)
            \<and> (lookup opts ''r'' = Undefined \<longrightarrow> lookup (this_r g) ''disabled'' = Bool True)
            \<and> (lookup opts ''a'' = Undefined \<longrightarrow> lookup (this_a g) ''disabled'' = Bool True)"
proof -
  define o' where "o' = default_coords opts"
  define g0 where "g0 =
       \<lparr>this_x = create_axis (Grid_prototype_x h) (lookup o' ''x''),
        this_y = create_axis (Grid_prototype_y h) (lookup o' ''y''),
        this_r = create_axis (Grid_prototype_r h) (lookup o' ''r''),
        this_a = create_axis (Grid_prototype_a h) (lookup o' ''a''),
        viewport = vp, state_x = Undefined, state_y = Undefined\<rparr>"
  from assms(1,2) have u: "update h g0 (Obj o') = Inr g"
    by (simp add: Grid_browser g0_def o'_def)
  have none: "map_of (defaults h) ''disabled'' = None"
    using assms(3)
    by (simp add: map_of_defaults_disabled map_of_eq_None_iff)
  have x: "lookup (this_x g) ''disabled'' =
     lookup (extend_props (create_axis (Grid_prototype_x h) (lookup o' ''x''))
               (take_type h (lookup o' ''x''))) ''disabled''"
    using update_lookup_x[OF u, of "''disabled''"]
    by (simp add: merge_opts_def g0_def fragment_Obj)
  have y: "lookup (this_y g) ''disabled'' =
     lookup (extend_props (create_axis (Grid_prototype_y h) (lookup o' ''y''))
               (take_type h (lookup o' ''y''))) ''disabled''"
    using update_lookup_y[OF u, of "''disabled''"]
    by (simp add: merge_opts_def g0_def fragment_Obj)
  have r: "lookup (this_r g) ''disabled'' =
     lookup (extend_props (create_axis (Grid_prototype_r h) (lookup o' ''r''))
               (take_type h (lookup o' ''r''))) ''disabled''"
    using update_r_a(1)[OF u] by (simp add: merge_opts_def g0_def fragment_Obj)
  have a: "lookup (this_a g) ''disabled'' =
     lookup (extend_props (create_axis (Grid_prototype_a h) (lookup o' ''a''))
               (take_type h (lookup o' ''a''))) ''disabled''"
    using update_r_a(2)[OF u] by (simp add: merge_opts_def g0_def fragment_Obj)
  show ?thesis
  proof (cases "eq_null (lookup opts ''r'') \<and> eq_null (lookup opts ''a'')
            \<and> eq_null (lookup opts ''y'') \<and> eq_null (lookup opts ''x'')")
    case True
    then have o: "lookup o' ''x'' = Bool True" "lookup o' ''y'' = Bool True"
      "lookup o' ''r'' = lookup opts ''r''" "lookup o' ''a'' = lookup opts ''a''"
      by (simp_all add: o'_def default_coords_def lookup_put)
    from True have "lookup opts ''r'' = Undefined \<or> lookup opts ''r'' = Null"
      "lookup opts ''a'' = Undefined \<or> lookup opts ''a'' = Null"
      by (simp_all add: eq_null_cases)
    with x y r a o True show ?thesis
      by (auto simp: disabled_constructed_True disabled_constructed_Null
            disabled_constructed[OF none])
  next
    case False
    then have "o' = opts" by (auto simp: o'_def default_coords_def)
    with x y r a False show ?thesis
      by (auto simp: disabled_constructed[OF none])
  qed
qed

lemma Grid_plain:
  assumes "isBrowser h"
    and "plain_axis h vp (extend_props (create_axis (Grid_prototype_x h) (lookup (default_coords opts) ''x''))
                            (take_type h (lookup (default_coords opts) ''x'')))"
    and "plain_axis h vp (extend_props (create_axis (Grid_prototype_y h) (lookup (default_coords opts) ''y''))
                            (take_type h (lookup (default_coords opts) ''y'')))"
  shows "\<exists>g. Grid h vp opts = Inr g"
proof -
  let ?g0 = "\<lparr>this_x = create_axis (Grid_prototype_x h) (lookup (default_coords opts) ''x''),
        this_y = create_axis (Grid_prototype_y h) (lookup (default_coords opts) ''y''),
        this_r = create_axis (Grid_prototype_r h) (lookup (default_coords opts) ''r''),
        this_a = create_axis (Grid_prototype_a h) (lookup (default_coords opts) ''a''),
        viewport = vp, state_x = Undefined, state_y = Undefined\<rparr>"
  have "\<exists>g. update h ?g0 (Obj (default_coords opts)) = Inr g"
    using update_plain[of h ?g0 "Obj (default_coords opts)"] assms(2,3)
    by (auto simp: merge_opts_def fragment_Obj)
  then show ?thesis by (simp add: Grid_browser[OF assms(1)])
qed

text \<open>An axis switched on with \<open>true\<close>, and an axis left out, on the sample host.\<close>

lemma plain_switched_on:
  "plain_axis sample_host sample_viewport
     (extend_props (create_axis (Grid_prototype_x sample_host) (Bool True)) (Bool True))"
  "plain_axis sample_host sample_viewport
     (extend_props (create_axis (Grid_prototype_y sample_host) (Bool True)) (Bool True))"
proof -
  have "plain_axis sample_host sample_viewport (extend_props sample_x (Bool True))
          = plain_axis sample_host sample_viewport sample_x"
    by (rule plain_axis_cong) (simp add: lookup_extend_props)
  then show "plain_axis sample_host sample_viewport
     (extend_props (create_axis (Grid_prototype_x sample_host) (Bool True)) (Bool True))"
    using plain_sample_x by (simp add: sample_x_def)
  have "plain_axis sample_host sample_viewport (extend_props sample_y (Bool True))
          = plain_axis sample_host sample_viewport sample_y"
    by (rule plain_axis_cong) (simp add: lookup_extend_props)
  then show "plain_axis sample_host sample_viewport
     (extend_props (create_axis (Grid_prototype_y sample_host) (Bool True)) (Bool True))"
    using plain_sample_y by (simp add: sample_y_def)
qed

lemma plain_left_out:
  "plain_axis sample_host sample_viewport
     (extend_props (create_axis (Grid_prototype_x sample_host) Undefined) Undefined)"
  "plain_axis sample_host sample_viewport
     (extend_props (create_axis (Grid_prototype_y sample_host) Undefined) Undefined)"
  using sample_ticks_generator
  by (simp_all add: plain_axis_def sample_viewport_def lookup_extend_props
        lookup_create_axis distinct_protos lookup_proto_x lookup_proto_y
        lookup_defaults_sample lookup_defaults_literal sample_host_sel)

lemma sample_linear_preset:
  "''disabled'' \<notin> fst ` set (own_props (lookup (types sample_host) ''linear''))"
  by (simp add: sample_host_sel lookup_Cons)

lemma Grid_sample_grid: "Grid sample_host sample_viewport [] = Inr sample_grid"
proof -
  have "\<exists>g. Grid sample_host sample_viewport [] = Inr g"
    by (rule Grid_plain)
       (simp_all add: sample_host_sel default_coords_def lookup_Nil lookup_Cons plain_switched_on)
  then show ?thesis by (auto simp: sample_grid_def)
qed

text \<open>Construction on plain axes, seen from outside.\<close>

lemma Grid_plain_result:
  assumes "isBrowser h"
    and "plain_axis h vp (extend_props (create_axis (Grid_prototype_x h) (lookup (default_coords opts) ''x''))
                            (take_type h (lookup (default_coords opts) ''x'')))"
    and "plain_axis h vp (extend_props (create_axis (Grid_prototype_y h) (lookup (default_coords opts) ''y''))
                            (take_type h (lookup (default_coords opts) ''y'')))"
  shows "\<exists>g sx sy.
    Grid h vp opts = Inr g
    \<and> normalize h vp (extend_props (create_axis (Grid_prototype_x h) (lookup (default_coords opts) ''x''))
                            (take_type h (lookup (default_coords opts) ''x''))) = Inr (this_x g)
    \<and> normalize h vp (extend_props (create_axis (Grid_prototype_y h) (lookup (default_coords opts) ''y''))
                            (take_type h (lookup (default_coords opts) ''y''))) = Inr (this_y g)
    \<and> calcLines h (this_x g) vp = Inr (this_x g, sx)
    \<and> calcLines h (this_y g) vp = Inr (this_y g, sy)
    \<and> state_x g = Obj sx \<and> state_y g = Obj sy \<and> viewport g = vp"
proof -
  let ?g0 = "\<lparr>this_x = create_axis (Grid_prototype_x h) (lookup (default_coords opts) ''x''),
        this_y = create_axis (Grid_prototype_y h) (lookup (default_coords opts) ''y''),
        this_r = create_axis (Grid_prototype_r h) (lookup (default_coords opts) ''r''),
        this_a = create_axis (Grid_prototype_a h) (lookup (default_coords opts) ''a''),
        viewport = vp, state_x = Undefined, state_y = Undefined\<rparr>"
  have px: "plain_axis h (viewport ?g0) (this_x (merge_opts h ?g0 (Obj (default_coords opts))))"
    using assms(2) by (simp add: merge_opts_def fragment_Obj)
  have py: "plain_axis h (viewport ?g0) (this_y (merge_opts h ?g0 (Obj (default_coords opts))))"
    using assms(3) by (simp add: merge_opts_def fragment_Obj)
  from px py obtain g sx sy where
    "update h ?g0 (Obj (default_coords opts)) = Inr g"
    "normalize h (viewport ?g0) (this_x (merge_opts h ?g0 (Obj (default_coords opts)))) = Inr (this_x g)"
    "normalize h (viewport ?g0) (this_y (merge_opts h ?g0 (Obj (default_coords opts)))) = Inr (this_y g)"
    "calcLines h (this_x g) (viewport ?g0) = Inr (this_x g, sx)"
    "calcLines h (this_y g) (viewport ?g0) = Inr (this_y g, sy)"
    "state_x g = Obj sx" "state_y g = Obj sy" "viewport g = viewport ?g0"
    by (rule update_plain_result)
  then show ?thesis
    by (simp add: Grid_browser[OF assms(1)] merge_opts_def fragment_Obj)
qed

text \<open>The run of the constructor on \<open>{x: {disabled: true, lines: [1, 2]}}\<close>.\<close>

lemma lookup_disabled_x_merged:
  "lookup (extend_props (create_axis (Grid_prototype_x sample_host) (lookup disabled_x_opts ''x''))
             (take_type sample_host (lookup disabled_x_opts ''x''))) k =
     (if k = ''disabled'' then Bool True
      else if k = ''lines'' then Arr [Number (Fin 1), Number (Fin 2)]
      else lookup (Grid_prototype_x sample_host) k)"
  by (simp add: disabled_x_opts_def lookup_Cons lookup_Nil lookup_extend_props
        lookup_create_axis distinct_protos)

lemma Grid_disabled_x:
  obtains g st where
    "Grid sample_host sample_viewport disabled_x_opts = Inr g"
    "lookup (this_x g) ''disabled'' = Bool True"
    "lookup (this_x g) ''lines'' = Arr [Number (Fin 1), Number (Fin 2)]"
    "state_x g = Obj st"
    "lookup st ''values'' = Arr [Number (Fin 1), Number (Fin 2)]"
proof -
  have nn: "\<not> (eq_null (lookup disabled_x_opts ''r'') \<and> eq_null (lookup disabled_x_opts ''a'')
            \<and> eq_null (lookup disabled_x_opts ''y'') \<and> eq_null (lookup disabled_x_opts ''x''))"
    by (simp add: disabled_x_opts_def lookup_Cons)
  have dc: "default_coords disabled_x_opts = disabled_x_opts"
    unfolding default_coords_def using nn by (rule if_not_P)
  have y: "lookup disabled_x_opts ''y'' = Undefined"
    by (simp add: disabled_x_opts_def lookup_Cons lookup_Nil)
  have px: "plain_axis sample_host sample_viewport
              (extend_props (create_axis (Grid_prototype_x sample_host) (lookup disabled_x_opts ''x''))
                 (take_type sample_host (lookup disabled_x_opts ''x'')))"
    by (simp add: plain_axis_def sample_viewport_def lookup_disabled_x_merged lookup_proto_x
          lookup_defaults_sample lookup_defaults_literal sample_host_sel)
  have py: "plain_axis sample_host sample_viewport
              (extend_props (create_axis (Grid_prototype_y sample_host) (lookup disabled_x_opts ''y''))
                 (take_type sample_host (lookup disabled_x_opts ''y'')))"
    using plain_left_out(2) by (simp add: y)
  have "isBrowser sample_host" by (simp add: sample_host_sel)
  from Grid_plain_result[of sample_host sample_viewport disabled_x_opts, unfolded dc, OF this px py]
  obtain g sx sy where
    g: "Grid sample_host sample_viewport disabled_x_opts = Inr g" and
    n: "normalize sample_host sample_viewport
          (extend_props (create_axis (Grid_prototype_x sample_host) (lookup disabled_x_opts ''x''))
             (take_type sample_host (lookup disabled_x_opts ''x''))) = Inr (this_x g)" and
    c: "calcLines sample_host (this_x g) sample_viewport = Inr (this_x g, sx)" and
    s: "state_x g = Obj sx"
    by blast
  have d: "lookup (this_x g) ''disabled'' = Bool True"
    using normalize_lookup[OF n, of "''disabled''"] by (simp add: lookup_disabled_x_merged)
  have l: "lookup (this_x g) ''lines'' = Arr [Number (Fin 1), Number (Fin 2)]"
    using normalize_lookup[OF n, of "''lines''"] by (simp add: lookup_disabled_x_merged)
  have "lookup (this_x g) ''sublines'' = Bool True" "lookup (this_x g) ''labels'' = Bool True"
    using normalize_lookup[OF n, of "''sublines''"] normalize_lookup[OF n, of "''labels''"]
    by (simp_all add: lookup_disabled_x_merged lookup_proto_x lookup_defaults_sample
          lookup_defaults_literal)
  then have p: "leaves_state sample_host (lookup (this_x g) ''sublines'')"
    "leaves_state sample_host (lookup (this_x g) ''labels'')"
    by (simp_all add: leaves_state_value)
  from that[OF g d l s calcLines_values_literal[OF c l p]] show thesis .
qed

section \<open>Arithmetic on concrete numbers\<close>

lemma fl_small: "\<bar>r\<bar> \<le> 2 ^ 1023 \<Longrightarrow> fl r = Fin r"
  using MAX_VALUE_big by (auto simp: fl_def)

lemmas js_arith =
  js_sub_def js_mul_def js_div_def js_neg_def js_add_def js_gt_def js_or_def
  Math_max_def Math_min_def clamp_def num_sub_def num_max_def num_min_def inf_times_def

text \<open>The sample grid: both axes as constructed, with offset 0.\<close>

lemma sample_grid_facts:
  shows "viewport sample_grid = sample_viewport"
    and "lookup (this_x sample_grid) k = lookup sample_x k"
    and "lookup (this_y sample_grid) k = lookup sample_y k"
proof -
  have dc: "default_coords [] = [(''x'', Bool True), (''y'', Bool True)]"
    by (simp add: default_coords_def lookup_Nil)
  have "isBrowser sample_host" by (simp add: sample_host_sel)
  from Grid_plain_result[of sample_host sample_viewport "[]", OF this]
  obtain g sx sy where
    g: "Grid sample_host sample_viewport [] = Inr g" and
    nx: "normalize sample_host sample_viewport
           (extend_props (create_axis (Grid_prototype_x sample_host) (lookup (default_coords []) ''x''))
              (take_type sample_host (lookup (default_coords []) ''x''))) = Inr (this_x g)" and
    ny: "normalize sample_host sample_viewport
           (extend_props (create_axis (Grid_prototype_y sample_host) (lookup (default_coords []) ''y''))
              (take_type sample_host (lookup (default_coords []) ''y''))) = Inr (this_y g)" and
    vp: "viewport g = sample_viewport"
    using plain_switched_on by (auto simp: dc lookup_Cons)
  from g have sg: "sample_grid = g"
    by (simp add: sample_grid_def)
  from vp sg show "viewport sample_grid = sample_viewport" by simp
  have mx: "extend_props (create_axis (Grid_prototype_x sample_host) (lookup (default_coords []) ''x''))
              (take_type sample_host (lookup (default_coords []) ''x'')) = extend_props sample_x (Bool True)"
    by (simp add: dc lookup_Cons sample_x_def)
  have my: "extend_props (create_axis (Grid_prototype_y sample_host) (lookup (default_coords []) ''y''))
              (take_type sample_host (lookup (default_coords []) ''y'')) = extend_props sample_y (Bool True)"
    by (simp add: dc lookup_Cons sample_y_def)
  have ex: "lookup (extend_props sample_x (Bool True)) j = lookup sample_x j" for j
    by (simp add: lookup_extend_props)
  have ey: "lookup (extend_props sample_y (Bool True)) j = lookup sample_y j" for j
    by (simp add: lookup_extend_props)
  have "normalize sample_host sample_viewport (extend_props sample_x (Bool True))
          = Inr (put (extend_props sample_x (Bool True)) ''offset'' (Number (Fin 0)))"
    unfolding sample_viewport_def
    by (subst normalize_enabled(1))
       (simp_all add: ex lookup_sample_x lookup_proto_x lookup_defaults_sample
          lookup_defaults_literal arg_def js_arith fl_small)
  with nx mx sg have "this_x sample_grid = put (extend_props sample_x (Bool True)) ''offset'' (Number (Fin 0))"
    by simp
  then show "lookup (this_x sample_grid) k = lookup sample_x k"
    by (simp add: lookup_put ex lookup_sample_x lookup_proto_x lookup_defaults_sample
          lookup_defaults_literal)
  have "normalize sample_host sample_viewport (extend_props sample_y (Bool True))
          = Inr (put (extend_props sample_y (Bool True)) ''offset'' (Number (Fin 0)))"
    unfolding sample_viewport_def
    by (subst normalize_enabled(2))
       (simp_all add: ey lookup_sample_y lookup_proto_y lookup_defaults_sample
          lookup_defaults_literal arg_def js_arith fl_small)
  with ny my sg have "this_y sample_grid = put (extend_props sample_y (Bool True)) ''offset'' (Number (Fin 0))"
    by simp
  then show "lookup (this_y sample_grid) k = lookup sample_y k"
    by (simp add: lookup_put ey lookup_sample_y lookup_proto_y lookup_defaults_sample
          lookup_defaults_literal)
qed

lemma plain_sample_grid_y: "plain_axis sample_host sample_viewport (this_y sample_grid)"
proof -
  have "plain_axis sample_host sample_viewport (this_y sample_grid)
          = plain_axis sample_host sample_viewport sample_y"
    by (rule plain_axis_cong) (simp add: sample_grid_facts)
  with plain_sample_y show ?thesis by simp
qed

text \<open>An update of the sample grid with a fragment for the x axis only.\<close>

lemma update_sample_grid_x:
  assumes "plain_axis sample_host sample_viewport
             (extend_props (this_x sample_grid) (take_type sample_host fx))"
  shows "\<exists>g' sx.
           update sample_host sample_grid (Obj [(''x'', fx)]) = Inr g'
         \<and> normalize sample_host sample_viewport
               (extend_props (this_x sample_grid) (take_type sample_host fx)) = Inr (this_x g')
         \<and> calcLines sample_host (this_x g') sample_viewport = Inr (this_x g', sx)
         \<and> state_x g' = Obj sx"
proof -
  let ?opts = "Obj [(''x'', fx)]"
  have mx: "this_x (merge_opts sample_host sample_grid ?opts)
              = extend_props (this_x sample_grid) (take_type sample_host fx)"
    by (simp add: merge_opts_def fragment_Obj lookup_Cons)
  have my: "this_y (merge_opts sample_host sample_grid ?opts) = this_y sample_grid"
    by (simp add: merge_opts_def fragment_Obj lookup_Cons lookup_Nil extend_props_def)
  have px: "plain_axis sample_host (viewport sample_grid)
              (this_x (merge_opts sample_host sample_grid ?opts))"
    using assms by (simp add: mx sample_grid_facts(1))
  have py: "plain_axis sample_host (viewport sample_grid)
              (this_y (merge_opts sample_host sample_grid ?opts))"
    using plain_sample_grid_y by (simp add: my sample_grid_facts(1))
  from px py obtain g' sx sy where
    "update sample_host sample_grid ?opts = Inr g'"
    "normalize sample_host (viewport sample_grid)
       (this_x (merge_opts sample_host sample_grid ?opts)) = Inr (this_x g')"
    "normalize sample_host (viewport sample_grid)
       (this_y (merge_opts sample_host sample_grid ?opts)) = Inr (this_y g')"
    "calcLines sample_host (this_x g') (viewport sample_grid) = Inr (this_x g', sx)"
    "calcLines sample_host (this_y g') (viewport sample_grid) = Inr (this_y g', sy)"
    "state_x g' = Obj sx" "state_y g' = Obj sy"
    "viewport g' = viewport sample_grid"
    "this_r g' = this_r (merge_opts sample_host sample_grid ?opts)"
    "this_a g' = this_a (merge_opts sample_host sample_grid ?opts)"
    by (rule update_plain_result)
  then show ?thesis
    by (auto simp: mx sample_grid_facts(1))
qed

text \<open>The update of the sample grid with \<open>{x: {type: 'linear', lines: [5]}}\<close>.\<close>

lemma update_preset_opts:
  obtains g' where
    "update sample_host sample_grid preset_opts = Inr g'"
    "lookup (this_x g') ''lines'' = Fun (Closure 0 1)"
proof -
  let ?frag = "[(''type'', Str ''linear''), (''lines'', Arr [Number (Fin 5)])]"
  have m: "lookup (extend_props (this_x sample_grid) (take_type sample_host (Obj ?frag))) k =
             (if k = ''lines'' then Fun (Closure 0 1)
              else if k = ''type'' then Str ''linear''
              else lookup sample_x k)" for k
    by (subst lookup_preset_merge[where preset = "[(''lines'', Fun (Closure 0 1))]"])
       (simp_all add: lookup_Cons lookup_Nil sample_host_sel sample_grid_facts)
  have "plain_axis sample_host sample_viewport
          (extend_props (this_x sample_grid) (take_type sample_host (Obj ?frag)))"
    unfolding plain_axis_def m
    using sample_ticks_generator
    by (simp add: sample_viewport_def lookup_sample_x lookup_proto_x
          lookup_defaults_sample lookup_defaults_literal sample_host_sel)
  from update_sample_grid_x[OF this] obtain g' sx where
    u: "update sample_host sample_grid (Obj [(''x'', Obj ?frag)]) = Inr g'" and
    n: "normalize sample_host sample_viewport
          (extend_props (this_x sample_grid) (take_type sample_host (Obj ?frag))) = Inr (this_x g')"
    by blast
  have "lookup (this_x g') ''lines'' = Fun (Closure 0 1)"
    using normalize_lookup[OF n, of "''lines''"] by (simp only: m) simp
  with u show thesis
    by (intro that) (simp_all add: preset_opts_def)
qed

section \<open>Arithmetic of the engine on numbers\<close>

lemma MAX_VALUE_pos: "0 < MAX_VALUE"
  using MAX_VALUE_big by (smt (verit) zero_less_power)

lemma fl_bounded: "\<bar>r\<bar> \<le> 2 ^ 1023 \<Longrightarrow> fl r = Fin r"
  using MAX_VALUE_big by (auto simp: fl_def)

lemma fl_not_NaN: "fl r \<noteq> NaN"
  by (simp add: fl_def)

lemma js_on_numbers:
  "js_sub h (Number a) (Number b) = Number (num_sub a b)"
  "js_mul h (Number a) (Number b) = Number (num_mul a b)"
  "js_div h (Number a) (Number b) = Number (num_div a b)"
  "js_add h (Number a) (Number b) = Number (num_add a b)"
  "js_neg h (Number a) = Number (num_neg a)"
  "Math_max h (Number a) (Number b) = Number (num_max a b)"
  "Math_min h (Number a) (Number b) = Number (num_min a b)"
  "js_gt h (Number a) (Number b) = num_lt b a"
  by (simp_all add: js_sub_def js_mul_def js_div_def js_add_def js_neg_def Math_max_def
        Math_min_def js_gt_def)

lemma clamp_on_numbers:
  "clamp h (Number a) (Number mn) (Number mx) =
     Number (if num_lt mn mx then num_max (num_min a mx) mn else num_max (num_min a mn) mx)"
  by (simp add: clamp_def js_on_numbers)

lemma num_le_Fin [simp]: "num_le (Fin a) (Fin b) = (a \<le> b)"
  by auto

text \<open>Clamping between ordered limits gives a number between them.\<close>

lemma clamp_between:
  assumes "a \<noteq> NaN" and "num_le mn mx"
  shows "num_le mn (if num_lt mn mx then num_max (num_min a mx) mn else num_max (num_min a mn) mx)"
    and "num_le (if num_lt mn mx then num_max (num_min a mx) mn else num_max (num_min a mn) mx) mx"
  using assms
  by (cases a; cases mn; cases mx; auto simp: num_max_def num_min_def)+

lemma clamp_inside:
  assumes "num_le mn a" and "num_le a mx"
  shows "(if num_lt mn mx then num_max (num_min a mx) mn else num_max (num_min a mn) mx) = a"
  using assms
  by (cases a; cases mn; cases mx; auto simp: num_max_def num_min_def)

lemma moderate_bounds:
  assumes "moderate a" and "moderate b"
  shows "\<bar>a * b\<bar> \<le> 2 ^ 510" and "\<bar>a + b\<bar> \<le> 2 ^ 256" and "\<bar>a - b\<bar> \<le> 2 ^ 256"
    and "\<bar>a\<bar> \<le> 2 ^ 1023"
proof -
  from assms have a: "\<bar>a\<bar> \<le> 2 ^ 255" and b: "\<bar>b\<bar> \<le> 2 ^ 255"
    by (simp_all add: moderate_def)
  have "\<bar>a * b\<bar> = \<bar>a\<bar> * \<bar>b\<bar>" by (rule abs_mult)
  also have "\<dots> \<le> 2 ^ 255 * 2 ^ 255"
    using a b by (intro mult_mono) simp_all
  finally show "\<bar>a * b\<bar> \<le> 2 ^ 510" by simp
  from a b show "\<bar>a + b\<bar> \<le> 2 ^ 256" "\<bar>a - b\<bar> \<le> 2 ^ 256" by simp_all
  from a show "\<bar>a\<bar> \<le> 2 ^ 1023" by simp
qed

lemma fl_le: "\<bar>r\<bar> \<le> b \<Longrightarrow> b \<le> 2 ^ 1023 \<Longrightarrow> fl r = Fin r"
  by (rule fl_bounded) simp

text \<open>The zoom factor: between -3/4 and 3/4 on a viewport of at least one pixel, and 0
  for an event without wheel movement.\<close>

lemma zoom_of_bounded:
  assumes "height = Number (Fin hh)" and "1 \<le> hh" and "moderate hh"
    and "lookup e ''dz'' = Number z" and "z \<noteq> NaN"
  shows "\<exists>zz. zoom_of h e height = Number (Fin zz) \<and> \<bar>zz\<bar> \<le> 3 / 4"
proof -
  have hb: "\<bar>hh\<bar> \<le> 2 ^ 255" using assms(3) by (simp add: moderate_def)
  have lo: "fl (- hh * (3 / 4)) = Fin (- hh * (3 / 4))"
    by (rule fl_bounded) (use hb in simp)
  have hi: "fl (hh * (3 / 4)) = Fin (hh * (3 / 4))"
    by (rule fl_bounded) (use hb in simp)
  define c where "c = (if num_lt (Fin (- hh * (3 / 4))) (Fin (hh * (3 / 4)))
                       then num_max (num_min (num_neg z) (Fin (hh * (3 / 4)))) (Fin (- hh * (3 / 4)))
                       else num_max (num_min (num_neg z) (Fin (- hh * (3 / 4)))) (Fin (hh * (3 / 4))))"
  have z: "zoom_of h e height = Number (num_div c (Fin hh))"
    using assms(1,4) lo hi by (simp add: zoom_of_def js_on_numbers clamp_on_numbers c_def)
  have nn: "num_neg z \<noteq> NaN" using assms(5) by (cases z) simp_all
  have ord: "num_le (Fin (- hh * (3 / 4))) (Fin (hh * (3 / 4)))"
    using assms(2) by simp
  from clamp_between[OF nn ord] have
    "num_le (Fin (- hh * (3 / 4))) c" "num_le c (Fin (hh * (3 / 4)))"
    by (simp_all add: c_def)
  then obtain cc where cc: "c = Fin cc" "- hh * (3 / 4) \<le> cc" "cc \<le> hh * (3 / 4)"
    by (cases c) auto
  have q: "\<bar>cc / hh\<bar> \<le> 3 / 4"
  proof -
    have "\<bar>cc\<bar> \<le> hh * (3 / 4)" using cc(2,3) by simp
    then have "\<bar>cc\<bar> / hh \<le> 3 / 4"
      using assms(2) by (simp add: pos_divide_le_eq mult.commute)
    then show ?thesis using assms(2) by simp
  qed
  have "num_div c (Fin hh) = Fin (cc / hh)"
    using assms(2) q cc(1) by (simp add: fl_le[OF q])
  with z q show ?thesis by simp
qed

lemma zoom_of_drag:
  assumes "height = Number (Fin hh)" and "1 \<le> hh" and "moderate hh"
    and "lookup e ''dz'' = Number (Fin 0)"
  shows "zoom_of h e height = Number (Fin 0)"
proof -
  have hb: "\<bar>hh\<bar> \<le> 2 ^ 255" using assms(3) by (simp add: moderate_def)
  have lo: "fl (- hh * (3 / 4)) = Fin (- hh * (3 / 4))"
    by (rule fl_bounded) (use hb in simp)
  have hi: "fl (hh * (3 / 4)) = Fin (hh * (3 / 4))"
    by (rule fl_bounded) (use hb in simp)
  have "fl 0 = Fin 0" by (rule fl_bounded) simp
  then show ?thesis
    using assms(1,2,4) lo hi
    by (simp add: zoom_of_def js_on_numbers clamp_on_numbers num_max_def num_min_def)
qed

text \<open>The zoom step with zoom factor 0 leaves a fragment with an admissible scale as it is.\<close>

lemma zoom_axis_neutral:
  assumes "lookup frag ''scale'' = Number (Fin s)" and "moderate s"
    and "lookup frag ''offset'' = Number (Fin p)" and "\<bar>p\<bar> \<le> 2 ^ 1023"
    and "lookup axis ''minScale'' = Number mn" and "lookup axis ''maxScale'' = Number mx"
    and "num_le mn (Fin s)" and "num_le (Fin s) mx"
    and "extent = Number (Fin w)" and "moderate w"
    and "t = Number (Fin tt)"
  shows "lookup (zoom_axis h axis (Number (Fin 0)) extent t frag) ''offset'' = Number (Fin p)"
    and "lookup (zoom_axis h axis (Number (Fin 0)) extent t frag) ''scale'' = Number (Fin s)"
proof -
  have one: "fl (1 - 0) = Fin 1" by (simp add: fl_bounded)
  have s1: "fl (s * 1) = Fin s"
    using moderate_bounds(4)[OF assms(2) assms(2)] by (simp add: fl_bounded)
  have sc: "clamp h (Number (Fin s)) (Number mn) (Number mx) = Number (Fin s)"
    by (simp add: clamp_on_numbers clamp_inside[OF assms(7,8)])
  have z: "fl (s - s) = Fin 0" "fl (w * 0) = Fin 0" "fl (0 * tt) = Fin 0"
    by (simp_all add: fl_bounded)
  have p: "fl (p - 0) = Fin p"
    using assms(4) by (simp add: fl_bounded)
  have "zoom_axis h axis (Number (Fin 0)) extent t frag =
          put (put (put frag ''scale'' (Number (Fin s))) ''scale'' (Number (Fin s)))
            ''offset'' (Number (Fin p))"
    using assms(1,3,5,6,9,11) one s1 sc z p
    by (simp add: zoom_axis_def Let_def lookup_put js_on_numbers num_sub_def)
  then show "lookup (zoom_axis h axis (Number (Fin 0)) extent t frag) ''offset'' = Number (Fin p)"
    and "lookup (zoom_axis h axis (Number (Fin 0)) extent t frag) ''scale'' = Number (Fin s)"
    by (simp_all add: lookup_put)
qed

section \<open>Panning\<close>

lemma zoom_axis_neutral_list:
  assumes "moderate s" and "\<bar>p\<bar> \<le> 2 ^ 1023"
    and "lookup axis ''minScale'' = Number mn" and "lookup axis ''maxScale'' = Number mx"
    and "num_le mn (Fin s)" and "num_le (Fin s) mx"
    and "moderate w"
  shows "zoom_axis h axis (Number (Fin 0)) (Number (Fin w)) (Number (Fin tt))
           [(''offset'', Number (Fin p)), (''scale'', Number (Fin s))]
         = [(''offset'', Number (Fin p)), (''scale'', Number (Fin s))]"
proof -
  have one: "fl (1 - 0) = Fin 1" by (simp add: fl_bounded)
  have s1: "fl (s * 1) = Fin s"
    using moderate_bounds(4)[OF assms(1) assms(1)] by (simp add: fl_bounded)
  have sc: "clamp h (Number (Fin s)) (Number mn) (Number mx) = Number (Fin s)"
    by (simp add: clamp_on_numbers clamp_inside[OF assms(5,6)])
  have z: "fl (s - s) = Fin 0" "fl (w * 0) = Fin 0" "fl (0 * tt) = Fin 0"
    by (simp_all add: fl_bounded)
  have p: "fl (p - 0) = Fin p"
    using assms(2) by (simp add: fl_bounded)
  show ?thesis
    using assms(3,4) one s1 sc z p
    by (simp add: zoom_axis_def Let_def lookup_Cons js_on_numbers num_sub_def)
qed

text \<open>The focal fraction is a finite number for moderate coordinates.\<close>

lemma focal_fraction_finite:
  assumes "moderate px" and "moderate l" and "1 \<le> w" and "0 \<le> og" and "og \<le> 1"
  shows "\<exists>tt. js_sub h (js_div h (js_sub h (Number (Fin px)) (Number (Fin l))) (Number (Fin w)))
                 (js_or (Number (Fin og)) (Number (Fin 0))) = Number (Fin tt)"
    and "\<exists>tt. js_sub h (js_or (Number (Fin og)) (Number (Fin 0)))
                 (js_div h (js_sub h (Number (Fin px)) (Number (Fin l))) (Number (Fin w)))
               = Number (Fin tt)"
proof -
  have d: "\<bar>px - l\<bar> \<le> 2 ^ 256" by (rule moderate_bounds(3)[OF assms(1,2)])
  then have f1: "fl (px - l) = Fin (px - l)" by (simp add: fl_bounded)
  have wa: "\<bar>w\<bar> = w" using assms(3) by simp
  have "\<bar>px - l\<bar> / w \<le> \<bar>px - l\<bar> / 1"
    using assms(3) by (intro frac_le) simp_all
  then have "\<bar>px - l\<bar> / w \<le> \<bar>px - l\<bar>" by simp
  also note d
  finally have "\<bar>px - l\<bar> / w \<le> 2 ^ 256" .
  then have q: "\<bar>(px - l) / w\<bar> \<le> 2 ^ 256"
    by (simp only: abs_divide wa)
  then have f2: "fl ((px - l) / w) = Fin ((px - l) / w)" by (simp add: fl_bounded)
  have og: "js_or (Number (Fin og)) (Number (Fin 0)) = Number (Fin og)"
    by (simp add: js_or_def)
  have big: "(2 ^ 256 + 1 :: real) \<le> 2 ^ 1023" by simp
  have "\<bar>(px - l) / w - og\<bar> \<le> \<bar>(px - l) / w\<bar> + \<bar>og\<bar>"
    by (rule abs_triangle_ineq4)
  also have "\<dots> \<le> 2 ^ 256 + 1"
    using q assms(4,5) by (intro add_mono) simp_all
  also note big
  finally have t1: "\<bar>(px - l) / w - og\<bar> \<le> 2 ^ 1023" .
  then have t2: "\<bar>og - (px - l) / w\<bar> \<le> 2 ^ 1023"
    by (simp only: abs_minus_commute)
  note t1 t2
  then have f3: "fl ((px - l) / w - og) = Fin ((px - l) / w - og)"
    "fl (og - (px - l) / w) = Fin (og - (px - l) / w)"
    by (simp_all add: fl_bounded)
  from assms(3) have w0: "w \<noteq> 0" by simp
  show "\<exists>tt. js_sub h (js_div h (js_sub h (Number (Fin px)) (Number (Fin l))) (Number (Fin w)))
                 (js_or (Number (Fin og)) (Number (Fin 0))) = Number (Fin tt)"
    using f1 f2 f3 w0 by (simp add: og js_on_numbers num_sub_def)
  show "\<exists>tt. js_sub h (js_or (Number (Fin og)) (Number (Fin 0)))
                 (js_div h (js_sub h (Number (Fin px)) (Number (Fin l))) (Number (Fin w)))
               = Number (Fin tt)"
    using f1 f2 f3 w0 by (simp add: og js_on_numbers num_sub_def)
qed

lemma pan_sum_finite:
  assumes "moderate off" and "moderate s" and "moderate d"
  shows "num_add (Fin off) (num_mul (Fin s) (Fin d)) = Fin (off + s * d)"
    and "num_sub (Fin off) (num_mul (Fin s) (Fin d)) = Fin (off - s * d)"
    and "\<bar>off + s * d\<bar> \<le> 2 ^ 1023" and "\<bar>off - s * d\<bar> \<le> 2 ^ 1023"
proof -
  have p: "\<bar>s * d\<bar> \<le> 2 ^ 510" by (rule moderate_bounds(1)[OF assms(2,3)])
  have o: "\<bar>off\<bar> \<le> 2 ^ 255" using assms(1) by (simp add: moderate_def)
  have big: "(2 ^ 255 + 2 ^ 510 :: real) \<le> 2 ^ 1023" by simp
  have "\<bar>off + s * d\<bar> \<le> \<bar>off\<bar> + \<bar>s * d\<bar>" by (rule abs_triangle_ineq)
  also have "\<dots> \<le> 2 ^ 255 + 2 ^ 510" using o p by (rule add_mono)
  also note big
  finally show a: "\<bar>off + s * d\<bar> \<le> 2 ^ 1023" .
  have "\<bar>off - s * d\<bar> \<le> \<bar>off\<bar> + \<bar>s * d\<bar>" by (rule abs_triangle_ineq4)
  also have "\<dots> \<le> 2 ^ 255 + 2 ^ 510" using o p by (rule add_mono)
  also note big
  finally show b: "\<bar>off - s * d\<bar> \<le> 2 ^ 1023" .
  have m: "fl (s * d) = Fin (s * d)" using p by (simp add: fl_bounded)
  show "num_add (Fin off) (num_mul (Fin s) (Fin d)) = Fin (off + s * d)"
    using a by (simp add: m fl_bounded)
  show "num_sub (Fin off) (num_mul (Fin s) (Fin d)) = Fin (off - s * d)"
    using b by (simp add: m num_sub_def fl_bounded)
qed

text \<open>The two branches of the handler on a drag.\<close>

lemma interact_x_drag:
  assumes "pan_axis axis off s" and "drag_event e dx dy"
    and "moderate l" and "moderate w" and "1 \<le> w"
  shows "interact_x h axis e (Number (Fin 0)) (Number (Fin l)) (Number (Fin w))
         = [(''offset'', Number (Fin (off - s * dx))), (''scale'', Number (Fin s))]"
proof -
  from assms(1) obtain mn mx og where
    ax: "\<not> truthy (lookup axis ''disabled'')" "truthy (lookup axis ''pan'')"
      "lookup axis ''offset'' = Number (Fin off)" "lookup axis ''scale'' = Number (Fin s)"
      "moderate off" "moderate s"
      "lookup axis ''minScale'' = Number mn" "lookup axis ''maxScale'' = Number mx"
      "num_le mn (Fin s)" "num_le (Fin s) mx"
      "lookup axis ''origin'' = Number (Fin og)" "0 \<le> og" "og \<le> 1"
    by (auto simp: pan_axis_def)
  from assms(2) obtain px py where
    ev: "lookup e ''dx'' = Number (Fin dx)" "moderate dx"
      "lookup e ''x'' = Number (Fin px)" "moderate px"
    by (auto simp: drag_event_def)
  from focal_fraction_finite(1)[OF ev(4) assms(3,5) ax(12,13)] obtain tt where
    tt: "js_sub h (js_div h (js_sub h (Number (Fin px)) (Number (Fin l))) (Number (Fin w)))
           (js_or (Number (Fin og)) (Number (Fin 0))) = Number (Fin tt)"
    by blast
  note sums = pan_sum_finite[OF ax(5,6) ev(2)]
  show ?thesis
  proof (cases "strict_eq (lookup axis ''zoom'') (Bool False)")
    case True
    with ax ev sums show ?thesis
      by (simp add: interact_x_def Let_def lookup_Cons js_on_numbers)
  next
    case False
    with ax ev sums tt
      zoom_axis_neutral_list[OF ax(6) sums(4) ax(7,8,9,10) assms(4), of h tt]
    show ?thesis
      by (simp add: interact_x_def Let_def lookup_Cons js_on_numbers)
  qed
qed

lemma interact_y_drag:
  assumes "pan_axis axis off s" and "drag_event e dx dy"
    and "moderate t" and "moderate hh" and "1 \<le> hh"
  shows "interact_y h axis e (Number (Fin 0)) (Number (Fin t)) (Number (Fin hh))
         = [(''offset'', Number (Fin (off + s * dy))), (''scale'', Number (Fin s))]"
proof -
  from assms(1) obtain mn mx og where
    ax: "\<not> truthy (lookup axis ''disabled'')" "truthy (lookup axis ''pan'')"
      "lookup axis ''offset'' = Number (Fin off)" "lookup axis ''scale'' = Number (Fin s)"
      "moderate off" "moderate s"
      "lookup axis ''minScale'' = Number mn" "lookup axis ''maxScale'' = Number mx"
      "num_le mn (Fin s)" "num_le (Fin s) mx"
      "lookup axis ''origin'' = Number (Fin og)" "0 \<le> og" "og \<le> 1"
    by (auto simp: pan_axis_def)
  from assms(2) obtain px py where
    ev: "lookup e ''dy'' = Number (Fin dy)" "moderate dy"
      "lookup e ''y'' = Number (Fin py)" "moderate py"
    by (auto simp: drag_event_def)
  from focal_fraction_finite(2)[OF ev(4) assms(3,5) ax(12,13)] obtain tt where
    tt: "js_sub h (js_or (Number (Fin og)) (Number (Fin 0)))
           (js_div h (js_sub h (Number (Fin py)) (Number (Fin t))) (Number (Fin hh)))
         = Number (Fin tt)"
    by blast
  note sums = pan_sum_finite[OF ax(5,6) ev(2)]
  show ?thesis
  proof (cases "strict_eq (lookup axis ''zoom'') (Bool False)")
    case True
    with ax ev sums show ?thesis
      by (simp add: interact_y_def Let_def lookup_Cons js_on_numbers)
  next
    case False
    with ax ev sums tt
      zoom_axis_neutral_list[OF ax(6) sums(3) ax(7,8,9,10) assms(4), of h tt]
    show ?thesis
      by (simp add: interact_y_def Let_def lookup_Cons js_on_numbers)
  qed
qed

text \<open>The fragments that the handler computes for a drag: the x offset goes down by
  \<open>scale * dx\<close>, the y offset goes up by \<open>scale * dy\<close>.\<close>

lemma interaction_drag:
  assumes "pan_axis (this_x g) ox sx" and "pan_axis (this_y g) oy sy"
    and "drag_event e dx dy" and "pixel_viewport (viewport g)"
  shows "interaction h g e =
           Inr [(''x'', Obj [(''offset'', Number (Fin (ox - sx * dx))), (''scale'', Number (Fin sx))]),
                (''y'', Obj [(''offset'', Number (Fin (oy + sy * dy))), (''scale'', Number (Fin sy))])]"
proof -
  from assms(4) obtain l t w hh where
    vp: "viewport g = Arr [Number (Fin l), Number (Fin t), Number (Fin w), Number (Fin hh)]"
    and m: "moderate l" "moderate t" "moderate w" "moderate hh" "1 \<le> w" "1 \<le> hh"
    by (auto simp: pixel_viewport_def)
  from assms(3) have dz: "lookup e ''dz'' = Number (Fin 0)"
    by (simp add: drag_event_def)
  have z: "zoom_of h e (Number (Fin hh)) = Number (Fin 0)"
    by (rule zoom_of_drag[OF refl m(6) m(4) dz])
  show ?thesis
    by (simp add: interaction_def vp arg_def thn_Inr z
          interact_x_drag[OF assms(1,3) m(1,3,5)] interact_y_drag[OF assms(2,3) m(2,4,6)])
qed

text \<open>The sample grid, its viewport and the sample drag meet these conditions.\<close>

lemma EPSILON_le_1: "EPSILON \<le> 1"
  by (simp add: EPSILON_def)

lemma MAX_VALUE_ge_1: "1 \<le> MAX_VALUE"
proof -
  have "(1::real) \<le> 2 ^ 1023" by simp
  with MAX_VALUE_big show ?thesis by linarith
qed

lemma pan_axisI:
  assumes "\<not> truthy (lookup axis ''disabled'')" and "truthy (lookup axis ''pan'')"
    and "lookup axis ''offset'' = Number (Fin off)" and "lookup axis ''scale'' = Number (Fin s)"
    and "moderate off" and "moderate s"
    and "lookup axis ''minScale'' = Number (Fin mn)" and "lookup axis ''maxScale'' = Number (Fin mx)"
    and "mn \<le> s" and "s \<le> mx"
    and "lookup axis ''origin'' = Number (Fin og)" and "0 \<le> og" and "og \<le> 1"
  shows "pan_axis axis off s"
proof -
  have "num_le (Fin mn) (Fin s)" and "num_le (Fin s) (Fin mx)"
    using assms(9,10) by auto
  with assms show ?thesis
    unfolding pan_axis_def by blast
qed

lemma pan_sample_grid_x: "pan_axis (this_x sample_grid) 0 1"
  using EPSILON_le_1 MAX_VALUE_ge_1
  by (rule_tac pan_axisI[where mn = EPSILON and mx = MAX_VALUE and og = "1 / 2"])
     (simp_all add: moderate_def sample_grid_facts lookup_sample_x
        lookup_proto_x lookup_defaults_sample lookup_defaults_literal)

lemma pan_sample_grid_y: "pan_axis (this_y sample_grid) 0 1"
  using EPSILON_le_1 MAX_VALUE_ge_1
  by (rule_tac pan_axisI[where mn = EPSILON and mx = MAX_VALUE and og = "1 / 2"])
     (simp_all add: moderate_def sample_grid_facts lookup_sample_y
        lookup_proto_y lookup_defaults_sample lookup_defaults_literal)

lemma drag_sample_drag: "drag_event sample_drag 1 1"
  by (simp add: drag_event_def sample_drag_def lookup_Cons moderate_def)

lemma pixel_sample_viewport: "pixel_viewport (viewport sample_grid)"
  by (simp add: pixel_viewport_def sample_grid_facts sample_viewport_def moderate_def)

section \<open>The handler's fragments and their merge\<close>

lemma zoom_axis_pair:
  "zoom_axis h axis zoom extent t [(''offset'', a), (''scale'', b)] =
     [(''offset'',
        js_sub h a
          (js_mul h
             (js_mul h extent
                (js_sub h (clamp h (js_mul h b (js_sub h (Number (Fin 1)) zoom))
                             (lookup axis ''minScale'') (lookup axis ''maxScale'')) b)) t)),
      (''scale'', clamp h (js_mul h b (js_sub h (Number (Fin 1)) zoom))
                    (lookup axis ''minScale'') (lookup axis ''maxScale''))]"
  by (simp add: zoom_axis_def Let_def lookup_Cons)

lemma interact_x_pair:
  "\<exists>a b. interact_x h axis e zoom left width = [(''offset'', a), (''scale'', b)]"
  by (simp add: interact_x_def Let_def lookup_Cons zoom_axis_pair)

lemma interact_y_pair:
  "\<exists>a b. interact_y h axis e zoom top' height = [(''offset'', a), (''scale'', b)]"
  by (simp add: interact_y_def Let_def lookup_Cons zoom_axis_pair)

lemma interact_x_scale:
  assumes "\<not> truthy (lookup axis ''disabled'')"
    and "\<not> strict_eq (lookup axis ''zoom'') (Bool False)"
  shows "lookup (interact_x h axis e zoom left width) ''scale'' =
           clamp h (js_mul h (lookup axis ''scale'') (js_sub h (Number (Fin 1)) zoom))
             (lookup axis ''minScale'') (lookup axis ''maxScale'')"
  using assms by (simp add: interact_x_def Let_def lookup_Cons zoom_axis_pair)

lemma interact_y_scale:
  assumes "\<not> truthy (lookup axis ''disabled'')"
    and "\<not> strict_eq (lookup axis ''zoom'') (Bool False)"
  shows "lookup (interact_y h axis e zoom top' height) ''scale'' =
           clamp h (js_mul h (lookup axis ''scale'') (js_sub h (Number (Fin 1)) zoom))
             (lookup axis ''minScale'') (lookup axis ''maxScale'')"
  using assms by (simp add: interact_y_def Let_def lookup_Cons zoom_axis_pair)

text \<open>Merging a fragment \<open>{offset, scale}\<close> into a configuration.\<close>

lemma lookup_merge_pair:
  "lookup (extend_props axis (take_type h (Obj [(''offset'', a), (''scale'', b)]))) k =
     (if k = ''offset'' then a else if k = ''scale'' then b else lookup axis k)"
  by (simp add: lookup_extend_props lookup_Cons lookup_Nil)

lemma merge_opts_xy:
  "this_x (merge_opts h g (Obj [(''x'', fx), (''y'', fy)])) = extend_props (this_x g) (take_type h fx)"
  "this_y (merge_opts h g (Obj [(''x'', fx), (''y'', fy)])) = extend_props (this_y g) (take_type h fy)"
  by (simp_all add: merge_opts_def fragment_Obj lookup_Cons)

lemma plain_axis_keys:
  assumes "\<And>k. k \<noteq> ''offset'' \<Longrightarrow> k \<noteq> ''scale'' \<Longrightarrow> lookup b k = lookup a k"
  shows "plain_axis h vp b = plain_axis h vp a"
  by (simp add: plain_axis_def assms)

section \<open>Order on numbers\<close>

lemma proper_numberE:
  assumes "proper_number v"
  obtains n where "v = Number n" and "n \<noteq> NaN"
  using assms by (cases v) simp_all

lemma finite_numberE:
  assumes "finite_number v"
  obtains r where "v = Number (Fin r)" and "\<bar>r\<bar> \<le> MAX_VALUE"
proof (cases v)
  case (Number n)
  with assms that show ?thesis by (cases n) simp_all
qed (use assms in simp_all)

lemma ordered_numbersE:
  assumes "ordered_numbers a b"
  obtains x y where "a = Number x" and "b = Number y" and "num_le x y"
  using assms by (cases a; cases b) simp_all

lemma is_numberE:
  assumes "is_number v"
  obtains n where "v = Number n"
  using assms by (cases v) simp_all

lemma num_le_trans: "num_le a b \<Longrightarrow> num_le b c \<Longrightarrow> num_le a c"
  by (cases a; cases b; cases c) auto

lemma num_le_not_NaN: "num_le a b \<Longrightarrow> a \<noteq> NaN \<and> b \<noteq> NaN"
  by (cases a; cases b) auto

lemma fl_mono: "a \<le> b \<Longrightarrow> num_le (fl a) (fl b)"
  using MAX_VALUE_pos by (auto simp: fl_def)

lemma MAX_VALUE_below: "MAX_VALUE < 2 ^ 1024 - 2 ^ 970"
  by (simp add: MAX_VALUE_def)

lemma fl_MAX: "\<bar>r\<bar> \<le> MAX_VALUE \<Longrightarrow> fl r = Fin r"
  using MAX_VALUE_below by (auto simp: fl_def)

lemma num_max_ge: "num_max a b \<noteq> NaN \<Longrightarrow> num_le a (num_max a b)"
  by (cases a; cases b) (auto simp: num_max_def split: if_splits)

lemma num_sub_min_le:
  assumes "num_sub (num_min mx (Fin m)) (Fin r) \<noteq> NaN"
  shows "num_le (num_sub (num_min mx (Fin m)) (Fin r)) (num_sub mx (Fin r))"
proof (cases mx)
  case (Fin x)
  have "num_le (fl (m - r)) (fl (x - r))" if "m < x"
    by (rule fl_mono) (use that in simp)
  moreover have "num_le (fl (x - r)) (fl (x - r))"
    by (rule fl_mono) simp
  ultimately show ?thesis
    by (simp add: Fin num_min_def num_sub_def)
next
  case PInf
  have "fl (m - r) \<noteq> NaN" by (rule fl_not_NaN)
  then have "num_le (fl (m - r)) PInf" by (cases "fl (m - r)") simp_all
  then show ?thesis by (simp add: PInf num_min_def num_sub_def)
next
  case NInf
  then show ?thesis by (simp add: num_min_def num_sub_def)
next
  case NaN
  with assms show ?thesis by (simp add: num_min_def num_sub_def)
qed

text \<open>The zoomed scale is not NaN, so its clamp lies between the limits.\<close>

lemma zoomed_scale_between:
  assumes "proper_number s" and "ordered_numbers mn mx" and "\<bar>zz\<bar> \<le> 3 / 4"
  shows "number_between mn
           (clamp h (js_mul h s (js_sub h (Number (Fin 1)) (Number (Fin zz)))) mn mx) mx"
proof -
  from assms(1) obtain sn where s: "s = Number sn" and sn: "sn \<noteq> NaN"
    by (rule proper_numberE)
  from assms(2) obtain a b where m: "mn = Number a" "mx = Number b" and ab: "num_le a b"
    by (rule ordered_numbersE)
  have f: "fl (1 - zz) = Fin (1 - zz)"
    by (rule fl_bounded) (use assms(3) in auto)
  have pos: "0 < 1 - zz" using assms(3) by auto
  have nn: "num_mul sn (Fin (1 - zz)) \<noteq> NaN"
    using sn pos by (cases sn) (simp_all add: fl_not_NaN inf_times_def)
  from clamp_between[OF nn ab] show ?thesis
    by (simp add: s m js_on_numbers num_sub_def f clamp_on_numbers)
qed

text \<open>The offset that calcLines computes lies in the window it is clamped to, and the
  window lies within \<open>[min, max - range]\<close>.\<close>

lemma offset_clamp_between:
  assumes "off \<noteq> NaN" and "og \<noteq> NaN" and "\<bar>r\<bar> \<le> MAX_VALUE"
    and "num_le (num_max mn (fl (- MAX_VALUE + 1))) (num_sub (num_min mx (Fin MAX_VALUE)) (Fin r))"
  shows "number_between (Number mn)
           (clamp h
              (js_sub h (Number off)
                 (js_mul h (Number (Fin r)) (clamp h (Number og) (Number (Fin 0)) (Number (Fin 1)))))
              (Math_max h (Number mn) (Number (fl (- MAX_VALUE + 1))))
              (js_sub h (Math_min h (Number mx) (Number (Fin MAX_VALUE))) (Number (Fin r))))
           (js_sub h (Number mx) (Number (Fin r)))"
proof -
  define c where "c = (if num_lt (Fin 0) (Fin 1) then num_max (num_min og (Fin 1)) (Fin 0)
                       else num_max (num_min og (Fin 0)) (Fin 1))"
  have "num_le (Fin 0) (Fin 1)" by simp
  from clamp_between[OF assms(2) this] have "num_le (Fin 0) c" "num_le c (Fin 1)"
    by (simp_all add: c_def)
  then obtain cc where cc: "c = Fin cc" "0 \<le> cc" "cc \<le> 1"
    by (cases c) auto
  have "\<bar>r * cc\<bar> = \<bar>r\<bar> * cc" using cc(2) by (simp add: abs_mult)
  also have "\<dots> \<le> \<bar>r\<bar> * 1" using cc(3) by (intro mult_left_mono) simp_all
  finally have "\<bar>r * cc\<bar> \<le> MAX_VALUE" using assms(3) by simp
  then have p: "fl (r * cc) = Fin (r * cc)" by (rule fl_MAX)
  define a where "a = num_sub off (Fin (r * cc))"
  have a: "a \<noteq> NaN"
    using assms(1) by (cases off) (simp_all add: a_def num_sub_def fl_not_NaN)
  define lo where "lo = num_max mn (fl (- MAX_VALUE + 1))"
  define hi where "hi = num_sub (num_min mx (Fin MAX_VALUE)) (Fin r)"
  define v where "v = (if num_lt lo hi then num_max (num_min a hi) lo
                       else num_max (num_min a lo) hi)"
  have ord: "num_le lo hi" using assms(4) by (simp add: lo_def hi_def)
  from clamp_between[OF a ord] have v: "num_le lo v" "num_le v hi"
    by (simp_all add: v_def)
  from num_le_not_NaN[OF ord] have "lo \<noteq> NaN" "hi \<noteq> NaN" by simp_all
  then have "num_le mn lo" "num_le hi (num_sub mx (Fin r))"
    unfolding lo_def hi_def by (simp_all add: num_max_ge num_sub_min_le)
  with v have "num_le mn v" "num_le v (num_sub mx (Fin r))"
    by (blast intro: num_le_trans)+
  moreover have "clamp h
              (js_sub h (Number off)
                 (js_mul h (Number (Fin r)) (clamp h (Number og) (Number (Fin 0)) (Number (Fin 1)))))
              (Math_max h (Number mn) (Number (fl (- MAX_VALUE + 1))))
              (js_sub h (Math_min h (Number mx) (Number (Fin MAX_VALUE))) (Number (Fin r)))
            = Number v"
    unfolding clamp_on_numbers js_on_numbers c_def[symmetric] cc(1)
    by (simp add: p v_def lo_def hi_def a_def)
  ultimately show ?thesis
    by (simp add: js_on_numbers)
qed

section \<open>Runs of calcLines on the sample axes\<close>

lemmas sample_tables =
  lookup_sample_x lookup_proto_x lookup_defaults_sample lookup_defaults_literal

lemmas calcLines_unfold =
  calcLines_def calc_offset_def calc_style_def calc_padding_def calc_font_def
  calc_values_def calc_subvalues_def calc_labels_def convert_hashmap_def getRange_def
  blend_def Let_def thn_Inr lookup_put lookup_Cons lookup_Nil js_arith fl_small

lemma pure_sample_x: "pure_axis sample_host sample_x"
  using sample_ticks_pure leaves_state_getRange(1)[of sample_host]
  by (simp add: pure_axis_def sample_tables leaves_state_value)

lemma lookup_colouring_x:
  "lookup colouring_x k = (if k = ''getRange'' then Fun (Closure 1 1) else lookup sample_x k)"
  by (simp add: colouring_x_def lookup_extend_Obj)

lemma lookup_writing_x:
  "lookup writing_x k = (if k = ''lines'' then Fun (Closure 2 1) else lookup sample_x k)"
  by (simp add: writing_x_def lookup_extend_Obj)

lemma lookup_mapped_x:
  "lookup mapped_x k =
     (if k = ''lines'' then Arr [Number (Fin 5)]
      else if k = ''labels'' then Fun (Closure 3 1)
      else lookup sample_x k)"
  by (simp add: mapped_x_def lookup_extend_Obj)

text \<open>The range function of closure 1 leaves its colour in the state.\<close>

lemma run_colouring_x:
  "\<exists>st. calcLines sample_host colouring_x sample_viewport = Inr (colouring_x, st)
     \<and> lookup st ''labelColor'' = Str ''red''"
  by (simp add: calcLines_unfold lookup_colouring_x sample_tables sample_host_sel
        sample_viewport_def colouring_range_def sample_ticks_def)

text \<open>The generator of closure 2 replaces the values after the filter has read them.\<close>

lemma run_writing_x:
  "\<exists>st. calcLines sample_host writing_x sample_viewport = Inr (writing_x, st)
     \<and> lookup st ''values'' = Arr [Number (Fin 9)]
     \<and> lookup st ''subvalues'' = Arr [Number (Fin 0), Number (Fin 1)]"
  by (simp add: calcLines_unfold lookup_writing_x sample_tables sample_host_sel
        sample_viewport_def writing_ticks_def)

text \<open>The label generator of closure 3 returns a mapping, which the conversion appends
  to the values and labels.\<close>

lemma run_mapped_x:
  "\<exists>lines' st. calcLines sample_host mapped_x sample_viewport = Inr (lines', st)
     \<and> lookup st ''values'' = Arr [Number (Fin 5), Number (Fin 1), Number (Fin 2)]
     \<and> lookup st ''labels'' = Arr [Null, Str ''a'', Str ''b'']"
  by (simp add: calcLines_unfold lookup_mapped_x sample_tables sample_host_sel
        sample_viewport_def mapping_labels_def)

text \<open>The sample x axis itself, and the x axis with two explicit ticks and one label.\<close>

lemma run_sample_x:
  "\<exists>st. calcLines sample_host sample_x sample_viewport = Inr (sample_x, st)
     \<and> lookup st ''values'' = Arr [Number (Fin 0), Number (Fin 1), Number (Fin 2)]
     \<and> lookup st ''subvalues'' = Arr [Number (Fin 0), Number (Fin 1)]
     \<and> lookup st ''labels'' = Arr [Number (Fin 0), Number (Fin 1), Number (Fin 2)]"
  by (simp add: calcLines_unfold sample_tables sample_host_sel
        sample_viewport_def sample_ticks_def)

lemma run_sample_labelled_x:
  "\<exists>st. calcLines sample_host sample_labelled_x sample_viewport = Inr (sample_labelled_x, st)
     \<and> lookup st ''values'' = Arr [Number (Fin 1), Number (Fin 2)]
     \<and> lookup st ''labels'' = Arr [Str ''a'']"
  by (simp add: calcLines_unfold lookup_sample_labelled_x sample_tables sample_host_sel
        sample_viewport_def)

lemma mapping_labels_facts:
  "leaves_state sample_host (Fun (Closure 3 1))" "mapping_function sample_host (Fun (Closure 3 1))"
  by (simp_all add: leaves_state_def mapping_function_def sample_host_sel mapping_labels_def)

section \<open>The claims\<close>

text \<open>
  Claim C10, as amended. calcLines reads \<open>labelColor\<close> from \<open>state.color\<close>, which it
  never sets itself. When the functions of the configuration that calcLines calls
  (\<open>getRange\<close>, \<open>padding\<close>, \<open>lines\<close>, \<open>sublines\<close>, \<open>labels\<close>) are pure, that is,
  leave the state object they are handed as they found it, the state that calcLines
  returns has \<open>labelColor\<close> undefined, whatever the configured colours and the
  viewport. A function that writes to the state can change that: the counterexample is a
  \<open>getRange\<close> that sets \<open>state.color\<close> to \<open>'red'\<close>, after which \<open>labelColor\<close> is
  \<open>'red'\<close>.
\<close>

theorem calcLines_labelColor:
  assumes "calcLines h lines vp = Inr (lines', state)" and "pure_axis h lines"
  shows "lookup state ''labelColor'' = Undefined"
proof -
  from assms(2) have
    p: "leaves_state h (lookup lines ''getRange'')" "leaves_state h (lookup lines ''padding'')"
      "leaves_state h (lookup lines ''lines'')" "leaves_state h (lookup lines ''sublines'')"
      "leaves_state h (lookup lines ''labels'')"
    by (simp_all add: pure_axis_def)
  from assms(1) p(2-5) obtain rng st0 where
    c: "call h (lookup lines ''getRange'')
          [(''lines'', Obj lines), (''viewport'', vp), (''grid'', Host ''grid'')] = Inr (rng, st0)"
    and l: "lookup state ''labelColor'' = lookup st0 ''color''"
    by (rule calcLines_frame)
  from leaves_stateD[OF p(1) c] have
    "st0 = [(''lines'', Obj lines), (''viewport'', vp), (''grid'', Host ''grid'')]" .
  with l show ?thesis by (simp add: lookup_Cons lookup_Nil)
qed

theorem calcLines_labelColor_witness:
  "pure_axis sample_host sample_x
   \<and> \<not> isl (calcLines sample_host sample_x sample_viewport)
   \<and> lookup (snd (projr (calcLines sample_host sample_x sample_viewport))) ''labelColor''
       = Undefined"
proof -
  from calcLines_total[OF plain_sample_x] obtain state where
    run: "calcLines sample_host sample_x sample_viewport = Inr (sample_x, state)"
    by blast
  from calcLines_labelColor[OF run pure_sample_x] run pure_sample_x show ?thesis
    by simp
qed

theorem calcLines_labelColor_counterexample:
  "\<not> isl (calcLines sample_host colouring_x sample_viewport)
   \<and> lookup (snd (projr (calcLines sample_host colouring_x sample_viewport))) ''labelColor''
       = Str ''red''"
proof -
  from run_colouring_x obtain st where
    "calcLines sample_host colouring_x sample_viewport = Inr (colouring_x, st)"
    "lookup st ''labelColor'' = Str ''red''"
    by blast
  then show ?thesis by simp
qed

text \<open>
  Claim C7, as amended. When \<open>sublines\<close> is true or unset, \<open>lines\<close> is a generator
  function, and the generator and the \<open>labels\<close> function (if \<open>labels\<close> is one) are pure,
  that is, leave the state object they are handed as they found it, then the subvalues
  that calcLines derives are an array, and each of its elements is found in
  \<open>state.values\<close> by \<open>indexOf\<close>; when \<open>state.values\<close> is an array, every subvalue is
  one of its elements. This holds for every such generator, viewport and host. The filter
  reads the local variable \<open>values\<close>, not \<open>state.values\<close>: the counterexample is a
  generator that sets \<open>state.values\<close> to \<open>[9]\<close> on its second call, and leaves a state
  with the values \<open>[9]\<close> and the subvalues \<open>[0, 1]\<close>.
\<close>

theorem calcLines_subvalues_refine:
  assumes "calcLines h lines vp = Inr (lines', state)"
    and "lookup lines ''sublines'' = Bool True \<or> lookup lines ''sublines'' = Undefined"
    and "is_function (lookup lines ''lines'')"
    and "leaves_state h (lookup lines ''lines'')"
    and "leaves_state h (lookup lines ''labels'')"
  shows "\<exists>subs. lookup state ''subvalues'' = Arr subs
           \<and> (\<forall>v\<in>set subs. indexOf_found h (lookup state ''values'') v = Inr True)
           \<and> (\<forall>vs. lookup state ''values'' = Arr vs \<longrightarrow> set subs \<subseteq> set vs)"
proof -
  have ps: "leaves_state h (lookup lines ''sublines'')"
    using assms(2) by (auto intro: leaves_state_value)
  from assms(1) assms(4) ps assms(5) obtain s6 V SV L where
    c: "convert_hashmap h lines V L s6 = Inr (lines', state)" and
    v: "lookup s6 ''values'' = V" and
    sv: "lookup s6 ''subvalues'' = SV" and
    subs: "if is_function (lookup lines ''sublines'')
     then (\<exists>st. call h (lookup lines ''sublines'') st = Inr (SV, st))
     else if (strict_eq (lookup lines ''sublines'') (Bool True)
              \<or> strict_eq (lookup lines ''sublines'') Undefined)
             \<and> is_function (lookup lines ''lines'')
     then (\<exists>st fs kept. call h (lookup lines ''lines'') st = Inr (Arr fs, st)
             \<and> filter_found h V fs = Inr kept \<and> SV = Arr kept)
     else SV = lookup lines ''sublines''"
    by (rule calcLines_final)
  from assms(2,3) subs obtain fs kept where
    kept: "filter_found h V fs = Inr kept" and SV: "SV = Arr kept"
    by auto
  have final_sub: "lookup state ''subvalues'' = Arr kept"
    using convert_hashmap_lookup[OF c, of "''subvalues''"] sv SV by simp
  have found: "indexOf_found h V v = Inr True" if "v \<in> set kept" for v
    using filter_found_sound[OF kept that] by simp
  from c v consider
    (same) "lookup state ''values'' = V"
  | (pushed) vs0 extra where "V = Arr vs0" "lookup state ''values'' = Arr (vs0 @ extra)"
    by (cases rule: convert_hashmap_cases) (auto simp: lookup_put)
  then have final_found: "indexOf_found h (lookup state ''values'') v = Inr True"
    if "v \<in> set kept" for v
  proof cases
    case same
    with found[OF that] show ?thesis by simp
  next
    case pushed
    with found[OF that] show ?thesis by (simp only: indexOf_found_append)
  qed
  have "set kept \<subseteq> set vs" if "lookup state ''values'' = Arr vs" for vs
    using final_found that indexOf_found_member by (metis subsetI)
  with final_sub final_found show ?thesis by blast
qed

theorem calcLines_subvalues_refine_witness:
  "\<not> isl (calcLines sample_host sample_x sample_viewport)
   \<and> lookup sample_x ''sublines'' = Bool True
   \<and> is_function (lookup sample_x ''lines'')
   \<and> leaves_state sample_host (lookup sample_x ''lines'')
   \<and> leaves_state sample_host (lookup sample_x ''labels'')
   \<and> (\<exists>subs vs. lookup (snd (projr (calcLines sample_host sample_x sample_viewport))) ''subvalues''
                   = Arr subs
         \<and> lookup (snd (projr (calcLines sample_host sample_x sample_viewport))) ''values''
                   = Arr vs
         \<and> set subs \<subseteq> set vs)"
proof -
  from run_sample_x obtain state where
    run: "calcLines sample_host sample_x sample_viewport = Inr (sample_x, state)" and
    vs: "lookup state ''values'' = Arr [Number (Fin 0), Number (Fin 1), Number (Fin 2)]"
    by blast
  have sub: "lookup sample_x ''sublines'' = Bool True"
    by (simp add: sample_tables)
  have gen: "is_function (lookup sample_x ''lines'')"
    by (simp add: sample_tables)
  from pure_sample_x have p: "leaves_state sample_host (lookup sample_x ''lines'')"
    "leaves_state sample_host (lookup sample_x ''labels'')"
    by (simp_all add: pure_axis_def)
  from calcLines_subvalues_refine[OF run _ gen p] sub vs run gen p show ?thesis
    by auto
qed

theorem calcLines_subvalues_refine_counterexample:
  "\<not> isl (calcLines sample_host writing_x sample_viewport)
   \<and> lookup writing_x ''sublines'' = Bool True
   \<and> is_function (lookup writing_x ''lines'')
   \<and> lookup (snd (projr (calcLines sample_host writing_x sample_viewport))) ''subvalues''
       = Arr [Number (Fin 0), Number (Fin 1)]
   \<and> lookup (snd (projr (calcLines sample_host writing_x sample_viewport))) ''values''
       = Arr [Number (Fin 9)]"
proof -
  from run_writing_x obtain st where
    "calcLines sample_host writing_x sample_viewport = Inr (writing_x, st)"
    "lookup st ''values'' = Arr [Number (Fin 9)]"
    "lookup st ''subvalues'' = Arr [Number (Fin 0), Number (Fin 1)]"
    by blast
  then show ?thesis
    by (simp add: lookup_writing_x sample_tables)
qed

text \<open>
  Claim C8, as amended. Let the tick generator, the \<open>sublines\<close> function and the
  \<open>labels\<close> function (where the configuration has them) be pure, and let the state that
  calcLines returns hold an array of values. Then the state has as many labels as values
  in three cases: \<open>labels\<close> is \<open>true\<close>; \<open>labels\<close> is neither a function nor an array
  (a literal mapping included, which gives one \<open>null\<close> per value); \<open>labels\<close> is a
  function that returns a mapping, which the conversion turns into one \<open>null\<close> per
  value followed by one label per entry, a value being appended for each entry as well.
  An explicit label array is stored as it is, and so is whatever a label function
  returns that is not a mapping: the parity then depends on what the caller supplies.
  The counterexample has the two values \<open>[1, 2]\<close> and the one label \<open>['a']\<close>.
\<close>

theorem calcLines_label_parity:
  assumes "calcLines h lines vp = Inr (lines', state)"
    and "lookup state ''values'' = Arr vs"
    and "leaves_state h (lookup lines ''lines'')"
    and "leaves_state h (lookup lines ''sublines'')"
    and "leaves_state h (lookup lines ''labels'')"
  shows "(\<not> is_array (lookup lines ''labels'')
            \<and> (is_function (lookup lines ''labels'') \<longrightarrow> mapping_function h (lookup lines ''labels''))
          \<longrightarrow> (\<exists>ls. lookup state ''labels'' = Arr ls \<and> length ls = length vs))
       \<and> (is_array (lookup lines ''labels'')
          \<longrightarrow> lookup state ''labels'' = lookup lines ''labels'')
       \<and> (is_function (lookup lines ''labels'')
          \<longrightarrow> (\<exists>st L. call h (lookup lines ''labels'') st = Inr (L, st)
                 \<and> (\<not> isObj L \<longrightarrow> lookup state ''labels'' = L)))"
proof -
  from assms(1,3,4,5) obtain s6 V SV L where
    c: "convert_hashmap h lines V L s6 = Inr (lines', state)" and
    v: "lookup s6 ''values'' = V" and
    l: "lookup s6 ''labels'' = L" and
    labs: "if strict_eq (lookup lines ''labels'') (Bool True) then L = V
     else if is_function (lookup lines ''labels'')
     then (\<exists>st. call h (lookup lines ''labels'') st = Inr (L, st))
     else if is_array (lookup lines ''labels'') then L = lookup lines ''labels''
     else thn (get V ''length'') Array_fill_null = Inr L"
    by (rule calcLines_final)
  have fill: "L' = Arr (replicate (length vs0) Null)"
    if "thn (get (Arr vs0) ''length'') Array_fill_null = Inr L'" for vs0 L'
    using that by (auto simp: thn_Inr split: if_splits)
  have nulls: "ns = replicate (length vs0) Null"
    if "thn (get (Arr vs0) ''length'') Array_fill_null = Inr (Arr ns)" for vs0 ns
    using fill[OF that] by simp
  have parity: "\<exists>ls. lookup state ''labels'' = Arr ls \<and> length ls = length vs"
    if na: "\<not> is_array (lookup lines ''labels'')"
      and mf: "is_function (lookup lines ''labels'') \<longrightarrow> mapping_function h (lookup lines ''labels'')"
    using c
  proof (cases rule: convert_hashmap_cases)
    case plain
    with v assms(2) have V: "V = Arr vs" by simp
    have "\<exists>ls. L = Arr ls \<and> length ls = length vs"
    proof (cases "strict_eq (lookup lines ''labels'') (Bool True)")
      case True
      with labs V show ?thesis by simp
    next
      case nt: False
      show ?thesis
      proof (cases "is_function (lookup lines ''labels'')")
        case True
        with nt labs obtain st where "call h (lookup lines ''labels'') st = Inr (L, st)"
          by auto
        with mf True have "isObj L" unfolding mapping_function_def by blast
        with plain(1) show ?thesis by simp
      next
        case False
        with nt labs na V have "thn (get (Arr vs) ''length'') Array_fill_null = Inr L"
          by simp
        from fill[OF this] show ?thesis by simp
      qed
    qed
    with plain l show ?thesis by simp
  next
    case (empty ns)
    with v assms(2) have V: "V = Arr vs" by (simp add: lookup_put)
    with empty(4) nulls[of vs ns] have "ns = replicate (length vs) Null" by simp
    with empty(5) show ?thesis by (simp add: lookup_put)
  next
    case (pushed ns vs0)
    from pushed(4) v have V: "V = Arr vs0" by simp
    with pushed(3) nulls[of vs0 ns] have "length ns = length vs0" by simp
    with pushed(5,6) assms(2) show ?thesis by auto
  qed
  have stored: "lookup state ''labels'' = L" if "\<not> isObj L"
    using c that l by (cases rule: convert_hashmap_cases) simp_all
  have arr: "lookup state ''labels'' = lookup lines ''labels''"
    if a: "is_array (lookup lines ''labels'')"
  proof -
    from a have "\<not> strict_eq (lookup lines ''labels'') (Bool True)"
      "\<not> is_function (lookup lines ''labels'')"
      by (cases "lookup lines ''labels''"; simp)+
    with labs a have L: "L = lookup lines ''labels''" by simp
    with a have "\<not> isObj L" by (cases "lookup lines ''labels''") simp_all
    from stored[OF this] L show ?thesis by simp
  qed
  have fn: "\<exists>st L. call h (lookup lines ''labels'') st = Inr (L, st)
                 \<and> (\<not> isObj L \<longrightarrow> lookup state ''labels'' = L)"
    if f: "is_function (lookup lines ''labels'')"
  proof -
    from f have "\<not> strict_eq (lookup lines ''labels'') (Bool True)"
      by (cases "lookup lines ''labels''") simp_all
    with labs f obtain st where "call h (lookup lines ''labels'') st = Inr (L, st)"
      by auto
    with stored show ?thesis by blast
  qed
  from parity arr fn show ?thesis by blast
qed

theorem calcLines_label_parity_witness:
  "\<not> isl (calcLines sample_host mapped_x sample_viewport)
   \<and> leaves_state sample_host (lookup mapped_x ''lines'')
   \<and> leaves_state sample_host (lookup mapped_x ''sublines'')
   \<and> leaves_state sample_host (lookup mapped_x ''labels'')
   \<and> is_function (lookup mapped_x ''labels'')
   \<and> mapping_function sample_host (lookup mapped_x ''labels'')
   \<and> lookup (snd (projr (calcLines sample_host mapped_x sample_viewport))) ''values''
       = Arr [Number (Fin 5), Number (Fin 1), Number (Fin 2)]
   \<and> (\<exists>ls. lookup (snd (projr (calcLines sample_host mapped_x sample_viewport))) ''labels''
              = Arr ls
         \<and> length ls = 3)"
proof -
  from run_mapped_x obtain lines' state where
    run: "calcLines sample_host mapped_x sample_viewport = Inr (lines', state)" and
    vs: "lookup state ''values'' = Arr [Number (Fin 5), Number (Fin 1), Number (Fin 2)]"
    by blast
  have p: "leaves_state sample_host (lookup mapped_x ''lines'')"
    "leaves_state sample_host (lookup mapped_x ''sublines'')"
    "leaves_state sample_host (lookup mapped_x ''labels'')"
    and f: "is_function (lookup mapped_x ''labels'')"
    and m: "mapping_function sample_host (lookup mapped_x ''labels'')"
    using mapping_labels_facts
    by (simp_all add: lookup_mapped_x sample_tables leaves_state_value)
  from calcLines_label_parity[OF run vs p] f m have
    "\<exists>ls. lookup state ''labels'' = Arr ls \<and> length ls = 3"
    by (auto simp: lookup_mapped_x numeral_3_eq_3)
  with run vs p f m show ?thesis by simp
qed

theorem calcLines_label_parity_counterexample:
  "\<not> isl (calcLines sample_host sample_labelled_x sample_viewport)
   \<and> lookup (snd (projr (calcLines sample_host sample_labelled_x sample_viewport))) ''values''
       = Arr [Number (Fin 1), Number (Fin 2)]
   \<and> lookup (snd (projr (calcLines sample_host sample_labelled_x sample_viewport))) ''labels''
       = Arr [Str ''a'']"
proof -
  from run_sample_labelled_x obtain state where
    "calcLines sample_host sample_labelled_x sample_viewport = Inr (sample_labelled_x, state)"
    "lookup state ''values'' = Arr [Number (Fin 1), Number (Fin 2)]"
    "lookup state ''labels'' = Arr [Str ''a'']"
    by blast
  then show ?thesis by simp
qed

text \<open>
  Claim C6, as amended. In a browser, and with a \<open>linear\<close> preset that does not itself
  set \<open>disabled\<close>: when at least one of the keys x, y, r, a is given, every axis whose
  key is left out is disabled after construction. When all four are left out (or
  \<open>null\<close>), the constructor switches x and y on and leaves r and a disabled; the
  counterexample is \<open>new Grid({})\<close>, whose x axis is enabled.
\<close>

theorem Grid_omitted_axes:
  assumes "Grid h vp opts = Inr g" and "isBrowser h"
    and "''disabled'' \<notin> fst ` set (own_props (lookup (types h) ''linear''))"
  shows "if eq_null (lookup opts ''r'') \<and> eq_null (lookup opts ''a'')
            \<and> eq_null (lookup opts ''y'') \<and> eq_null (lookup opts ''x'')
         then lookup (this_x g) ''disabled'' = Bool False
            \<and> lookup (this_y g) ''disabled'' = Bool False
            \<and> lookup (this_r g) ''disabled'' = Bool True
            \<and> lookup (this_a g) ''disabled'' = Bool True
         else (lookup opts ''x'' = Undefined \<longrightarrow> lookup (this_x g) ''disabled'' = Bool True)
            \<and> (lookup opts ''y'' = Undefined \<longrightarrow> lookup (this_y g) ''disabled'' = Bool True)
            \<and> (lookup opts ''r'' = Undefined \<longrightarrow> lookup (this_r g) ''disabled'' = Bool True)
            \<and> (lookup opts ''a'' = Undefined \<longrightarrow> lookup (this_a g) ''disabled'' = Bool True)"
  using assms by (rule Grid_disabled)

theorem Grid_omitted_axes_witness:
  "\<not> isl (Grid sample_host sample_viewport [(''x'', Bool True)])
   \<and> isBrowser sample_host
   \<and> ''disabled'' \<notin> fst ` set (own_props (lookup (types sample_host) ''linear''))
   \<and> lookup (this_y (projr (Grid sample_host sample_viewport [(''x'', Bool True)]))) ''disabled''
       = Bool True
   \<and> lookup (this_r (projr (Grid sample_host sample_viewport [(''x'', Bool True)]))) ''disabled''
       = Bool True
   \<and> lookup (this_a (projr (Grid sample_host sample_viewport [(''x'', Bool True)]))) ''disabled''
       = Bool True"
proof -
  have "\<exists>g. Grid sample_host sample_viewport [(''x'', Bool True)] = Inr g"
    by (rule Grid_plain)
       (simp_all add: sample_host_sel default_coords_def lookup_Nil lookup_Cons
          plain_switched_on plain_left_out)
  then obtain g where g: "Grid sample_host sample_viewport [(''x'', Bool True)] = Inr g"
    by blast
  from Grid_omitted_axes[OF g _ sample_linear_preset] g sample_linear_preset show ?thesis
    by (simp add: sample_host_sel lookup_Cons lookup_Nil)
qed

theorem Grid_omitted_axes_counterexample:
  "\<not> isl (Grid sample_host sample_viewport [])
   \<and> lookup [] ''x'' = Undefined
   \<and> lookup (this_x (projr (Grid sample_host sample_viewport []))) ''disabled'' = Bool False"
proof -
  from Grid_disabled[OF Grid_sample_grid _ sample_linear_preset]
  have "lookup (this_x sample_grid) ''disabled'' = Bool False"
    by (simp add: sample_host_sel lookup_Nil)
  then show ?thesis
    by (simp add: Grid_sample_grid lookup_Nil)
qed

text \<open>
  Claim C4, as amended. A disabled axis is not emptied. The state that update stores for
  the x axis, and likewise for the y axis, is exactly what calcLines returns for the
  configuration that update hands to it and the viewport, whether the axis is disabled or
  not. That configuration is the merged one after the normalization of its offset, and
  for a disabled axis the normalization is skipped: the merged configuration goes to
  calcLines as it is. In particular, when a disabled axis has an explicit array as
  \<open>lines\<close>, and \<open>sublines\<close> and \<open>labels\<close> are not functions, the state's values are
  that array. The counterexample is a disabled x axis with \<open>lines: [1, 2]\<close>, whose
  state holds the values 1 and 2.
\<close>

theorem update_disabled_axis:
  assumes "update h g opts = Inr g'"
  shows "(\<exists>x sx. normalize h (viewport g) (this_x (merge_opts h g opts)) = Inr x
            \<and> calcLines h x (viewport g) = Inr (this_x g', sx) \<and> state_x g' = Obj sx
            \<and> (truthy (lookup (this_x (merge_opts h g opts)) ''disabled'')
                 \<longrightarrow> x = this_x (merge_opts h g opts)
                   \<and> (\<forall>vs. lookup x ''lines'' = Arr vs
                            \<and> \<not> is_function (lookup x ''sublines'')
                            \<and> \<not> is_function (lookup x ''labels'')
                         \<longrightarrow> lookup sx ''values'' = Arr vs)))
       \<and> (\<exists>y sy. normalize h (viewport g) (this_y (merge_opts h g opts)) = Inr y
            \<and> calcLines h y (viewport g) = Inr (this_y g', sy) \<and> state_y g' = Obj sy
            \<and> (truthy (lookup (this_y (merge_opts h g opts)) ''disabled'')
                 \<longrightarrow> y = this_y (merge_opts h g opts)
                   \<and> (\<forall>vs. lookup y ''lines'' = Arr vs
                            \<and> \<not> is_function (lookup y ''sublines'')
                            \<and> \<not> is_function (lookup y ''labels'')
                         \<longrightarrow> lookup sy ''values'' = Arr vs)))"
proof -
  from assms obtain x y lx sx ly sy where
    nx: "normalize h (viewport g) (this_x (merge_opts h g opts)) = Inr x" and
    ny: "normalize h (viewport g) (this_y (merge_opts h g opts)) = Inr y" and
    cx: "calcLines h x (viewport g) = Inr (lx, sx)" and
    cy: "calcLines h y (viewport g) = Inr (ly, sy)" and
    g': "g' = (merge_opts h g opts)\<lparr>this_x := lx, this_y := ly, state_x := Obj sx, state_y := Obj sy\<rparr>"
    by (rule update_steps)
  have lit: "lookup st ''values'' = Arr vs"
    if "calcLines h lines (viewport g) = Inr (lines', st)" "lookup lines ''lines'' = Arr vs"
      "\<not> is_function (lookup lines ''sublines'')" "\<not> is_function (lookup lines ''labels'')"
    for lines lines' st vs
  proof -
    have p: "leaves_state h (lookup lines ''lines'')" "leaves_state h (lookup lines ''sublines'')"
      using that(2,3) by (simp_all add: leaves_state_value)
    have "leaves_state h (lookup lines ''labels'')"
      using that(4) by (rule leaves_state_value)
    with that(1) p obtain s6 V SV L where
      c: "convert_hashmap h lines V L s6 = Inr (lines', st)" and
      v: "lookup s6 ''values'' = V" and
      vals: "if is_function (lookup lines ''lines'')
             then (\<exists>st. call h (lookup lines ''lines'') st = Inr (V, st))
             else V = js_or (lookup lines ''lines'') (Arr [])" and
      labs: "if strict_eq (lookup lines ''labels'') (Bool True) then L = V
       else if is_function (lookup lines ''labels'')
       then (\<exists>st. call h (lookup lines ''labels'') st = Inr (L, st))
       else if is_array (lookup lines ''labels'') then L = lookup lines ''labels''
       else thn (get V ''length'') Array_fill_null = Inr L"
      by (rule calcLines_final)
    from vals that(2) have V: "V = Arr vs" by (simp add: js_or_def)
    have "\<not> isObj L"
    proof (cases "strict_eq (lookup lines ''labels'') (Bool True)")
      case True
      with labs V show ?thesis by simp
    next
      case nt: False
      show ?thesis
      proof (cases "is_array (lookup lines ''labels'')")
        case True
        with nt that(4) labs show ?thesis
          by (cases "lookup lines ''labels''") simp_all
      next
        case False
        with nt that(4) labs have "thn (get V ''length'') Array_fill_null = Inr L" by simp
        then show ?thesis
          by (auto simp: thn_eq_Inr elim: Array_fill_null_Arr)
      qed
    qed
    with c have "st = s6" by (simp add: convert_hashmap_def)
    with v V show ?thesis by simp
  qed
  have dx: "x = this_x (merge_opts h g opts)"
    if "truthy (lookup (this_x (merge_opts h g opts)) ''disabled'')"
    using nx normalize_disabled[OF that, of h "viewport g"] by simp
  have dy: "y = this_y (merge_opts h g opts)"
    if "truthy (lookup (this_y (merge_opts h g opts)) ''disabled'')"
    using ny normalize_disabled[OF that, of h "viewport g"] by simp
  have "normalize h (viewport g) (this_x (merge_opts h g opts)) = Inr x
            \<and> calcLines h x (viewport g) = Inr (this_x g', sx) \<and> state_x g' = Obj sx
            \<and> (truthy (lookup (this_x (merge_opts h g opts)) ''disabled'')
                 \<longrightarrow> x = this_x (merge_opts h g opts)
                   \<and> (\<forall>vs. lookup x ''lines'' = Arr vs
                            \<and> \<not> is_function (lookup x ''sublines'')
                            \<and> \<not> is_function (lookup x ''labels'')
                         \<longrightarrow> lookup sx ''values'' = Arr vs))"
    using nx cx dx lit[OF cx] by (simp add: g')
  moreover have "normalize h (viewport g) (this_y (merge_opts h g opts)) = Inr y
            \<and> calcLines h y (viewport g) = Inr (this_y g', sy) \<and> state_y g' = Obj sy
            \<and> (truthy (lookup (this_y (merge_opts h g opts)) ''disabled'')
                 \<longrightarrow> y = this_y (merge_opts h g opts)
                   \<and> (\<forall>vs. lookup y ''lines'' = Arr vs
                            \<and> \<not> is_function (lookup y ''sublines'')
                            \<and> \<not> is_function (lookup y ''labels'')
                         \<longrightarrow> lookup sy ''values'' = Arr vs))"
    using ny cy dy lit[OF cy] by (simp add: g')
  ultimately show ?thesis by blast
qed

theorem update_disabled_axis_witness:
  "\<not> isl (update sample_host sample_grid
             (Obj [(''x'', Obj [(''disabled'', Bool True),
                                (''lines'', Arr [Number (Fin 1), Number (Fin 2)])])]))
   \<and> truthy (lookup (this_x (merge_opts sample_host sample_grid
             (Obj [(''x'', Obj [(''disabled'', Bool True),
                                (''lines'', Arr [Number (Fin 1), Number (Fin 2)])])])))
               ''disabled'')
   \<and> lookup (this_x (merge_opts sample_host sample_grid
             (Obj [(''x'', Obj [(''disabled'', Bool True),
                                (''lines'', Arr [Number (Fin 1), Number (Fin 2)])])])))
         ''lines'' = Arr [Number (Fin 1), Number (Fin 2)]
   \<and> get (state_x (projr (update sample_host sample_grid
             (Obj [(''x'', Obj [(''disabled'', Bool True),
                                (''lines'', Arr [Number (Fin 1), Number (Fin 2)])])]))))
         ''values'' = Inr (Arr [Number (Fin 1), Number (Fin 2)])"
proof -
  let ?fx = "Obj [(''disabled'', Bool True), (''lines'', Arr [Number (Fin 1), Number (Fin 2)])]"
  let ?m = "this_x (merge_opts sample_host sample_grid (Obj [(''x'', ?fx)]))"
  have tt: "take_type sample_host ?fx = ?fx"
    by (simp add: lookup_Cons lookup_Nil)
  have mm: "?m = extend_props (this_x sample_grid) ?fx"
    by (simp add: merge_opts_def fragment_Obj lookup_Cons lookup_Nil)
  have m: "lookup ?m k =
             (if k = ''disabled'' then Bool True
              else if k = ''lines'' then Arr [Number (Fin 1), Number (Fin 2)]
              else lookup sample_x k)" for k
    unfolding mm
    by (simp add: lookup_Cons lookup_Nil lookup_extend_props sample_grid_facts)
  have "plain_axis sample_host sample_viewport (extend_props (this_x sample_grid) ?fx)"
    unfolding mm[symmetric] plain_axis_def m
    by (simp add: sample_viewport_def sample_tables sample_host_sel)
  from update_sample_grid_x[of ?fx, unfolded tt, OF this] obtain g' where
    u: "update sample_host sample_grid (Obj [(''x'', ?fx)]) = Inr g'"
    by blast
  from update_disabled_axis[OF u] obtain x sx where
    s: "state_x g' = Obj sx" and
    d: "truthy (lookup ?m ''disabled'')
          \<longrightarrow> x = ?m
            \<and> (\<forall>vs. lookup x ''lines'' = Arr vs
                     \<and> \<not> is_function (lookup x ''sublines'')
                     \<and> \<not> is_function (lookup x ''labels'')
                  \<longrightarrow> lookup sx ''values'' = Arr vs)"
    by blast
  have t: "truthy (lookup ?m ''disabled'')"
    and l: "lookup ?m ''lines'' = Arr [Number (Fin 1), Number (Fin 2)]"
    and nf: "\<not> is_function (lookup ?m ''sublines'')" "\<not> is_function (lookup ?m ''labels'')"
    unfolding m by (simp_all add: sample_tables)
  from d t have x: "x = ?m" and
    v: "\<And>vs. lookup x ''lines'' = Arr vs \<Longrightarrow> \<not> is_function (lookup x ''sublines'')
           \<Longrightarrow> \<not> is_function (lookup x ''labels'') \<Longrightarrow> lookup sx ''values'' = Arr vs"
    by blast+
  have "lookup sx ''values'' = Arr [Number (Fin 1), Number (Fin 2)]"
    by (rule v) (simp_all only: x l nf not_False_eq_True)
  with u s t l show ?thesis
    by simp
qed

theorem update_disabled_axis_counterexample:
  "\<not> isl (Grid sample_host sample_viewport disabled_x_opts)
   \<and> lookup (this_x (projr (Grid sample_host sample_viewport disabled_x_opts))) ''disabled''
       = Bool True
   \<and> get (state_x (projr (Grid sample_host sample_viewport disabled_x_opts))) ''values''
       = Inr (Arr [Number (Fin 1), Number (Fin 2)])"
proof -
  obtain g st where
    "Grid sample_host sample_viewport disabled_x_opts = Inr g"
    "lookup (this_x g) ''disabled'' = Bool True"
    "state_x g = Obj st"
    "lookup st ''values'' = Arr [Number (Fin 1), Number (Fin 2)]"
    by (rule Grid_disabled_x)
  then show ?thesis by simp
qed

text \<open>
  Claim C2, as amended. When a per-axis fragment of the options names a preset, update
  assigns the preset onto the fragment before it merges the fragment into the axis
  configuration. So for a key set both by the preset and by the fragment, the preset's
  value is the one stored; the fragment's own value is stored only for keys the preset
  does not set. (The stored \<open>offset\<close> is normalized afterwards, and a \<open>lines\<close> key
  is covered when the preset supplies a generator function for it.) The counterexample
  updates with \<open>{x: {type: 'linear', lines: [5]}}\<close> and finds the preset's generator
  stored, not \<open>[5]\<close>.
\<close>

theorem update_preset_wins:
  assumes "update h g opts = Inr g'" and "truthy opts"
    and "name = ''x'' \<or> name = ''y'' \<or> name = ''r'' \<or> name = ''a''"
    and "fragment opts name = Obj frag"
    and "truthy (lookup frag ''type'')"
    and "lookup (types h) (ToString h (lookup frag ''type'')) = Obj preset"
    and "distinct (map fst preset)" and "distinct (map fst frag)"
    and "k \<noteq> ''offset''"
    and "k = ''lines'' \<longrightarrow> is_function (lookup preset ''lines'')"
  shows "(k \<in> fst ` set preset \<longrightarrow> lookup (axis_of g' name) k = lookup preset k)
       \<and> (k \<notin> fst ` set preset \<longrightarrow> k \<in> fst ` set frag
            \<longrightarrow> lookup (axis_of g' name) k = lookup frag k)"
  using assms by (rule update_preset)

theorem update_preset_wins_witness:
  "\<not> isl (update sample_host sample_grid preset_opts)
   \<and> fragment preset_opts ''x''
       = Obj [(''type'', Str ''linear''), (''lines'', Arr [Number (Fin 5)])]
   \<and> lookup (types sample_host) ''linear'' = Obj [(''lines'', Fun (Closure 0 1))]
   \<and> lookup (axis_of (projr (update sample_host sample_grid preset_opts)) ''x'') ''lines''
       = Fun (Closure 0 1)
   \<and> lookup (axis_of (projr (update sample_host sample_grid preset_opts)) ''x'') ''type''
       = Str ''linear''"
proof -
  obtain g' where u: "update sample_host sample_grid preset_opts = Inr g'"
    by (rule update_preset_opts)
  have f: "fragment preset_opts ''x''
             = Obj [(''type'', Str ''linear''), (''lines'', Arr [Number (Fin 5)])]"
    by (simp add: preset_opts_def fragment_Obj lookup_Cons)
  have t: "truthy preset_opts"
    by (simp add: preset_opts_def)
  have p: "lookup (types sample_host)
             (ToString sample_host
                (lookup [(''type'', Str ''linear''), (''lines'', Arr [Number (Fin 5)])] ''type''))
             = Obj [(''lines'', Fun (Closure 0 1))]"
    by (simp add: sample_host_sel lookup_Cons)
  have ty: "truthy (lookup [(''type'', Str ''linear''), (''lines'', Arr [Number (Fin 5)])] ''type'')"
    by (simp add: lookup_Cons)
  have "lookup (axis_of g' ''x'') ''lines'' = Fun (Closure 0 1)"
    using update_preset_wins[OF u t _ f ty p, of "''lines''"]
    by (simp add: lookup_Cons)
  moreover have "lookup (axis_of g' ''x'') ''type'' = Str ''linear''"
    using update_preset_wins[OF u t _ f ty p, of "''type''"]
    by (simp add: lookup_Cons)
  ultimately show ?thesis
    using u f by (simp add: sample_host_sel lookup_Cons)
qed

theorem update_preset_wins_counterexample:
  "\<not> isl (update sample_host sample_grid preset_opts)
   \<and> fragment preset_opts ''x''
       = Obj [(''type'', Str ''linear''), (''lines'', Arr [Number (Fin 5)])]
   \<and> lookup (this_x (projr (update sample_host sample_grid preset_opts))) ''lines''
       = Fun (Closure 0 1)"
proof -
  obtain g' where "update sample_host sample_grid preset_opts = Inr g'"
    "lookup (this_x g') ''lines'' = Fun (Closure 0 1)"
    by (rule update_preset_opts)
  then show ?thesis
    by (simp add: preset_opts_def fragment_Obj lookup_Cons)
qed

text \<open>
  Claim C5, as amended. Take a pointer drag, that is, an event with \<open>dz = 0\<close> whose
  \<open>dx\<close>, \<open>dy\<close> and pointer position are finite numbers of magnitude at most \<open>2^255\<close>,
  over a viewport of such numbers that is at least one pixel wide and high. Let the x
  and the y axis be enabled with \<open>pan\<close> on, their offset and scale finite numbers of
  magnitude at most \<open>2^255\<close>, the scale already within \<open>[minScale, maxScale]\<close>, and the
  origin a number in \<open>[0, 1]\<close> (the conditions \<open>drag_event\<close>, \<open>pixel_viewport\<close> and
  \<open>pan_axis\<close>). Then the zoom step of the handler, which runs on a drag too, has nothing
  to clamp and moves nothing, and the handler hands to update the x offset lowered by
  \<open>scale * dx\<close> and the y offset raised by \<open>scale * dy\<close>, the scales as they were: the y
  rule has the opposite sign of the x rule, in line with the inverted y ratio. The
  numbers are those of exact arithmetic; the code rounds each operation to a double.
  The counterexample is the sample grid dragged by one pixel: the y offset becomes 1,
  where subtracting would give -1.
\<close>

theorem interaction_pan:
  assumes "pan_axis (this_x g) ox sx" and "pan_axis (this_y g) oy sy"
    and "drag_event e dx dy" and "pixel_viewport (viewport g)"
  shows "interaction h g e =
           Inr [(''x'', Obj [(''offset'', Number (Fin (ox - sx * dx))), (''scale'', Number (Fin sx))]),
                (''y'', Obj [(''offset'', Number (Fin (oy + sy * dy))), (''scale'', Number (Fin sy))])]"
  using assms by (rule interaction_drag)

theorem interaction_pan_witness:
  "interaction sample_host sample_grid sample_drag =
     Inr [(''x'', Obj [(''offset'', Number (Fin (- 1))), (''scale'', Number (Fin 1))]),
          (''y'', Obj [(''offset'', Number (Fin 1)), (''scale'', Number (Fin 1))])]"
  using interaction_pan[OF pan_sample_grid_x pan_sample_grid_y drag_sample_drag
          pixel_sample_viewport, of sample_host]
  by simp

theorem interaction_pan_counterexample:
  "\<not> isl (interaction sample_host sample_grid sample_drag)
   \<and> lookup (projr (interaction sample_host sample_grid sample_drag)) ''y''
       = Obj [(''offset'', Number (Fin 1)), (''scale'', Number (Fin 1))]
   \<and> js_sub sample_host (lookup (this_y sample_grid) ''offset'')
         (js_mul sample_host (lookup (this_y sample_grid) ''scale'') (lookup sample_drag ''dy''))
       = Number (Fin (- 1))"
proof -
  have run: "interaction sample_host sample_grid sample_drag =
     Inr [(''x'', Obj [(''offset'', Number (Fin (0 - 1 * 1))), (''scale'', Number (Fin 1))]),
          (''y'', Obj [(''offset'', Number (Fin (0 + 1 * 1))), (''scale'', Number (Fin 1))])]"
    by (rule interaction_drag[OF pan_sample_grid_x pan_sample_grid_y drag_sample_drag
          pixel_sample_viewport])
  have "js_sub sample_host (lookup (this_y sample_grid) ''offset'')
         (js_mul sample_host (lookup (this_y sample_grid) ''scale'') (lookup sample_drag ''dy''))
        = Number (Fin (- 1))"
    by (simp add: sample_grid_facts lookup_sample_y lookup_proto_y lookup_defaults_sample
          lookup_defaults_literal sample_drag_def lookup_Cons js_on_numbers num_sub_def fl_small)
  with run show ?thesis
    by (simp add: lookup_Cons)
qed

end
